(* ===== verification/J1_Prelude.thy ===== *)
theory J1_Prelude
  imports Main "HOL-Library.Word"
begin

text \<open>
  Shared vocabulary of the development.

  The fixed-width integer types of \<^verbatim>\<open>ServerCore/Types.h\<close>, the exceptions the servers
  throw, and the state-and-exception monad in which every operation that may throw is
  written: a computation takes the state and returns either an exception or a value,
  together with the state it left behind.  A weakest-precondition operator turns the
  symbolic execution of such a computation into rewriting; the rules of the primitives are
  collected in \<open>wp_rules\<close>.
\<close>

section \<open>Machine integers (ServerCore/Types.h)\<close>

type_synonym byte = "8 word"
type_synonym int16 = "16 word"
type_synonym int32 = "32 word"
type_synonym int64 = "64 word"
type_synonym uint32 = "32 word"
type_synonym uint64 = "64 word"

definition in_int32 :: "int \<Rightarrow> bool" where
  "in_int32 x \<longleftrightarrow> - (2 ^ 31) \<le> x \<and> x < 2 ^ 31"

definition in_int64 :: "int \<Rightarrow> bool" where
  "in_int64 x \<longleftrightarrow> - (2 ^ 63) \<le> x \<and> x < 2 ^ 63"

named_theorems int_casts \<open>signed readings of narrowing and widening conversions\<close>

lemma sint_word_of_int_in_range:
  assumes "- (2 ^ (LENGTH('a) - 1)) \<le> x" and "x < 2 ^ (LENGTH('a) - 1)"
  shows "sint (word_of_int x :: 'a::len word) = x"
  using assms by (simp add: sint_sbintrunc' signed_take_bit_int_eq_self)

lemma sint_word_of_int32 [int_casts]:
  "in_int32 x \<Longrightarrow> sint (word_of_int x :: int32) = x"
  unfolding in_int32_def by (rule sint_word_of_int_in_range) auto

lemma sint_word_of_int64 [int_casts]:
  "in_int64 x \<Longrightarrow> sint (word_of_int x :: int64) = x"
  unfolding in_int64_def by (rule sint_word_of_int_in_range) auto

lemma in_int32_int64: "in_int32 x \<Longrightarrow> in_int64 x"
  by (simp add: in_int32_def in_int64_def)

lemma in_int64_sint [simp]: "in_int64 (sint (w :: int64))"
  using sint_greater_eq [of w] sint_less [of w] by (simp add: in_int64_def)

lemma in_int32_sint [simp]: "in_int32 (sint (w :: int32))"
  using sint_greater_eq [of w] sint_less [of w] by (simp add: in_int32_def)

lemma sint_scast_32_64 [int_casts]: "sint (scast (w :: int32) :: int64) = sint w"
  by (rule sint_up_scast) (simp add: is_up)

lemma scast_eq_iff: "scast (w :: int32) = (v :: int64) \<longleftrightarrow> sint w = sint v"
  by (metis sint_scast_32_64 signed_word_eqI)

section \<open>Exceptions and the state monad\<close>

text \<open>
  \<open>SQLException\<close> carries the MySQL error number and the message; the constructor with a
  message only, which the source uses for its own failures, has error number 0.
\<close>

datatype exn =
    SQLException int string
  | ConnectionUnavailable
  | StdException string

type_synonym ('s, 'a) xm = "'s \<Rightarrow> (exn + 'a) \<times> 's"

definition returnM :: "'a \<Rightarrow> ('s, 'a) xm" where
  "returnM a s = (Inr a, s)"

definition throwM :: "exn \<Rightarrow> ('s, 'a) xm" where
  "throwM e s = (Inl e, s)"

definition bindM :: "('s, 'a) xm \<Rightarrow> ('a \<Rightarrow> ('s, 'b) xm) \<Rightarrow> ('s, 'b) xm" where
  "bindM m f s = (case m s of (Inl e, s') \<Rightarrow> (Inl e, s') | (Inr a, s') \<Rightarrow> f a s')"

text \<open>\<open>catchM\<close> is a \<^verbatim>\<open>try\<close> block with one handler; \<open>whenM\<close> a guarded throw.\<close>

definition catchM :: "('s, 'a) xm \<Rightarrow> (exn \<Rightarrow> ('s, 'a) xm) \<Rightarrow> ('s, 'a) xm" where
  "catchM m h s = (case m s of (Inl e, s') \<Rightarrow> h e s' | (Inr a, s') \<Rightarrow> (Inr a, s'))"

definition throwIf :: "bool \<Rightarrow> exn \<Rightarrow> ('s, unit) xm" where
  "throwIf b e = (if b then throwM e else returnM ())"

named_theorems wp_rules \<open>weakest preconditions of the primitives\<close>

definition wp :: "('s, 'a) xm \<Rightarrow> ('a \<Rightarrow> 's \<Rightarrow> bool) \<Rightarrow> (exn \<Rightarrow> 's \<Rightarrow> bool) \<Rightarrow> 's \<Rightarrow> bool" where
  "wp m Q E s = (case m s of (Inl e, s') \<Rightarrow> E e s' | (Inr a, s') \<Rightarrow> Q a s')"

lemma wp_returnM [wp_rules]: "wp (returnM a) Q E s = Q a s"
  by (simp add: wp_def returnM_def)

lemma wp_throwM [wp_rules]: "wp (throwM e) Q E s = E e s"
  by (simp add: wp_def throwM_def)

lemma wp_bindM [wp_rules]: "wp (bindM m f) Q E s = wp m (\<lambda>a. wp (f a) Q E) E s"
  by (simp add: wp_def bindM_def split: sum.splits prod.splits)

lemma wp_catchM [wp_rules]: "wp (catchM m h) Q E s = wp m Q (\<lambda>e. wp (h e) Q E) s"
  by (simp add: wp_def catchM_def split: sum.splits prod.splits)

lemma wp_throwIf [wp_rules]:
  "wp (throwIf b e) Q E s = (if b then E e s else Q () s)"
  by (simp add: throwIf_def wp_rules)

lemma wp_mono:
  "wp m Q E s \<Longrightarrow> (\<And>a s'. Q a s' \<Longrightarrow> Q' a s') \<Longrightarrow> (\<And>e s'. E e s' \<Longrightarrow> E' e s') \<Longrightarrow> wp m Q' E' s"
  by (auto simp: wp_def split: sum.splits prod.splits)

lemma wp_conj:
  "wp m Q E s \<Longrightarrow> wp m Q' E' s \<Longrightarrow> wp m (\<lambda>a s'. Q a s' \<and> Q' a s') (\<lambda>e s'. E e s' \<and> E' e s') s"
  by (auto simp: wp_def split: sum.splits prod.splits)

lemma wp_Inr: "wp m Q E s \<Longrightarrow> m s = (Inr a, s') \<Longrightarrow> Q a s'"
  by (simp add: wp_def)

lemma wp_Inl: "wp m Q E s \<Longrightarrow> m s = (Inl e, s') \<Longrightarrow> E e s'"
  by (simp add: wp_def)

lemma wpI:
  "(\<And>a s'. m s = (Inr a, s') \<Longrightarrow> Q a s') \<Longrightarrow> (\<And>e s'. m s = (Inl e, s') \<Longrightarrow> E e s') \<Longrightarrow> wp m Q E s"
  by (auto simp: wp_def split: sum.splits prod.splits)

section \<open>Lists used as tables and queues\<close>

lemma length_filter_map_if:
  "length (filter P (map (\<lambda>x. if P x then f x else x) xs)) \<le> length xs"
  by (metis length_filter_le length_map)

lemma sum_list_map_if_none:
  fixes f g :: "'a \<Rightarrow> int"
  assumes "\<And>y. y \<in> set xs \<Longrightarrow> \<not> P y"
  shows "(\<Sum>y\<leftarrow>xs. if P y then f y else g y) = (\<Sum>y\<leftarrow>xs. g y)"
  using assms by (induction xs) auto

lemma sum_list_map_if_unique:
  fixes f g :: "'a \<Rightarrow> int"
  assumes "distinct xs" and "x \<in> set xs"
    and "\<And>y. y \<in> set xs \<Longrightarrow> P y \<longleftrightarrow> y = x"
  shows "(\<Sum>y\<leftarrow>xs. if P y then f y else g y) = (\<Sum>y\<leftarrow>xs. g y) + f x - g x"
  using assms
proof (induction xs)
  case Nil
  then show ?case by simp
next
  case (Cons a xs)
  show ?case
  proof (cases "a = x")
    case True
    then have "\<And>y. y \<in> set xs \<Longrightarrow> \<not> P y" using Cons.prems by auto
    then show ?thesis using True Cons.prems(3) [of x] by (simp add: sum_list_map_if_none)
  next
    case False
    then have "\<not> P a" and "x \<in> set xs" using Cons.prems by auto
    then show ?thesis using Cons by simp
  qed
qed

lemma find_SomeD: "find P xs = Some x \<Longrightarrow> x \<in> set xs \<and> P x"
  by (auto simp: find_Some_iff)

lemma filter_hd_find: "find P xs = (case filter P xs of [] \<Rightarrow> None | x # _ \<Rightarrow> Some x)"
  by (induction xs) auto

end
