(* ===== verification/Packet.thy ===== *)
theory Packet
  imports J1_Prelude
begin

text \<open>
  \<^verbatim>\<open>ServerCore/Packet.h\<close>: the four-byte packet header (length and code, two signed 16-bit
  integers in the byte order of the little-endian hosts the servers run on) and
  \<open>PacketUtil\<close>'s \<open>RequiredSize\<close>, \<open>Serialize\<close>, \<open>ParseHeader\<close> and \<open>Parse\<close> over asio buffers.

  protobuf's runtime is not part of the repository: a message class is a parameter of type
  \<open>'m msg_class\<close>, and the locale \<open>message_codec\<close> states what protobuf documents of it and the
  code relies on.
\<close>

section \<open>Little-endian 16-bit fields\<close>

definition le16 :: "int16 \<Rightarrow> byte list" where
  "le16 w = [ucast w, ucast (drop_bit 8 w)]"

definition of_le16 :: "byte \<Rightarrow> byte \<Rightarrow> int16" where
  "of_le16 lo hi = or (ucast lo) (push_bit 8 (ucast hi))"

lemma of_le16_le16: "of_le16 (ucast w) (ucast (drop_bit 8 w)) = w"
  by (rule bit_word_eqI)
    (auto simp: of_le16_def bit_or_iff bit_push_bit_iff bit_ucast_iff bit_drop_bit_eq)

section \<open>PacketHeader\<close>

record PacketHeader =
  Length :: int16
  Code :: int16

definition header_bytes :: "PacketHeader \<Rightarrow> byte list" where
  "header_bytes h = le16 (Length h) @ le16 (Code h)"

definition sizeof_PacketHeader :: nat where
  "sizeof_PacketHeader = 4"

lemma length_header_bytes [simp]: "length (header_bytes h) = sizeof_PacketHeader"
  by (simp add: header_bytes_def le16_def sizeof_PacketHeader_def)

section \<open>Message classes\<close>

record 'm msg_class =
  ByteSizeLong :: "'m \<Rightarrow> nat"
  SerializeToArray :: "'m \<Rightarrow> nat \<Rightarrow> byte list option"
  ParseFromArray :: "byte list \<Rightarrow> 'm option"

text \<open>
  What protobuf documents: \<open>SerializeToArray\<close> fails when the array is too small and otherwise, for
  messages up to \<open>INT_MAX\<close> bytes, writes \<open>ByteSizeLong\<close> bytes; \<open>ParseFromArray\<close> reads back what it
  wrote for the messages \<open>ok\<close>, whose strings are valid UTF-8.
\<close>

definition INT_MAX :: nat where
  "INT_MAX = 2147483647"

locale message_codec =
  fixes M :: "'m msg_class" and ok :: "'m \<Rightarrow> bool"
  assumes ser_None: "n < ByteSizeLong M m \<Longrightarrow> SerializeToArray M m n = None"
    and ser_Some: "ByteSizeLong M m \<le> n \<Longrightarrow> ByteSizeLong M m \<le> INT_MAX \<Longrightarrow>
      \<exists>bs. SerializeToArray M m n = Some bs \<and> length bs = ByteSizeLong M m"
    and ser_parse: "ok m \<Longrightarrow> SerializeToArray M m n = Some bs \<Longrightarrow> ParseFromArray M bs = Some m"

section \<open>PacketUtil\<close>

definition RequiredSize :: "'m msg_class \<Rightarrow> 'm \<Rightarrow> nat" where
  "RequiredSize M msg = sizeof_PacketHeader + ByteSizeLong M msg"

text \<open>
  \<open>Serialize\<close> writes into a buffer of the caller: the result is the success flag and the
  buffer's contents.  The header is copied before the payload is serialised, so it stays in
  the buffer when the payload fails.  The length is the payload size cut to 16 bits.
\<close>

definition Serialize :: "'m msg_class \<Rightarrow> byte list \<Rightarrow> int16 \<Rightarrow> 'm \<Rightarrow> bool \<times> byte list" where
  "Serialize M buffer packetCode msg =
     (if length buffer < RequiredSize M msg then (False, buffer)
      else
        let header = \<lparr>Length = word_of_nat (ByteSizeLong M msg), Code = packetCode\<rparr>;
            buffer1 = header_bytes header @ drop sizeof_PacketHeader buffer
        in case SerializeToArray M msg (length buffer - sizeof_PacketHeader) of
             None \<Rightarrow> (False, buffer1)
           | Some bs \<Rightarrow> (True, header_bytes header @ bs @ drop (sizeof_PacketHeader + length bs) buffer))"

text \<open>
  \<open>ParseHeader\<close> returns the header and the advanced offset, or \<open>None\<close>.  The offset is an
  \<open>int\<close> compared with a \<open>size_t\<close>; its only caller passes 0 or the value left by the previous
  header, so it is a natural number.
\<close>

definition ParseHeader :: "byte list \<Rightarrow> nat \<Rightarrow> (PacketHeader \<times> nat) option" where
  "ParseHeader buffer offset =
     (if length buffer \<le> offset then None
      else if length buffer - offset < sizeof_PacketHeader then None
      else Some (\<lparr>Length = of_le16 (buffer ! offset) (buffer ! (offset + 1)),
                  Code = of_le16 (buffer ! (offset + 2)) (buffer ! (offset + 3))\<rparr>,
                 offset + sizeof_PacketHeader))"

text \<open>
  \<open>Parse\<close> reads the message from the start of the body buffer and advances the offset by the
  size of the parsed message.  \<open>payloadSize\<close> is the size of the body buffer at every call.
\<close>

definition Parse :: "'m msg_class \<Rightarrow> byte list \<Rightarrow> nat \<Rightarrow> nat \<Rightarrow> ('m \<times> nat) option" where
  "Parse M buffer payloadSize offset =
     (case ParseFromArray M (take payloadSize buffer) of
        None \<Rightarrow> None
      | Some msg \<Rightarrow> Some (msg, offset + ByteSizeLong M msg))"

text \<open>
  \<open>SendPacket\<close>, the same five lines in each server's session class: a zeroed buffer of the
  required size, \<open>Serialize\<close> with its result dropped, and the buffer handed to \<open>Send\<close>.
\<close>

definition SendPacket :: "'m msg_class \<Rightarrow> 'm \<Rightarrow> int16 \<Rightarrow> byte list" where
  "SendPacket M msg packetCode =
     (let bufSize = RequiredSize M msg
      in snd (Serialize M (replicate bufSize 0) packetCode msg))"

section \<open>Headers\<close>

lemma ParseHeader_header_bytes:
  "ParseHeader (header_bytes h @ rest) 0 = Some (h, sizeof_PacketHeader)"
  by (simp add: ParseHeader_def header_bytes_def le16_def of_le16_le16 sizeof_PacketHeader_def)

lemma ParseHeader_None_iff:
  "ParseHeader buffer offset = None \<longleftrightarrow> length buffer < offset + sizeof_PacketHeader"
  by (auto simp: ParseHeader_def sizeof_PacketHeader_def)

lemma ParseHeader_offset:
  "ParseHeader buffer offset = Some (h, off) \<Longrightarrow> off = offset + 4 \<and> off \<le> length buffer"
  by (auto simp: ParseHeader_def sizeof_PacketHeader_def split: if_splits)

text \<open>A header length is faithful exactly up to \<open>SHRT_MAX\<close>.\<close>

definition SHRT_MAX :: nat where
  "SHRT_MAX = 32767"

lemma sint_length16: "sint (word_of_nat n :: int16) = int n \<longleftrightarrow> n \<le> SHRT_MAX"
proof
  assume "sint (word_of_nat n :: int16) = int n"
  then have "int n < 2 ^ 15" using sint_less [of "word_of_nat n :: int16"] by simp
  then show "n \<le> SHRT_MAX" by (simp add: SHRT_MAX_def)
next
  assume "n \<le> SHRT_MAX"
  then have "sint (word_of_int (int n) :: int16) = int n"
    by (intro sint_word_of_int_in_range) (auto simp: SHRT_MAX_def)
  then show "sint (word_of_nat n :: int16) = int n" by simp
qed

section \<open>Messages through the codec\<close>

context message_codec
begin

lemma Serialize_ok:
  assumes "RequiredSize M m \<le> length buffer" and "ByteSizeLong M m \<le> INT_MAX"
  obtains bs where "SerializeToArray M m (length buffer - sizeof_PacketHeader) = Some bs"
    and "length bs = ByteSizeLong M m"
    and "Serialize M buffer code m =
      (True, header_bytes \<lparr>Length = word_of_nat (ByteSizeLong M m), Code = code\<rparr> @ bs
             @ drop (RequiredSize M m) buffer)"
proof -
  from assms(1) have "ByteSizeLong M m \<le> length buffer - sizeof_PacketHeader"
    by (simp add: RequiredSize_def)
  from ser_Some [OF this assms(2)] obtain bs where
    bs: "SerializeToArray M m (length buffer - sizeof_PacketHeader) = Some bs"
      "length bs = ByteSizeLong M m" by blast
  have "Serialize M buffer code m =
      (True, header_bytes \<lparr>Length = word_of_nat (ByteSizeLong M m), Code = code\<rparr> @ bs
             @ drop (RequiredSize M m) buffer)"
    using assms bs by (simp add: Serialize_def Let_def RequiredSize_def)
  with bs that show thesis by blast
qed

lemma SendPacket_frame:
  assumes "ByteSizeLong M m \<le> INT_MAX"
  obtains bs where "SerializeToArray M m (ByteSizeLong M m) = Some bs"
    and "length bs = ByteSizeLong M m"
    and "SendPacket M m code =
      header_bytes \<lparr>Length = word_of_nat (ByteSizeLong M m), Code = code\<rparr> @ bs"
proof -
  obtain bs where "SerializeToArray M m
        (length (replicate (RequiredSize M m) (0 :: byte)) - sizeof_PacketHeader) = Some bs"
    and "length bs = ByteSizeLong M m"
    and "Serialize M (replicate (RequiredSize M m) 0) code m =
      (True, header_bytes \<lparr>Length = word_of_nat (ByteSizeLong M m), Code = code\<rparr> @ bs
             @ drop (RequiredSize M m) (replicate (RequiredSize M m) 0))"
    by (rule Serialize_ok [of m "replicate (RequiredSize M m) 0" code]) (use assms in auto)
  then show thesis
    by (intro that [of bs]) (simp_all add: SendPacket_def RequiredSize_def)
qed

lemma length_SendPacket:
  "ByteSizeLong M m \<le> INT_MAX \<Longrightarrow> length (SendPacket M m code) = RequiredSize M m"
  by (erule SendPacket_frame [of m code]) (simp add: RequiredSize_def)

lemma Parse_payload:
  assumes "ok m" and "SerializeToArray M m n = Some bs"
  shows "Parse M bs (length bs) offset = Some (m, offset + ByteSizeLong M m)"
  using ser_parse [OF assms] by (simp add: Parse_def)

end

section \<open>A class for witnesses\<close>

text \<open>A class all of whose messages are empty, for the messages a witness does not send.\<close>

definition empty_class :: "'m \<Rightarrow> 'm msg_class" where
  "empty_class m = \<lparr>ByteSizeLong = (\<lambda>_. 0), SerializeToArray = (\<lambda>_ _. Some []), ParseFromArray = (\<lambda>_. Some m)\<rparr>"

end
