(* ===== verification/SessionRecv.thy ===== *)
theory SessionRecv
  imports Packet
begin

text \<open>
  The receiving half of \<^verbatim>\<open>ServerCore/Session.cpp\<close>.  A session alternates an \<open>async_read\<close> of
  the four header bytes with one of the announced body, and hands every body to the virtual
  \<open>HandlePacket\<close>.  \<open>async_read\<close> completes when its buffer is full, so the model keeps the
  bytes the socket has received but no read has taken (\<open>rx_socket\<close>), and \<open>rx_run\<close> completes
  reads as long as the bytes suffice.

  \<open>HandlePacket\<close> is the parameter \<open>handle\<close> over a state \<open>'w\<close> of its own; it may throw.  An
  exception that leaves a completion handler leaves \<open>io_context::run\<close> and so ends the server's
  main loop: the status \<open>Crashed\<close>.
\<close>

section \<open>State\<close>

datatype read_op = ReadHeader | ReadBody nat

datatype rx_status = Running | Closed | Crashed exn

record 'w session_rx =
  rx_header :: PacketHeader
  rx_offset :: nat
  rx_pending :: read_op
  rx_status :: rx_status
  rx_socket :: "byte list"
  rx_world :: 'w

type_synonym 'w handler = "PacketHeader \<Rightarrow> byte list \<Rightarrow> 'w \<Rightarrow> exn option \<times> 'w"

definition rx_init :: "'w \<Rightarrow> 'w session_rx" where
  "rx_init w = \<lparr>rx_header = \<lparr>Length = 0, Code = 0\<rparr>, rx_offset = 0, rx_pending = ReadHeader,
     rx_status = Running, rx_socket = [], rx_world = w\<rparr>"

section \<open>Operations\<close>

definition HeaderBufferSize :: nat where
  "HeaderBufferSize = 4"

definition rx_Close :: "'w session_rx \<Rightarrow> 'w session_rx" where
  "rx_Close s = s\<lparr>rx_status := Closed\<rparr>"

definition AsyncHeaderRead :: "'w session_rx \<Rightarrow> 'w session_rx" where
  "AsyncHeaderRead s = s\<lparr>rx_offset := 0, rx_pending := ReadHeader\<rparr>"

text \<open>
  \<open>_recvBodyBuffer.resize(_header.Length)\<close> converts the signed length to \<open>size_t\<close>: a negative
  length becomes a size above the vector's \<open>max_size\<close> and \<open>resize\<close> throws
  \<^verbatim>\<open>std::length_error\<close>.
\<close>

definition AsyncBodyRead :: "'w session_rx \<Rightarrow> 'w session_rx" where
  "AsyncBodyRead s =
     (if sint (Length (rx_header s)) < 0 then s\<lparr>rx_status := Crashed (StdException ''length_error'')\<rparr>
      else s\<lparr>rx_pending := ReadBody (nat (sint (Length (rx_header s))))\<rparr>)"

definition OnHeaderRead :: "bool \<Rightarrow> byte list \<Rightarrow> 'w session_rx \<Rightarrow> 'w session_rx" where
  "OnHeaderRead err recvBuffer s =
     (if \<not> err then
        (case ParseHeader recvBuffer (rx_offset s) of
           Some (h, off) \<Rightarrow> AsyncBodyRead (s\<lparr>rx_header := h, rx_offset := off\<rparr>)
         | None \<Rightarrow> rx_Close s)
      else rx_Close s)"

definition OnBodyRead :: "'w handler \<Rightarrow> bool \<Rightarrow> byte list \<Rightarrow> 'w session_rx \<Rightarrow> 'w session_rx" where
  "OnBodyRead handle err body s =
     (if \<not> err then
        (case handle (rx_header s) body (rx_world s) of
           (None, w) \<Rightarrow> AsyncHeaderRead (s\<lparr>rx_offset := 0, rx_world := w\<rparr>)
         | (Some e, w) \<Rightarrow> s\<lparr>rx_world := w, rx_status := Crashed e\<rparr>)
      else rx_Close s)"

definition pending_bytes :: "'w session_rx \<Rightarrow> nat" where
  "pending_bytes s = (case rx_pending s of ReadHeader \<Rightarrow> HeaderBufferSize | ReadBody n \<Rightarrow> n)"

definition rx_complete :: "'w handler \<Rightarrow> 'w session_rx \<Rightarrow> 'w session_rx" where
  "rx_complete handle s =
     (let n = pending_bytes s; bs = take n (rx_socket s); s1 = s\<lparr>rx_socket := drop n (rx_socket s)\<rparr>
      in case rx_pending s of
           ReadHeader \<Rightarrow> OnHeaderRead False bs s1
         | ReadBody _ \<Rightarrow> OnBodyRead handle False bs s1)"

definition rx_ready :: "'w session_rx \<Rightarrow> bool" where
  "rx_ready s \<longleftrightarrow> rx_status s = Running \<and> pending_bytes s \<le> length (rx_socket s)"

text \<open>
  Every two completed reads take at least the four header bytes, which bounds the run.
\<close>

definition rx_measure :: "'w session_rx \<Rightarrow> nat" where
  "rx_measure s = 2 * length (rx_socket s)
     + (if rx_status s = Running then 1 else 0)
     + (case rx_pending s of ReadHeader \<Rightarrow> 0 | ReadBody _ \<Rightarrow> 1)"

lemma rx_complete_measure:
  assumes "rx_ready s"
  shows "rx_measure (rx_complete handle s) < rx_measure s"
  using assms
  by (auto simp: rx_ready_def rx_complete_def Let_def pending_bytes_def rx_measure_def
      OnHeaderRead_def OnBodyRead_def AsyncHeaderRead_def AsyncBodyRead_def rx_Close_def
      HeaderBufferSize_def
      split: read_op.splits option.splits prod.splits)

function rx_run :: "'w handler \<Rightarrow> 'w session_rx \<Rightarrow> 'w session_rx" where
  "rx_run handle s = (if rx_ready s then rx_run handle (rx_complete handle s) else s)"
  by pat_completeness auto
termination
  by (relation "measure (\<lambda>(h, s). rx_measure s)") (auto simp: rx_complete_measure)

declare rx_run.simps [simp del]

definition rx_receive :: "'w handler \<Rightarrow> byte list \<Rightarrow> 'w session_rx \<Rightarrow> 'w session_rx" where
  "rx_receive handle bs s = rx_run handle (s\<lparr>rx_socket := rx_socket s @ bs\<rparr>)"

text \<open>What every call of the handler keeps, the run keeps.\<close>

lemma rx_run_keeps:
  assumes "\<And>h b w. P w \<Longrightarrow> P (snd (handle h b w))" and "P (rx_world s)"
  shows "P (rx_world (rx_run handle s))"
  using assms
proof (induction handle s rule: rx_run.induct)
  case (1 handle s)
  have "P (rx_world (OnBodyRead handle False bs t))" if "P (rx_world t)" for bs t
    using that "1.prems"(1) [of "rx_world t" "rx_header t" bs]
    by (auto simp: OnBodyRead_def AsyncHeaderRead_def split: option.splits prod.splits)
  then have "P (rx_world (rx_complete handle s))"
    using "1.prems"(2)
    by (auto simp: rx_complete_def Let_def OnHeaderRead_def AsyncBodyRead_def rx_Close_def
        split: read_op.splits option.splits)
  with 1 show ?case by (simp add: rx_run.simps [of handle s])
qed

lemma rx_receive_keeps:
  assumes "\<And>h b w. P w \<Longrightarrow> P (snd (handle h b w))" and "P (rx_world s)"
  shows "P (rx_world (rx_receive handle bs s))"
  unfolding rx_receive_def by (rule rx_run_keeps) (simp_all add: assms)

section \<open>The run does not depend on how the bytes arrive\<close>

definition push_bytes :: "byte list \<Rightarrow> 'w session_rx \<Rightarrow> 'w session_rx" where
  "push_bytes bs s = s\<lparr>rx_socket := rx_socket s @ bs\<rparr>"

lemma rx_ready_push: "rx_ready s \<Longrightarrow> rx_ready (push_bytes bs s)"
  by (auto simp: rx_ready_def push_bytes_def pending_bytes_def split: read_op.splits)

lemma rx_complete_push:
  assumes "rx_ready s"
  shows "rx_complete handle (push_bytes bs s) = push_bytes bs (rx_complete handle s)"
  using assms
  by (auto simp: rx_ready_def push_bytes_def rx_complete_def Let_def pending_bytes_def
      OnHeaderRead_def OnBodyRead_def AsyncHeaderRead_def AsyncBodyRead_def rx_Close_def
      split: read_op.splits option.splits prod.splits)

lemma rx_run_push: "rx_run handle (push_bytes bs (rx_run handle s)) = rx_run handle (push_bytes bs s)"
proof (induction handle s rule: rx_run.induct)
  case (1 handle s)
  show ?case
  proof (cases "rx_ready s")
    case True
    have "rx_run handle (push_bytes bs (rx_run handle s))
        = rx_run handle (push_bytes bs (rx_run handle (rx_complete handle s)))"
      using True by (subst (2) rx_run.simps) simp
    also have "\<dots> = rx_run handle (push_bytes bs (rx_complete handle s))"
      using "1.IH" [OF True] .
    also have "\<dots> = rx_run handle (push_bytes bs s)"
      using True rx_complete_push [OF True, of handle bs]
      by (simp add: rx_run.simps [of handle "push_bytes bs s"] rx_ready_push)
    finally show ?thesis .
  next
    case False
    then show ?thesis by (simp add: rx_run.simps [of handle s])
  qed
qed

lemma rx_run_idem: "rx_run handle (rx_run handle s) = rx_run handle s"
  using rx_run_push [of handle "[]" s] by (simp add: push_bytes_def)

lemma rx_receive_push: "rx_receive handle bs s = rx_run handle (push_bytes bs s)"
  by (simp add: rx_receive_def push_bytes_def)

lemma rx_receive_append:
  "rx_receive handle ys (rx_receive handle xs s) = rx_receive handle (xs @ ys) s"
  unfolding rx_receive_push rx_run_push by (simp add: push_bytes_def)

section \<open>Framed packets\<close>

definition frame :: "int16 \<times> byte list \<Rightarrow> byte list" where
  "frame p = header_bytes \<lparr>Length = word_of_nat (length (snd p)), Code = fst p\<rparr> @ snd p"

definition frameable :: "int16 \<times> byte list \<Rightarrow> bool" where
  "frameable p \<longleftrightarrow> length (snd p) \<le> SHRT_MAX"

definition frame_header :: "int16 \<times> byte list \<Rightarrow> PacketHeader" where
  "frame_header p = \<lparr>Length = word_of_nat (length (snd p)), Code = fst p\<rparr>"

text \<open>A log handler: it records every packet it is given.\<close>

definition log_handle :: "(PacketHeader \<times> byte list) list handler" where
  "log_handle h body w = (None, w @ [(h, body)])"

definition at_header :: "'w session_rx \<Rightarrow> bool" where
  "at_header s \<longleftrightarrow> rx_status s = Running \<and> rx_pending s = ReadHeader \<and> rx_offset s = 0"

lemma at_header_init: "at_header (rx_init w)"
  by (simp add: at_header_def rx_init_def)

text \<open>One frame at the front of the socket takes two completed reads.\<close>

lemma rx_run_frame_body:
  assumes "at_header s" and "frameable p" and "rx_socket s = frame p @ rest"
  shows "rx_run handle s = rx_run handle (OnBodyRead handle False (snd p)
    (s\<lparr>rx_header := frame_header p, rx_offset := 4, rx_pending := ReadBody (length (snd p)),
       rx_socket := rest\<rparr>))"
proof -
  let ?h = "frame_header p"
  let ?s1 = "s\<lparr>rx_socket := snd p @ rest, rx_header := ?h, rx_offset := 4,
    rx_pending := ReadBody (length (snd p))\<rparr>"
  have len: "sint (Length ?h) = int (length (snd p))"
    using assms(2) by (simp add: frame_header_def frameable_def sint_length16)
  have "rx_ready s"
    using assms(1,3)
    by (simp add: rx_ready_def at_header_def pending_bytes_def HeaderBufferSize_def frame_def
        sizeof_PacketHeader_def)
  moreover have "rx_complete handle s = ?s1"
    using assms(1,3) len ParseHeader_header_bytes [of ?h "[]"]
    by (simp add: rx_complete_def at_header_def pending_bytes_def HeaderBufferSize_def frame_def
        OnHeaderRead_def AsyncBodyRead_def frame_header_def sizeof_PacketHeader_def)
  moreover have "rx_ready ?s1"
    using assms(1) by (simp add: rx_ready_def at_header_def pending_bytes_def)
  ultimately show ?thesis
    by (simp add: rx_run.simps [of handle s] rx_run.simps [of handle ?s1]
        rx_complete_def [of handle ?s1] pending_bytes_def)
qed

lemma rx_run_frame:
  assumes "at_header s" and "frameable p" and "rx_socket s = frame p @ rest"
    and "handle (frame_header p) (snd p) (rx_world s) = (None, w)"
  shows "rx_run handle s = rx_run handle
    (s\<lparr>rx_header := frame_header p, rx_socket := rest, rx_world := w\<rparr>)"
proof -
  have "s\<lparr>rx_header := frame_header p, rx_socket := rest, rx_world := w, rx_offset := 0,
      rx_pending := ReadHeader\<rparr> = s\<lparr>rx_header := frame_header p, rx_socket := rest, rx_world := w\<rparr>"
    using assms(1) by (cases s) (simp add: at_header_def)
  with rx_run_frame_body [OF assms(1-3), of handle] assms(4) show ?thesis
    by (simp add: OnBodyRead_def AsyncHeaderRead_def)
qed

text \<open>A handler that throws ends the run.\<close>

lemma rx_run_frame_throws:
  assumes "at_header s" and "frameable p" and "rx_socket s = frame p @ rest"
    and "handle (frame_header p) (snd p) (rx_world s) = (Some e, w)"
  shows "rx_world (rx_run handle s) = w \<and> rx_status (rx_run handle s) = Crashed e"
proof -
  let ?t = "OnBodyRead handle False (snd p) (s\<lparr>rx_header := frame_header p, rx_offset := 4,
    rx_pending := ReadBody (length (snd p)), rx_socket := rest\<rparr>)"
  have t: "rx_status ?t = Crashed e" "rx_world ?t = w"
    using assms(4) by (simp_all add: OnBodyRead_def)
  then have "rx_run handle ?t = ?t" by (simp add: rx_run.simps [of handle ?t] rx_ready_def)
  with t rx_run_frame_body [OF assms(1-3), of handle] show ?thesis by simp
qed

text \<open>What the handler makes of a list of packets, if it does not throw.\<close>

fun handled :: "'w handler \<Rightarrow> (int16 \<times> byte list) list \<Rightarrow> 'w \<Rightarrow> 'w option" where
  "handled handle [] w = Some w"
| "handled handle (p # ps) w = (case handle (frame_header p) (snd p) w of
     (None, w') \<Rightarrow> handled handle ps w' | (Some e, w') \<Rightarrow> None)"

lemma rx_run_frames:
  assumes "at_header s" and "list_all frameable ps" and "rx_socket s = concat (map frame ps) @ rest"
    and "handled handle ps (rx_world s) = Some w"
  shows "\<exists>h. rx_run handle s = rx_run handle (s\<lparr>rx_header := h, rx_socket := rest, rx_world := w\<rparr>)"
  using assms
proof (induction ps arbitrary: s)
  case Nil
  then show ?case by (intro exI [of _ "rx_header s"]) (cases s, simp)
next
  case (Cons p ps)
  then obtain w1 where w1: "handle (frame_header p) (snd p) (rx_world s) = (None, w1)"
    and ps: "handled handle ps w1 = Some w" by (auto split: prod.splits option.splits)
  let ?s = "s\<lparr>rx_header := frame_header p, rx_socket := concat (map frame ps) @ rest, rx_world := w1\<rparr>"
  have "rx_run handle s = rx_run handle ?s"
    using Cons.prems w1 by (intro rx_run_frame) auto
  moreover have "\<exists>h. rx_run handle ?s = rx_run handle (?s\<lparr>rx_header := h, rx_socket := rest, rx_world := w\<rparr>)"
    using Cons.prems ps by (intro Cons.IH) (auto simp: at_header_def)
  ultimately show ?case by auto
qed

lemma rx_run_short:
  "at_header s \<Longrightarrow> length (rx_socket s) < 4 \<Longrightarrow> rx_run handle s = s"
  by (simp add: rx_run.simps [of handle s] rx_ready_def at_header_def pending_bytes_def
      HeaderBufferSize_def)

lemma rx_receive_frames:
  assumes "list_all frameable ps" and "handled handle ps w = Some w'"
  shows "rx_world (rx_receive handle (concat (map frame ps)) (rx_init w)) = w'"
    and "at_header (rx_receive handle (concat (map frame ps)) (rx_init w))"
proof -
  let ?s = "(rx_init w)\<lparr>rx_socket := concat (map frame ps)\<rparr>"
  have at: "at_header ?s" by (simp add: at_header_def rx_init_def)
  obtain h where h: "rx_run handle ?s
      = rx_run handle (?s\<lparr>rx_header := h, rx_socket := [], rx_world := w'\<rparr>)"
    using rx_run_frames [OF at assms(1), of "[]" handle w'] assms(2) by (auto simp: rx_init_def)
  let ?t = "?s\<lparr>rx_header := h, rx_socket := [], rx_world := w'\<rparr>"
  have "at_header ?t" using at by (simp add: at_header_def)
  then have "rx_run handle ?t = ?t" by (intro rx_run_short) auto
  with h have "rx_receive handle (concat (map frame ps)) (rx_init w) = ?t"
    by (simp add: rx_receive_def rx_init_def)
  then show "rx_world (rx_receive handle (concat (map frame ps)) (rx_init w)) = w'"
    and "at_header (rx_receive handle (concat (map frame ps)) (rx_init w))"
    using \<open>at_header ?t\<close> by simp_all
qed

lemma handled_log: "handled log_handle ps w = Some (w @ map (\<lambda>p. (frame_header p, snd p)) ps)"
  by (induction ps arbitrary: w) (simp_all add: log_handle_def)

section \<open>The receiving session\<close>

lemma rx_run_init: "rx_run handle (rx_init w) = rx_init w"
  by (simp add: rx_run.simps [of handle] rx_ready_def rx_init_def pending_bytes_def HeaderBufferSize_def)

lemma fold_rx_receive:
  "rx_run handle s = s \<Longrightarrow> fold (rx_receive handle) chunks s = rx_receive handle (concat chunks) s"
proof (induction chunks arbitrary: s)
  case Nil
  then show ?case by (simp add: rx_receive_def)
next
  case (Cons bs chunks)
  have "rx_run handle (rx_receive handle bs s) = rx_receive handle bs s"
    by (simp add: rx_receive_def rx_run_idem)
  with Cons.IH show ?case by (simp add: rx_receive_append)
qed


text \<open>What the peer's \<open>SendPacket\<close> produces is a frame.\<close>

lemma SendPacket_is_frame:
  assumes "message_codec M ok" and "ok m" and "ByteSizeLong M m \<le> INT_MAX"
  shows "\<exists>bs. SendPacket M m code = frame (code, bs) \<and> length bs = ByteSizeLong M m
    \<and> Parse M bs (length bs) 4 = Some (m, 4 + ByteSizeLong M m)"
proof -
  obtain bs where bs: "SerializeToArray M m (ByteSizeLong M m) = Some bs" "length bs = ByteSizeLong M m"
    "SendPacket M m code = header_bytes \<lparr>Length = word_of_nat (ByteSizeLong M m), Code = code\<rparr> @ bs"
    by (rule message_codec.SendPacket_frame [OF assms(1,3), where code = code])
  have "Parse M bs (length bs) 4 = Some (m, 4 + ByteSizeLong M m)"
    by (rule message_codec.Parse_payload [OF assms(1,2) bs(1)])
  with bs show ?thesis by (auto simp: frame_def)
qed

text \<open>
  C11: send and receive round trip.  The messages one side sends with \<open>SendPacket\<close>, each at most
  32767 bytes, arrive at the other side's \<open>HandlePacket\<close> complete, in order and exactly once,
  however the stream is cut: every delivered packet has the code it was sent with, and its body
  parses back to the message.
\<close>

theorem stream_roundtrip:
  assumes "message_codec M ok"
    and "\<And>code m. (code, m) \<in> set ms \<Longrightarrow> ok m \<and> ByteSizeLong M m \<le> SHRT_MAX"
    and "concat chunks = concat (map (\<lambda>(code, m). SendPacket M m code) ms)"
  shows "map (\<lambda>(h, body). (Code h, map_option fst (Parse M body (length body) 4)))
      (rx_world (fold (rx_receive log_handle) chunks (rx_init []))) = map (\<lambda>(code, m). (code, Some m)) ms"
proof -
  define body where "body code m = (SOME bs. SendPacket M m code = frame (code, bs)
    \<and> length bs = ByteSizeLong M m \<and> Parse M bs (length bs) 4 = Some (m, 4 + ByteSizeLong M m))" for code m
  have small: "n \<le> SHRT_MAX \<Longrightarrow> n \<le> INT_MAX" for n by (simp add: SHRT_MAX_def INT_MAX_def)
  have b: "SendPacket M m code = frame (code, body code m) \<and> length (body code m) = ByteSizeLong M m
      \<and> Parse M (body code m) (length (body code m)) 4 = Some (m, 4 + ByteSizeLong M m)"
    if "(code, m) \<in> set ms" for code m
    unfolding body_def using assms(2) [OF that] small
    by (intro someI_ex [OF SendPacket_is_frame [OF assms(1)]]) auto
  let ?ps = "map (\<lambda>(code, m). (code, body code m)) ms"
  have "list_all frameable ?ps" using assms(2) b by (auto simp: list_all_iff frameable_def)
  note R = rx_receive_frames(1) [OF this handled_log, of "[]"]
  have "map frame ?ps = map (\<lambda>(code, m). SendPacket M m code) ms" using b by fastforce
  with R have "rx_world (rx_receive log_handle (concat chunks) (rx_init []))
      = map (\<lambda>p. (frame_header p, snd p)) ?ps" by (simp only: assms(3) append_Nil)
  moreover have "Parse M (body code m) (ByteSizeLong M m) 4 = Some (m, 4 + ByteSizeLong M m)"
    if "(code, m) \<in> set ms" for code m
    using b [OF that] by metis
  ultimately show ?thesis
    unfolding fold_rx_receive [OF rx_run_init] using b by (auto simp: frame_header_def)
qed

text \<open>A negative length.\<close>

lemma negative_header:
  assumes "at_header s" and "rx_socket s = header_bytes \<lparr>Length = len, Code = code\<rparr> @ rest" and "sint len < 0"
  shows "rx_status (rx_run handle s) = Crashed (StdException ''length_error'')
    \<and> rx_world (rx_run handle s) = rx_world s"
proof -
  let ?h = "\<lparr>Length = len, Code = code\<rparr>"
  have ready: "rx_ready s"
    using assms(1,2) by (simp add: rx_ready_def at_header_def pending_bytes_def HeaderBufferSize_def sizeof_PacketHeader_def)
  have stopped: "rx_status (rx_complete handle s) = Crashed (StdException ''length_error'')"
    "rx_world (rx_complete handle s) = rx_world s"
    using assms ParseHeader_header_bytes [of ?h "[]"]
    by (simp_all add: rx_complete_def at_header_def pending_bytes_def HeaderBufferSize_def Let_def
        OnHeaderRead_def AsyncBodyRead_def sizeof_PacketHeader_def)
  then have "\<not> rx_ready (rx_complete handle s)" by (simp add: rx_ready_def)
  then have "rx_run handle s = rx_complete handle s"
    using ready by (simp only: rx_run.simps [of handle s] if_True
        rx_run.simps [of handle "rx_complete handle s"] if_False)
  with stopped show ?thesis by simp
qed

lemma negative_length:
  assumes "sint len < 0"
  shows "rx_status (rx_receive handle (header_bytes \<lparr>Length = len, Code = code\<rparr> @ rest) (rx_init w))
    = Crashed (StdException ''length_error'')"
  unfolding rx_receive_def
  by (rule negative_header [where code = code and rest = rest, THEN conjunct1, OF _ _ assms])
    (simp_all add: at_header_def rx_init_def)

text \<open>
  A negative length stops the server.  A header whose length field is negative, from any
  client, makes \<open>resize\<close> throw in the completion handler; nothing catches it, so the exception
  leaves the server's \<open>io_context::run\<close>.
\<close>

lemma negative_length_crashes:
  assumes "sint len < 0"
  shows "rx_status (rx_receive handle (header_bytes \<lparr>Length = len, Code = code\<rparr> @ rest) (rx_init w))
    = Crashed (StdException ''length_error'')"
  using assms by (rule negative_length)

text \<open>A message of 32768 to 65535 bytes is sent with a negative length.\<close>

lemma oversized_packet:
  assumes "message_codec M ok" and "SHRT_MAX < ByteSizeLong M m" and "ByteSizeLong M m < 65536"
  obtains len bs where "SendPacket M m code = header_bytes \<lparr>Length = len, Code = code\<rparr> @ bs" and "sint len < 0"
proof -
  let ?n = "ByteSizeLong M m"
  have small: "?n \<le> INT_MAX" using assms(3) by (simp add: INT_MAX_def)
  obtain bs where bs: "SendPacket M m code = header_bytes \<lparr>Length = word_of_nat ?n, Code = code\<rparr> @ bs"
    by (rule message_codec.SendPacket_frame [OF assms(1) small, where code = code])
  have "word_of_nat ?n = (word_of_int (int ?n - 65536) :: int16)"
    by (simp add: word_of_int_minus)
  moreover have "sint (word_of_int (int ?n - 65536) :: int16) = int ?n - 65536"
    using assms(2,3) by (intro sint_word_of_int_in_range) (auto simp: SHRT_MAX_def)
  ultimately have "sint (word_of_nat ?n :: int16) = int ?n - 65536" by (simp only:)
  with assms(3) have "sint (word_of_nat ?n :: int16) < 0" by simp
  with bs show thesis by (rule that)
qed

text \<open>
  A packet that is too large stops its receiver.  The length of a packet is cut to a signed
  16-bit integer, so any message of 32768 to 65535 bytes that one of the servers sends reaches its
  peer as a header with a negative length, which ends the peer's main loop.
\<close>

lemma oversized_packet_crashes:
  assumes "message_codec M ok" and "SHRT_MAX < ByteSizeLong M m" and "ByteSizeLong M m < 65536"
  shows "rx_status (rx_receive handle (SendPacket M m code) (rx_init w))
    = Crashed (StdException ''length_error'')"
  by (rule oversized_packet [OF assms, of code]) (simp add: negative_length)

section \<open>Witnesses\<close>

text \<open>Messages that are their own encoding.\<close>

definition bytes_class :: "byte list msg_class" where
  "bytes_class = \<lparr>ByteSizeLong = length, SerializeToArray = (\<lambda>m n. if length m \<le> n then Some m else None),
     ParseFromArray = Some\<rparr>"

lemma bytes_class_codec: "message_codec bytes_class (\<lambda>_. True)"
  by unfold_locales (auto simp: bytes_class_def split: if_splits)

theorem stream_roundtrip_witness:
  "map (\<lambda>(h, body). (Code h, map_option fst (Parse bytes_class body (length body) 4)))
     (rx_world (fold (rx_receive log_handle) [[2], [0, 7, 0, 65], [66, 0, 0, 8, 0]] (rx_init [])))
   = [(7, Some [65, 66]), (8, Some [])]"
proof -
  have small: "True \<and> ByteSizeLong bytes_class m \<le> SHRT_MAX"
    if "(code, m) \<in> set [(7 :: int16, [65, 66 :: byte]), (8, [])]" for code m
    using that by (auto simp: bytes_class_def SHRT_MAX_def)
  have eq: "concat [[2], [0, 7, 0, 65], [66, 0, 0, 8, 0 :: byte]]
      = concat (map (\<lambda>(code, m). SendPacket bytes_class m code) [(7 :: int16, [65, 66 :: byte]), (8, [])])"
    by code_simp
  show ?thesis using stream_roundtrip [OF bytes_class_codec small eq] by simp
qed

lemma negative_length_crashes_witness:
  "rx_status (rx_receive log_handle [255, 255, 0, 0] (rx_init [])) = Crashed (StdException ''length_error'')"
proof -
  have "header_bytes \<lparr>Length = -1, Code = 0\<rparr> @ [] = [255, 255, 0, 0]"
    by code_simp
  with negative_length_crashes [of "-1" log_handle 0 "[]" "[]"] show ?thesis by simp
qed

lemma oversized_packet_crashes_witness:
  "rx_status (rx_receive log_handle (SendPacket bytes_class (replicate 40000 7) 1) (rx_init []))
    = Crashed (StdException ''length_error'')"
  by (rule oversized_packet_crashes [OF bytes_class_codec]) (simp_all add: bytes_class_def SHRT_MAX_def)

end
