(* ===== verification/SessionSend.thy ===== *)
theory SessionSend
  imports J1_Prelude "HOL-Library.Sublist"
begin

text \<open>
  The sending half of \<^verbatim>\<open>ServerCore/Session.cpp\<close>: the send queue, the one outstanding
  \<open>async_write\<close>, \<open>Close\<close> and the overflow rule.  Everything runs on the session's strand, so
  an operation is one atomic step.

  An outstanding write is a buffer and whether the socket was still open when the write was
  issued: a write issued before \<open>Close\<close> may complete either way (its success may already be
  queued on the strand when the socket closes), a write issued on a closed socket can only
  fail.  \<open>tx_wire\<close> and \<open>tx_accepted\<close> are ghosts: the buffers fully written and the buffers
  taken into the queue, in order.  \<open>tx_ub\<close> records \<open>pop_front\<close> on an empty deque, which is
  undefined behaviour in C++.
\<close>

section \<open>State and operations\<close>

type_synonym buffer = "byte list"

record session_tx =
  tx_sendQueue :: "buffer list"
  tx_writing :: bool
  tx_closed :: bool
  tx_outstanding :: "(buffer \<times> bool) list"
  tx_wire :: "buffer list"
  tx_accepted :: "buffer list"
  tx_overflowed :: bool
  tx_ub :: bool

definition tx_init :: session_tx where
  "tx_init = \<lparr>tx_sendQueue = [], tx_writing = False, tx_closed = False, tx_outstanding = [],
     tx_wire = [], tx_accepted = [], tx_overflowed = False, tx_ub = False\<rparr>"

definition MaxSendQueue :: nat where
  "MaxSendQueue = 4096"

text \<open>\<open>Close\<close> exchanges the flag: the first call returns \<open>True\<close>, every later one \<open>False\<close>.\<close>

definition Session_Close :: "session_tx \<Rightarrow> bool \<times> session_tx" where
  "Session_Close s = (if tx_closed s then (False, s) else (True, s\<lparr>tx_closed := True\<rparr>))"

text \<open>\<open>DoWrite\<close> is called with a non-empty queue only.\<close>

definition DoWrite :: "session_tx \<Rightarrow> session_tx" where
  "DoWrite s = s\<lparr>tx_writing := True,
     tx_outstanding := tx_outstanding s @ [(hd (tx_sendQueue s), \<not> tx_closed s)]\<rparr>"

definition EnqueueSend :: "buffer \<Rightarrow> session_tx \<Rightarrow> session_tx" where
  "EnqueueSend data s =
     (if length (tx_sendQueue s) \<ge> MaxSendQueue then
        snd (Session_Close (s\<lparr>tx_sendQueue := [], tx_writing := False, tx_overflowed := True\<rparr>))
      else
        let s1 = s\<lparr>tx_sendQueue := tx_sendQueue s @ [data], tx_accepted := tx_accepted s @ [data]\<rparr>
        in if \<not> tx_writing s1 then DoWrite s1 else s1)"

text \<open>\<open>SendShared\<close> drops a null or empty buffer; \<open>Send\<close> copies the buffer and always queues it.\<close>

definition SendShared :: "buffer option \<Rightarrow> session_tx \<Rightarrow> session_tx" where
  "SendShared buf s = (case buf of None \<Rightarrow> s | Some b \<Rightarrow> if b = [] then s else EnqueueSend b s)"

definition Send :: "buffer \<Rightarrow> session_tx \<Rightarrow> session_tx" where
  "Send buf s = EnqueueSend buf s"

text \<open>\<open>OnWrite\<close> runs when the oldest outstanding write completes.\<close>

definition OnWrite :: "bool \<Rightarrow> session_tx \<Rightarrow> session_tx" where
  "OnWrite err s =
     (if err then
        snd (Session_Close (s\<lparr>tx_sendQueue := [], tx_writing := False\<rparr>))
      else
        let s1 = (if tx_sendQueue s = [] then s\<lparr>tx_ub := True\<rparr>
                  else s\<lparr>tx_sendQueue := tl (tx_sendQueue s)\<rparr>)
        in if tx_sendQueue s1 = [] then s1\<lparr>tx_writing := False\<rparr> else DoWrite s1)"

section \<open>Steps\<close>

inductive tx_step :: "session_tx \<Rightarrow> session_tx \<Rightarrow> bool" where
  enqueue: "tx_step s (Send data s)"
| enqueue_shared: "tx_step s (SendShared buf s)"
| close: "tx_step s (snd (Session_Close s))"
| write_ok: "tx_outstanding s = (b, True) # ws \<Longrightarrow>
     tx_step s (OnWrite False (s\<lparr>tx_outstanding := ws, tx_wire := tx_wire s @ [b]\<rparr>))"
| write_fail: "tx_outstanding s = (b, op) # ws \<Longrightarrow>
     tx_step s (OnWrite True (s\<lparr>tx_outstanding := ws\<rparr>))"

inductive tx_reachable :: "session_tx \<Rightarrow> bool" where
  start: "tx_reachable tx_init"
| step: "tx_reachable s \<Longrightarrow> tx_step s t \<Longrightarrow> tx_reachable t"

inductive_cases tx_stepE: "tx_step s t"

lemmas tx_defs = Send_def SendShared_def EnqueueSend_def OnWrite_def DoWrite_def
  Session_Close_def Let_def

section \<open>Invariants\<close>

definition tx_bounded :: "session_tx \<Rightarrow> bool" where
  "tx_bounded s \<longleftrightarrow> length (tx_sendQueue s) \<le> MaxSendQueue"

text \<open>
  The order invariant: at most one write is outstanding and it is the head of the queue, no
  undefined behaviour has occurred, and what has been written is a prefix of what was
  accepted.  As long as a write that can still succeed is outstanding, nothing has been lost.
\<close>

definition tx_ordered :: "session_tx \<Rightarrow> bool" where
  "tx_ordered s \<longleftrightarrow> \<not> tx_ub s \<and> tx_writing s = (tx_sendQueue s \<noteq> [])
     \<and> map fst (tx_outstanding s) = take 1 (tx_sendQueue s)
     \<and> prefix (tx_wire s) (tx_accepted s)
     \<and> (tx_accepted s = tx_wire s @ tx_sendQueue s
        \<or> tx_closed s \<and> (\<forall>p \<in> set (tx_outstanding s). \<not> snd p))"

lemma tx_step_bounded: "tx_step s t \<Longrightarrow> tx_bounded s \<Longrightarrow> tx_bounded t"
  by (erule tx_stepE) (auto simp: tx_defs tx_bounded_def split: option.splits)

lemma tx_reachable_bounded: "tx_reachable s \<Longrightarrow> tx_bounded s"
  by (induction rule: tx_reachable.induct)
    (auto simp: tx_init_def tx_bounded_def intro: tx_step_bounded [unfolded tx_bounded_def])

lemma tx_step_overflowed: "tx_step s t \<Longrightarrow> tx_overflowed s \<Longrightarrow> tx_overflowed t"
  by (erule tx_stepE) (auto simp: tx_defs split: option.splits)

lemma EnqueueSend_ordered:
  assumes "tx_ordered s" and "\<not> tx_overflowed (EnqueueSend d s)"
  shows "tx_ordered (EnqueueSend d s)"
  using assms
  by (cases "tx_sendQueue s") (auto simp: tx_ordered_def tx_defs split: if_splits)

lemma Session_Close_ordered: "tx_ordered s \<Longrightarrow> tx_ordered (snd (Session_Close s))"
  by (auto simp: tx_ordered_def Session_Close_def)

lemma OnWrite_ok_ordered:
  assumes "tx_ordered s" and "tx_outstanding s = (b, True) # ws"
  shows "tx_ordered (OnWrite False (s\<lparr>tx_outstanding := ws, tx_wire := tx_wire s @ [b]\<rparr>))"
  using assms
  by (cases "tx_sendQueue s"; cases "tl (tx_sendQueue s)") (auto simp: tx_ordered_def tx_defs)

lemma OnWrite_fail_ordered:
  assumes "tx_ordered s" and "tx_outstanding s = (b, op) # ws"
  shows "tx_ordered (OnWrite True (s\<lparr>tx_outstanding := ws\<rparr>))"
  using assms by (cases "tx_sendQueue s") (auto simp: tx_ordered_def tx_defs)

lemma tx_step_ordered:
  assumes "tx_step s t" and "tx_ordered s" and "\<not> tx_overflowed t"
  shows "tx_ordered t"
  using assms
  by (auto elim!: tx_stepE simp: Send_def SendShared_def EnqueueSend_ordered
      Session_Close_ordered OnWrite_ok_ordered OnWrite_fail_ordered split: option.splits if_splits)

lemma tx_reachable_ordered: "tx_reachable s \<Longrightarrow> \<not> tx_overflowed s \<Longrightarrow> tx_ordered s"
proof (induction rule: tx_reachable.induct)
  case start
  show ?case by (simp add: tx_ordered_def tx_init_def)
next
  case (step s t)
  then have "\<not> tx_overflowed s" using tx_step_overflowed by blast
  with step show ?case using tx_step_ordered by blast
qed

section \<open>Overflow\<close>





section \<open>The sending session\<close>

text \<open>
  C13: the send queue is bounded.  In every reachable state at most 4096 buffers are queued,
  whatever is sent and however slowly the client reads.
\<close>

theorem send_queue_bounded:
  assumes "tx_reachable s"
  shows "length (tx_sendQueue s) \<le> 4096"
  using tx_reachable_bounded [OF assms] by (simp add: tx_bounded_def MaxSendQueue_def)

text \<open>
  C14: one write at a time, in order.  As long as the queue has not overflowed, at most one
  \<open>async_write\<close> is outstanding, it is the head of the queue, and what has been written to the
  socket is a prefix of what was handed to \<open>Send\<close>, in that order; while the session is open,
  written plus queued is exactly what was handed over: nothing is lost, repeated or reordered.
\<close>

theorem send_in_order:
  assumes "tx_reachable s" and "\<not> tx_overflowed s"
  shows "map fst (tx_outstanding s) = take 1 (tx_sendQueue s) \<and> prefix (tx_wire s) (tx_accepted s)
    \<and> (tx_closed s \<or> tx_accepted s = tx_wire s @ tx_sendQueue s) \<and> \<not> tx_ub s"
  using tx_reachable_ordered [OF assms] by (auto simp: tx_ordered_def)


lemma two_sent: "tx_reachable (Send [2] (Send [1] tx_init))"
  by (rule tx_reachable.step [OF tx_reachable.step [OF tx_reachable.start tx_step.enqueue] tx_step.enqueue])

theorem send_queue_bounded_witness:
  "length (tx_sendQueue (Send [2] (Send [1] tx_init))) \<le> 4096"
  by (rule send_queue_bounded [OF two_sent])

theorem send_in_order_witness:
  "map fst (tx_outstanding (Send [2] (Send [1] tx_init))) = [[1]]
   \<and> tx_accepted (Send [2] (Send [1] tx_init)) = tx_wire (Send [2] (Send [1] tx_init)) @ [[1], [2]]"
proof -
  have "\<not> tx_overflowed (Send [2] (Send [1] tx_init))" "\<not> tx_closed (Send [2] (Send [1] tx_init))"
    "tx_sendQueue (Send [2] (Send [1] tx_init)) = [[1], [2]]"
    by (simp_all add: tx_defs tx_init_def MaxSendQueue_def)
  with send_in_order [OF two_sent] show ?thesis by simp
qed

end
