(* ===== verification/ProtoWire.thy ===== *)
theory ProtoWire
  imports Packet
begin

text \<open>
  The part of the protobuf runtime the generated codecs call.  The runtime is not in the repository:
  its primitives are a parameter \<open>wire_format\<close> (variable-length integers, tags, the UTF-8 check, the
  skipping of unknown fields), and the locale \<open>wire\<close> states what protobuf's encoding guide documents
  of them.  The reading loop every generated \<open>_InternalParse\<close> has is \<open>parse_fields\<close>.

  The interpretation at the end is the documented base-128 encoding.
\<close>

section \<open>Primitives\<close>

record wire_format =
  put_varint :: "uint64 \<Rightarrow> byte list"
  get_varint :: "byte list \<Rightarrow> (uint64 \<times> byte list) option"
  get_tag :: "byte list \<Rightarrow> (uint32 \<times> byte list) option"
  is_utf8 :: "string \<Rightarrow> bool"
  skip_unknown :: "uint32 \<Rightarrow> byte list \<Rightarrow> byte list option"

locale wire =
  fixes W :: wire_format
  assumes get_put: "get_varint W (put_varint W v @ rest) = Some (v, rest)"
    and get_tag_put: "get_tag W (put_varint W (ucast t) @ rest) = Some (t, rest)"
    and put_nonempty: "put_varint W v \<noteq> []"
    and put_small: "v < 128 \<Longrightarrow> length (put_varint W v) = 1"
    and put_max: "length (put_varint W v) \<le> 10"

section \<open>Bytes and strings\<close>

definition bytes_of :: "string \<Rightarrow> byte list" where
  "bytes_of s = map (\<lambda>c. word_of_nat (of_char c)) s"

definition string_of :: "byte list \<Rightarrow> string" where
  "string_of bs = map (\<lambda>b. char_of (unat b)) bs"

lemma string_of_bytes_of [simp]: "string_of (bytes_of s) = s"
proof -
  have "char_of (unat (word_of_nat (of_char c) :: byte)) = c" for c
  proof -
    have "(of_char c :: nat) < 256" by (rule nat_of_char_less_256)
    then show ?thesis by (simp add: unat_of_nat)
  qed
  then show ?thesis by (simp add: string_of_def bytes_of_def comp_def)
qed

lemma length_bytes_of [simp]: "length (bytes_of s) = length s"
  by (simp add: bytes_of_def)

section \<open>Writing a field (WireFormatLite, EpsCopyOutputStream)\<close>

definition field_tag :: "nat \<Rightarrow> nat \<Rightarrow> uint64" where
  "field_tag n wiretype = word_of_nat (8 * n + wiretype)"

definition WriteInt64 :: "wire_format \<Rightarrow> nat \<Rightarrow> int64 \<Rightarrow> byte list" where
  "WriteInt64 W n v = put_varint W (field_tag n 0) @ put_varint W v"

definition WriteInt32 :: "wire_format \<Rightarrow> nat \<Rightarrow> int32 \<Rightarrow> byte list" where
  "WriteInt32 W n v = put_varint W (field_tag n 0) @ put_varint W (scast v)"

definition WriteBool :: "wire_format \<Rightarrow> nat \<Rightarrow> bool \<Rightarrow> byte list" where
  "WriteBool W n b = put_varint W (field_tag n 0) @ put_varint W (if b then 1 else 0)"

definition WriteBytes :: "wire_format \<Rightarrow> nat \<Rightarrow> byte list \<Rightarrow> byte list" where
  "WriteBytes W n bs = put_varint W (field_tag n 2) @ put_varint W (word_of_nat (length bs)) @ bs"

definition Int64Size :: "wire_format \<Rightarrow> int64 \<Rightarrow> nat" where
  "Int64Size W v = length (put_varint W v)"

definition Int32Size :: "wire_format \<Rightarrow> int32 \<Rightarrow> nat" where
  "Int32Size W v = length (put_varint W (scast v))"

text \<open>\<open>StringSize\<close> and \<open>MessageSize\<close>, of the bytes' number.\<close>

definition LengthDelimitedSize :: "wire_format \<Rightarrow> nat \<Rightarrow> nat" where
  "LengthDelimitedSize W n = length (put_varint W (word_of_nat n)) + n"

section \<open>Reading\<close>

definition ReadBytes :: "wire_format \<Rightarrow> byte list \<Rightarrow> (byte list \<times> byte list) option" where
  "ReadBytes W bs =
     (case get_varint W bs of
        None \<Rightarrow> None
      | Some (n, rest) \<Rightarrow>
          if unat n \<le> length rest then Some (take (unat n) rest, drop (unat n) rest) else None)"

text \<open>What a field's \<open>case\<close> does with the message read so far and the bytes after the tag.\<close>

type_synonym 'm field_reader = "'m \<Rightarrow> byte list \<Rightarrow> ('m \<times> byte list) option"

definition read_int64 :: "wire_format \<Rightarrow> (int64 \<Rightarrow> 'm \<Rightarrow> 'm) \<Rightarrow> 'm field_reader" where
  "read_int64 W upd m bs = map_option (\<lambda>(v, rest). (upd v m, rest)) (get_varint W bs)"

definition read_int32 :: "wire_format \<Rightarrow> (int32 \<Rightarrow> 'm \<Rightarrow> 'm) \<Rightarrow> 'm field_reader" where
  "read_int32 W upd = read_int64 W (upd \<circ> ucast)"

definition read_bool :: "wire_format \<Rightarrow> (bool \<Rightarrow> 'm \<Rightarrow> 'm) \<Rightarrow> 'm field_reader" where
  "read_bool W upd = read_int64 W (\<lambda>v. upd (v \<noteq> 0))"

definition read_string :: "wire_format \<Rightarrow> (string \<Rightarrow> 'm \<Rightarrow> 'm) \<Rightarrow> 'm field_reader" where
  "read_string W upd m bs =
     (case ReadBytes W bs of
        None \<Rightarrow> None
      | Some (s, rest) \<Rightarrow> if is_utf8 W (string_of s) then Some (upd (string_of s) m, rest) else None)"

definition read_message :: "wire_format \<Rightarrow> (byte list \<Rightarrow> 'x option) \<Rightarrow> ('x \<Rightarrow> 'm \<Rightarrow> 'm) \<Rightarrow> 'm field_reader" where
  "read_message W parse upd m bs =
     (case ReadBytes W bs of
        None \<Rightarrow> None
      | Some (s, rest) \<Rightarrow> map_option (\<lambda>x. (upd x m, rest)) (parse s))"

text \<open>
  \<open>_InternalParse\<close>: the fields are read until the bytes are used up.  \<open>switch\<close> is the switch over
  the tag; a tag it does not know is skipped, and tag 0 or an end-group tag ends the parse before the
  end of the bytes, which makes it fail.  The do-while loop of a repeated field reads the same fields
  as this loop does.
\<close>

definition read_field :: "wire_format \<Rightarrow> (uint32 \<Rightarrow> 'm field_reader option) \<Rightarrow> uint32 \<Rightarrow> 'm field_reader" where
  "read_field W switch t m rest =
     (case switch t of
        Some read \<Rightarrow> read m rest
      | None \<Rightarrow> if t = 0 \<or> t mod 8 = 4 then None
                else map_option (\<lambda>rest'. (m, rest')) (skip_unknown W t rest))"

function parse_fields :: "wire_format \<Rightarrow> (uint32 \<Rightarrow> 'm field_reader option) \<Rightarrow> byte list \<Rightarrow> 'm \<Rightarrow> 'm option" where
  "parse_fields W switch bs m =
     (if bs = [] then Some m
      else (case get_tag W bs of
              None \<Rightarrow> None
            | Some (t, rest) \<Rightarrow>
                (case read_field W switch t m rest of
                   None \<Rightarrow> None
                 | Some (m', rest') \<Rightarrow>
                     if length rest' < length bs then parse_fields W switch rest' m' else None)))"
  by pat_completeness auto
termination by (relation "measure (\<lambda>(W, switch, bs, m). length bs)") auto

declare parse_fields.simps [simp del]

lemma parse_fields_Nil [simp]: "parse_fields W switch [] m = Some m"
  by (simp add: parse_fields.simps)

section \<open>Message classes\<close>

text \<open>\<open>MessageLite\<close>'s \<open>SerializeToArray\<close> and \<open>ParseFromArray\<close> over the generated functions.\<close>

definition message_class :: "('m \<Rightarrow> nat) \<Rightarrow> ('m \<Rightarrow> byte list) \<Rightarrow> (byte list \<Rightarrow> 'm option) \<Rightarrow> 'm msg_class" where
  "message_class sz ser parse =
     \<lparr>ByteSizeLong = sz,
      SerializeToArray = (\<lambda>m n. if INT_MAX < sz m \<or> n < sz m then None else Some (ser m)),
      ParseFromArray = parse\<rparr>"

lemma message_class_codec:
  assumes "\<And>m. length (ser m) = sz m"
    and "\<And>m. ok m \<Longrightarrow> sz m \<le> INT_MAX \<Longrightarrow> parse (ser m) = Some m"
  shows "message_codec (message_class sz ser parse) ok"
  by unfold_locales (use assms in \<open>auto simp: message_class_def split: if_splits\<close>)

lemma message_class_roundtrip:
  assumes "message_codec (message_class sz ser parse) ok" and "ok m" and "sz m \<le> INT_MAX"
  shows "parse (ser m) = Some m"
  using message_codec.ser_parse [OF assms(1), of m "sz m" "ser m"] assms(2,3) by (simp add: message_class_def)

section \<open>Reading back what was written\<close>

context wire
begin

lemma length_tag: "8 * n + k < 128 \<Longrightarrow> length (put_varint W (field_tag n k)) = 1"
  by (rule put_small)
    (simp add: field_tag_def word_less_nat_alt unat_of_nat take_bit_nat_eq_self del: of_nat_add of_nat_mult)

lemma get_field_tag:
  "8 * n + k < 128 \<Longrightarrow> get_tag W (put_varint W (field_tag n k) @ rest) = Some (word_of_nat (8 * n + k), rest)"
proof -
  assume "8 * n + k < 128"
  then have "field_tag n k = ucast (word_of_nat (8 * n + k) :: uint32)"
    by (simp add: field_tag_def unsigned_of_nat take_bit_nat_eq_self del: of_nat_add of_nat_mult)
  then show ?thesis by (simp add: get_tag_put)
qed

lemma scast_up_back: "ucast (scast (v :: int32) :: uint64) = v"
  by (rule bit_word_eqI) (simp add: bit_simps)

text \<open>One field at the front of the bytes.\<close>

lemma parse_field:
  assumes "8 * n + k < 128" and "switch (word_of_nat (8 * n + k)) = Some read"
    and "read m (payload @ rest) = Some (m', rest)"
  shows "parse_fields W switch (put_varint W (field_tag n k) @ payload @ rest) m = parse_fields W switch rest m'"
  using assms put_nonempty [of "field_tag n k"]
  by (simp add: parse_fields.simps [of W switch "put_varint W (field_tag n k) @ payload @ rest"]
      get_field_tag read_field_def length_tag)

lemma parse_int64:
  assumes "switch (word_of_nat (8 * n)) = Some (read_int64 W upd)" and "n < 16" and "upd 0 m = m"
  shows "parse_fields W switch ((if v \<noteq> 0 then WriteInt64 W n v else []) @ rest) m
    = parse_fields W switch rest (upd v m)"
  using parse_field [of n 0 switch "read_int64 W upd" m "put_varint W v" rest "upd v m"] assms
  by (simp add: WriteInt64_def read_int64_def get_put)

lemma parse_int32:
  assumes "switch (word_of_nat (8 * n)) = Some (read_int32 W upd)" and "n < 16" and "upd 0 m = m"
  shows "parse_fields W switch ((if v \<noteq> 0 then WriteInt32 W n v else []) @ rest) m
    = parse_fields W switch rest (upd v m)"
  using parse_field [of n 0 switch "read_int32 W upd" m "put_varint W (scast v)" rest "upd v m"] assms
  by (simp add: WriteInt32_def read_int32_def read_int64_def get_put scast_up_back)

lemma parse_bool:
  assumes "switch (word_of_nat (8 * n)) = Some (read_bool W upd)" and "n < 16" and "upd False m = m"
  shows "parse_fields W switch ((if v then WriteBool W n v else []) @ rest) m
    = parse_fields W switch rest (upd v m)"
  using parse_field [of n 0 switch "read_bool W upd" m "put_varint W 1" rest "upd v m"] assms
  by (simp add: WriteBool_def read_bool_def read_int64_def get_put)

lemma ReadBytes_written:
  "length bs < 2 ^ 64 \<Longrightarrow> ReadBytes W (put_varint W (word_of_nat (length bs)) @ bs @ rest) = Some (bs, rest)"
  by (simp add: ReadBytes_def get_put unat_of_nat)

lemma parse_string:
  assumes "switch (word_of_nat (8 * n + 2)) = Some (read_string W upd)" and "n < 15" and "upd [] m = m"
    and "is_utf8 W s" and "length s < 2 ^ 64"
  shows "parse_fields W switch ((if s \<noteq> [] then WriteBytes W n (bytes_of s) else []) @ rest) m
    = parse_fields W switch rest (upd s m)"
  using parse_field [of n 2 switch "read_string W upd" m
      "put_varint W (word_of_nat (length s)) @ bytes_of s" rest "upd s m"] assms
    ReadBytes_written [of "bytes_of s" rest]
  by (simp add: WriteBytes_def read_string_def)

lemma parse_message:
  assumes "switch (word_of_nat (8 * n + 2)) = Some (read_message W parse upd)" and "n < 15"
    and "parse bs = Some x" and "length bs < 2 ^ 64"
  shows "parse_fields W switch (WriteBytes W n bs @ rest) m = parse_fields W switch rest (upd x m)"
  using parse_field [of n 2 switch "read_message W parse upd" m
      "put_varint W (word_of_nat (length bs)) @ bs" rest "upd x m"] assms
    ReadBytes_written [of bs rest]
  by (simp add: WriteBytes_def read_message_def)

text \<open>A repeated message field.\<close>

lemma parse_repeated:
  assumes "switch (word_of_nat (8 * n + 2)) = Some (read_message W parse upd)" and "n < 15"
    and "\<And>x. x \<in> set xs \<Longrightarrow> parse (ser x) = Some x \<and> length (ser x) < 2 ^ 64"
  shows "parse_fields W switch (concat (map (\<lambda>x. WriteBytes W n (ser x)) xs) @ rest) m
    = parse_fields W switch rest (fold upd xs m)"
  using assms(3)
proof (induction xs arbitrary: m)
  case (Cons x xs)
  then show ?case using parse_message [where parse = parse and upd = upd and n = n and bs = "ser x" and x = x] assms(1,2) by simp
qed simp

text \<open>The last field.\<close>

lemmas parse_end =
  parse_int64 [where rest = "[]", unfolded append_Nil2 parse_fields_Nil]
  parse_bool [where rest = "[]", unfolded append_Nil2 parse_fields_Nil]
  parse_string [where rest = "[]", unfolded append_Nil2 parse_fields_Nil]
  parse_repeated [where rest = "[]", unfolded append_Nil2 parse_fields_Nil]

lemma length_Write:
  "n < 16 \<Longrightarrow> length (WriteInt64 W n v) = 1 + Int64Size W v"
  "n < 16 \<Longrightarrow> length (WriteInt32 W n w) = 1 + Int32Size W w"
  "n < 16 \<Longrightarrow> length (WriteBool W n b) = 1 + 1"
  "n < 15 \<Longrightarrow> length (WriteBytes W n bs) = 1 + LengthDelimitedSize W (length bs)"
  using length_tag [of n 0] length_tag [of n 2] put_small [of "if b then 1 else 0"]
  by (simp_all add: WriteInt64_def WriteInt32_def WriteBool_def WriteBytes_def Int64Size_def
      Int32Size_def LengthDelimitedSize_def)

end

section \<open>The documented encoding\<close>

text \<open>Base 128, least significant group first, the top bit set on every byte but the last.\<close>

fun varint_bytes :: "nat \<Rightarrow> byte list" where
  "varint_bytes n = (if n < 128 then [word_of_nat n]
     else word_of_nat (n mod 128 + 128) # varint_bytes (n div 128))"

declare varint_bytes.simps [simp del]

fun read_varint :: "nat \<Rightarrow> byte list \<Rightarrow> (nat \<times> byte list) option" where
  "read_varint 0 bs = None"
| "read_varint (Suc k) [] = None"
| "read_varint (Suc k) (b # bs) =
     (if unat b < 128 then Some (unat b, bs)
      else map_option (\<lambda>(n, rest). (unat b - 128 + 128 * n, rest)) (read_varint k bs))"

lemma read_varint_bytes: "n < 128 ^ Suc k \<Longrightarrow> read_varint (Suc k) (varint_bytes n @ rest) = Some (n, rest)"
proof (induction k arbitrary: n)
  case 0
  then show ?case by (simp add: varint_bytes.simps [of n] unat_of_nat)
next
  case (Suc k)
  show ?case
  proof (cases "n < 128")
    case False
    have "n div 128 < 128 ^ Suc k" using Suc.prems by (simp add: less_mult_imp_div_less)
    moreover have "unat (word_of_nat (n mod 128 + 128) :: byte) = n mod 128 + 128"
      by (simp add: unat_of_nat take_bit_nat_eq_self del: of_nat_add)
    ultimately show ?thesis using Suc.IH [of "n div 128"] False
      by (simp add: varint_bytes.simps [of n] del: of_nat_add)
  qed (simp add: varint_bytes.simps [of n] unat_of_nat)
qed

lemma length_varint_bytes: "n < 128 ^ Suc k \<Longrightarrow> length (varint_bytes n) \<le> Suc k"
proof (induction k arbitrary: n)
  case (Suc k)
  have "n div 128 < 128 ^ Suc k" using Suc.prems by (simp add: less_mult_imp_div_less)
  with Suc.IH show ?case by (simp add: varint_bytes.simps [of n])
qed (simp add: varint_bytes.simps)

definition base128 :: wire_format where
  "base128 =
     \<lparr>put_varint = (\<lambda>v. varint_bytes (unat v)),
      get_varint = (\<lambda>bs. map_option (\<lambda>(n, rest). (word_of_nat n, rest)) (read_varint 10 bs)),
      get_tag = (\<lambda>bs. map_option (\<lambda>(n, rest). (word_of_nat n, rest)) (read_varint 5 bs)),
      is_utf8 = list_all (\<lambda>c. (of_char c :: nat) < 128),
      skip_unknown = (\<lambda>t rest. None)\<rparr>"

interpretation base128: wire base128
proof
  have u64: "unat v < 128 ^ Suc 9" for v :: uint64
    using unsigned_less [of v, where 'a = nat] by simp
  have u32: "unat t < 128 ^ Suc 4" for t :: uint32
    using unsigned_less [of t, where 'a = nat] by simp
  show "get_varint base128 (put_varint base128 v @ rest) = Some (v, rest)" for v rest
    using read_varint_bytes [OF u64, of v rest] by (simp add: base128_def)
  show "get_tag base128 (put_varint base128 (ucast t) @ rest) = Some (t, rest)" for t rest
  proof -
    have "unat (ucast t :: uint64) = unat t"
      using unsigned_less [of t, where 'a = nat] by (simp add: unsigned_ucast_eq take_bit_nat_eq_self)
    then show ?thesis using read_varint_bytes [OF u32, of t rest] by (simp add: base128_def)
  qed
  show "put_varint base128 v \<noteq> []" for v
    by (simp add: base128_def varint_bytes.simps [of "unat v"])
  show "length (put_varint base128 v) = 1" if "v < 128" for v
    using that by (simp add: base128_def varint_bytes.simps [of "unat v"] word_less_nat_alt)
  show "length (put_varint base128 v) \<le> 10" for v
    using length_varint_bytes [OF u64, of v] by (simp add: base128_def)
qed

end
