(* ===== verification/Messages.thy ===== *)
theory Messages
  imports J1_Prelude
begin

text \<open>
  The protobuf messages the handlers exchange, as records of their fields (the private
  members of the generated classes under \<^verbatim>\<open>Network/Protocol\<close>), at the width the
  \<^verbatim>\<open>.proto\<close> files give them: \<open>int64\<close> and \<open>uint64\<close> are 64-bit words, \<open>int32\<close> is a 32-bit
  word, a repeated field is a list, a string a list of bytes.  \<open>SS_Auction\<close> is the protocol
  between the game server and the auction server, \<open>Game\<close>, \<open>Chat\<close> and \<open>Login\<close> are the client
  protocols.  Responses that hold only a \<open>result\<close> flag are constructors of the packet types.
\<close>

section \<open>GameStruct: AuctionItemInfo and LobbyCharacterInfo\<close>

record AuctionItemInfo =
  ai_list_id :: int64
  ai_player_id :: int64
  ai_receipt_type :: int64
  ai_item_id :: int64
  ai_count :: int64
  ai_price :: int64
  ai_expired_at :: string

definition AuctionItemInfo_default :: AuctionItemInfo where
  "AuctionItemInfo_default = \<lparr>ai_list_id = 0, ai_player_id = 0, ai_receipt_type = 0,
     ai_item_id = 0, ai_count = 0, ai_price = 0, ai_expired_at = []\<rparr>"

record LobbyCharacterInfo =
  lc_name :: string
  lc_character_id :: uint64
  lc_slot_id :: uint64
  lc_classtype :: uint64
  lc_level :: uint64
  lc_upperskinid :: uint64
  lc_lowerskinid :: uint64
  lc_weaponskinid :: uint64
  lc_gold :: uint64

section \<open>SS_Auction: game server to auction server and back\<close>

record SS_REQ_AUCTION_LIST =
  sral_session_id :: int64
  sral_request_id :: int32
  sral_player_id :: int32
  sral_search_item :: string
  sral_mylist :: bool

record SS_RES_AUCTION_LIST =
  ssal_session_id :: int64
  ssal_request_id :: int32
  ssal_mylist :: bool
  ssal_listinfo :: "AuctionItemInfo list"

record SS_REQ_RECEIPT_LIST =
  srrl_session_id :: int64
  srrl_player_id :: uint64

record SS_RES_RECEIPT_LIST =
  ssrl_session_id :: int64
  ssrl_receiptlist :: "AuctionItemInfo list"

record SS_REQ_REGIST_ITEM =
  srri_session_id :: int64
  srri_registinfo :: "AuctionItemInfo list"

record SS_RES_REGIST_ITEM =
  ssri_session_id :: int64
  ssri_result :: bool

record SS_REQ_PURCHASE_ITEM =
  srpi_session_id :: int64
  srpi_purchaseinfo :: "AuctionItemInfo list"

record SS_RES_PURCHASE_ITEM =
  sspi_session_id :: int64
  sspi_result :: bool
  sspi_gold :: int64

record SS_REQ_RECEIPT_ITEM =
  srrc_session_id :: int64
  srrc_player_id :: uint64
  srrc_receipt_id :: int64

record SS_RES_RECEIPT_ITEM =
  ssrc_session_id :: int64
  ssrc_receipt_id :: int64
  ssrc_gold :: int64
  ssrc_result :: bool

datatype ss_packet =
    PKT_SS_REQ_AUCTION_LIST SS_REQ_AUCTION_LIST
  | PKT_SS_RES_AUCTION_LIST SS_RES_AUCTION_LIST
  | PKT_SS_REQ_RECEIPT_LIST SS_REQ_RECEIPT_LIST
  | PKT_SS_RES_RECEIPT_LIST SS_RES_RECEIPT_LIST
  | PKT_SS_REQ_REGIST_ITEM SS_REQ_REGIST_ITEM
  | PKT_SS_RES_REGIST_ITEM SS_RES_REGIST_ITEM
  | PKT_SS_REQ_PURCHASE_ITEM SS_REQ_PURCHASE_ITEM
  | PKT_SS_RES_PURCHASE_ITEM SS_RES_PURCHASE_ITEM
  | PKT_SS_REQ_RECEIPT_ITEM SS_REQ_RECEIPT_ITEM
  | PKT_SS_RES_RECEIPT_ITEM SS_RES_RECEIPT_ITEM

section \<open>Game: client to game server and back\<close>

record Game_REQ_AUCTION_LIST =
  gral_player_id :: uint64
  gral_search_item :: string
  gral_mylist :: bool

record Game_REQ_RECEIPT_ITEM =
  grri_player_id :: uint64
  grri_receipt_id :: int64

record Game_REQ_CREATE_CHARACTER =
  grcc_account_id :: uint64
  grcc_characters :: "LobbyCharacterInfo list"

datatype game_packet =
    PKT_RES_AUCTION_LIST bool "AuctionItemInfo list"
  | PKT_RES_RECEIPT_LIST "AuctionItemInfo list"
  | PKT_RES_REGIST_ITEM bool
  | PKT_RES_PURCHASE_ITEM bool int64
  | PKT_RES_CHECK_TOKENVALID bool
  | PKT_RES_CHARACTER_LIST bool "LobbyCharacterInfo list"
  | PKT_RES_CHECK_NICKNAME bool
  | PKT_RES_CREATE_CHARACTER bool
  | PKT_RES_DELETE_CHARACTER bool
  | PKT_RES_ENTER_GAME bool
  | PKT_RES_LEAVE_GAME bool

section \<open>Chat and Login\<close>

record REQ_CHAT =
  rc_time :: string
  rc_sender :: string
  rc_message :: string

datatype chat_packet =
    PKT_RES_ENTER_CHATROOM bool
  | PKT_RES_LEAVE_CHATROOM bool
  | PKT_RES_CHAT REQ_CHAT

datatype login_packet =
    PKT_RES_LOGIN int32 string
  | PKT_RES_CHECK_ID bool
  | PKT_RES_JOIN bool

end
