(* ===== verification/Codec.thy ===== *)
theory Codec
  imports ProtoWire Messages
begin

text \<open>
  The generated codecs of the messages a purchase, the client's list and a login travel in
  (\<open>_InternalSerialize\<close>, \<open>ByteSizeLong\<close> and \<open>_InternalParse\<close> of the \<^verbatim>\<open>.pb.cc\<close> files), over the runtime
  primitives \<open>W\<close>, and the proof that each of them is a \<open>message_codec\<close>.

  The set of unknown fields a parsed message keeps is left out: a message read by the same version of
  the protocol has none.
\<close>

section \<open>GameStruct.pb.cc: AuctionItemInfo\<close>

definition AuctionItemInfo_InternalSerialize :: "wire_format \<Rightarrow> AuctionItemInfo \<Rightarrow> byte list" where
  "AuctionItemInfo_InternalSerialize W m =
     (if ai_list_id m \<noteq> 0 then WriteInt64 W 1 (ai_list_id m) else [])
     @ (if ai_player_id m \<noteq> 0 then WriteInt64 W 2 (ai_player_id m) else [])
     @ (if ai_receipt_type m \<noteq> 0 then WriteInt64 W 3 (ai_receipt_type m) else [])
     @ (if ai_item_id m \<noteq> 0 then WriteInt64 W 4 (ai_item_id m) else [])
     @ (if ai_count m \<noteq> 0 then WriteInt64 W 5 (ai_count m) else [])
     @ (if ai_price m \<noteq> 0 then WriteInt64 W 6 (ai_price m) else [])
     @ (if ai_expired_at m \<noteq> [] then WriteBytes W 7 (bytes_of (ai_expired_at m)) else [])"

definition AuctionItemInfo_ByteSizeLong :: "wire_format \<Rightarrow> AuctionItemInfo \<Rightarrow> nat" where
  "AuctionItemInfo_ByteSizeLong W m =
     (if ai_expired_at m \<noteq> [] then 1 + LengthDelimitedSize W (length (ai_expired_at m)) else 0)
     + (if ai_list_id m \<noteq> 0 then 1 + Int64Size W (ai_list_id m) else 0)
     + (if ai_player_id m \<noteq> 0 then 1 + Int64Size W (ai_player_id m) else 0)
     + (if ai_receipt_type m \<noteq> 0 then 1 + Int64Size W (ai_receipt_type m) else 0)
     + (if ai_item_id m \<noteq> 0 then 1 + Int64Size W (ai_item_id m) else 0)
     + (if ai_count m \<noteq> 0 then 1 + Int64Size W (ai_count m) else 0)
     + (if ai_price m \<noteq> 0 then 1 + Int64Size W (ai_price m) else 0)"

definition AuctionItemInfo_fields :: "wire_format \<Rightarrow> uint32 \<Rightarrow> AuctionItemInfo field_reader option" where
  "AuctionItemInfo_fields W t =
     (if t = 8 then Some (read_int64 W (\<lambda>v. ai_list_id_update (\<lambda>_. v)))
      else if t = 16 then Some (read_int64 W (\<lambda>v. ai_player_id_update (\<lambda>_. v)))
      else if t = 24 then Some (read_int64 W (\<lambda>v. ai_receipt_type_update (\<lambda>_. v)))
      else if t = 32 then Some (read_int64 W (\<lambda>v. ai_item_id_update (\<lambda>_. v)))
      else if t = 40 then Some (read_int64 W (\<lambda>v. ai_count_update (\<lambda>_. v)))
      else if t = 48 then Some (read_int64 W (\<lambda>v. ai_price_update (\<lambda>_. v)))
      else if t = 58 then Some (read_string W (\<lambda>v. ai_expired_at_update (\<lambda>_. v)))
      else None)"

definition AuctionItemInfo_InternalParse :: "wire_format \<Rightarrow> byte list \<Rightarrow> AuctionItemInfo option" where
  "AuctionItemInfo_InternalParse W bs = parse_fields W (AuctionItemInfo_fields W) bs AuctionItemInfo_default"

section \<open>AuctionProtocol.pb.cc: Game::RES_AUCTION_LIST, Game::REQ_PURCHASE_ITEM\<close>

definition write_items :: "wire_format \<Rightarrow> nat \<Rightarrow> AuctionItemInfo list \<Rightarrow> byte list" where
  "write_items W n items = concat (map (\<lambda>x. WriteBytes W n (AuctionItemInfo_InternalSerialize W x)) items)"

definition size_items :: "wire_format \<Rightarrow> AuctionItemInfo list \<Rightarrow> nat" where
  "size_items W items = 1 * length items
     + sum_list (map (\<lambda>x. LengthDelimitedSize W (AuctionItemInfo_ByteSizeLong W x)) items)"

definition RES_AUCTION_LIST_InternalSerialize :: "wire_format \<Rightarrow> bool \<times> AuctionItemInfo list \<Rightarrow> byte list" where
  "RES_AUCTION_LIST_InternalSerialize W = (\<lambda>(mylist, items).
     write_items W 1 items @ (if mylist then WriteBool W 2 mylist else []))"

definition RES_AUCTION_LIST_ByteSizeLong :: "wire_format \<Rightarrow> bool \<times> AuctionItemInfo list \<Rightarrow> nat" where
  "RES_AUCTION_LIST_ByteSizeLong W = (\<lambda>(mylist, items). size_items W items + (if mylist then 1 + 1 else 0))"

definition RES_AUCTION_LIST_fields ::
  "wire_format \<Rightarrow> uint32 \<Rightarrow> (bool \<times> AuctionItemInfo list) field_reader option" where
  "RES_AUCTION_LIST_fields W t =
     (if t = 10 then Some (read_message W (AuctionItemInfo_InternalParse W) (\<lambda>x (b, xs). (b, xs @ [x])))
      else if t = 16 then Some (read_bool W (\<lambda>v (b, xs). (v, xs)))
      else None)"

definition RES_AUCTION_LIST_InternalParse :: "wire_format \<Rightarrow> byte list \<Rightarrow> (bool \<times> AuctionItemInfo list) option" where
  "RES_AUCTION_LIST_InternalParse W bs = parse_fields W (RES_AUCTION_LIST_fields W) bs (False, [])"

definition Game_REQ_PURCHASE_ITEM_InternalSerialize :: "wire_format \<Rightarrow> AuctionItemInfo list \<Rightarrow> byte list" where
  "Game_REQ_PURCHASE_ITEM_InternalSerialize W items = write_items W 1 items"

definition Game_REQ_PURCHASE_ITEM_ByteSizeLong :: "wire_format \<Rightarrow> AuctionItemInfo list \<Rightarrow> nat" where
  "Game_REQ_PURCHASE_ITEM_ByteSizeLong W items = size_items W items"

definition Game_REQ_PURCHASE_ITEM_fields :: "wire_format \<Rightarrow> uint32 \<Rightarrow> AuctionItemInfo list field_reader option" where
  "Game_REQ_PURCHASE_ITEM_fields W t =
     (if t = 10 then Some (read_message W (AuctionItemInfo_InternalParse W) (\<lambda>x xs. xs @ [x])) else None)"

definition Game_REQ_PURCHASE_ITEM_InternalParse :: "wire_format \<Rightarrow> byte list \<Rightarrow> AuctionItemInfo list option" where
  "Game_REQ_PURCHASE_ITEM_InternalParse W bs = parse_fields W (Game_REQ_PURCHASE_ITEM_fields W) bs []"

section \<open>SS_AuctionProtocol.pb.cc: REQ_PURCHASE_ITEM, RES_PURCHASE_ITEM\<close>

definition REQ_PURCHASE_ITEM_InternalSerialize :: "wire_format \<Rightarrow> SS_REQ_PURCHASE_ITEM \<Rightarrow> byte list" where
  "REQ_PURCHASE_ITEM_InternalSerialize W m =
     (if srpi_session_id m \<noteq> 0 then WriteInt64 W 1 (srpi_session_id m) else [])
     @ write_items W 2 (srpi_purchaseinfo m)"

definition REQ_PURCHASE_ITEM_ByteSizeLong :: "wire_format \<Rightarrow> SS_REQ_PURCHASE_ITEM \<Rightarrow> nat" where
  "REQ_PURCHASE_ITEM_ByteSizeLong W m = size_items W (srpi_purchaseinfo m)
     + (if srpi_session_id m \<noteq> 0 then 1 + Int64Size W (srpi_session_id m) else 0)"

definition REQ_PURCHASE_ITEM_fields :: "wire_format \<Rightarrow> uint32 \<Rightarrow> SS_REQ_PURCHASE_ITEM field_reader option" where
  "REQ_PURCHASE_ITEM_fields W t =
     (if t = 8 then Some (read_int64 W (\<lambda>v. srpi_session_id_update (\<lambda>_. v)))
      else if t = 18 then Some (read_message W (AuctionItemInfo_InternalParse W)
             (\<lambda>x. srpi_purchaseinfo_update (\<lambda>xs. xs @ [x])))
      else None)"

definition REQ_PURCHASE_ITEM_InternalParse :: "wire_format \<Rightarrow> byte list \<Rightarrow> SS_REQ_PURCHASE_ITEM option" where
  "REQ_PURCHASE_ITEM_InternalParse W bs =
     parse_fields W (REQ_PURCHASE_ITEM_fields W) bs \<lparr>srpi_session_id = 0, srpi_purchaseinfo = []\<rparr>"

definition RES_PURCHASE_ITEM_InternalSerialize :: "wire_format \<Rightarrow> SS_RES_PURCHASE_ITEM \<Rightarrow> byte list" where
  "RES_PURCHASE_ITEM_InternalSerialize W m =
     (if sspi_session_id m \<noteq> 0 then WriteInt64 W 1 (sspi_session_id m) else [])
     @ (if sspi_result m then WriteBool W 2 (sspi_result m) else [])
     @ (if sspi_gold m \<noteq> 0 then WriteInt64 W 3 (sspi_gold m) else [])"

definition RES_PURCHASE_ITEM_ByteSizeLong :: "wire_format \<Rightarrow> SS_RES_PURCHASE_ITEM \<Rightarrow> nat" where
  "RES_PURCHASE_ITEM_ByteSizeLong W m =
     (if sspi_session_id m \<noteq> 0 then 1 + Int64Size W (sspi_session_id m) else 0)
     + (if sspi_gold m \<noteq> 0 then 1 + Int64Size W (sspi_gold m) else 0)
     + (if sspi_result m then 1 + 1 else 0)"

definition RES_PURCHASE_ITEM_fields :: "wire_format \<Rightarrow> uint32 \<Rightarrow> SS_RES_PURCHASE_ITEM field_reader option" where
  "RES_PURCHASE_ITEM_fields W t =
     (if t = 8 then Some (read_int64 W (\<lambda>v. sspi_session_id_update (\<lambda>_. v)))
      else if t = 16 then Some (read_bool W (\<lambda>v. sspi_result_update (\<lambda>_. v)))
      else if t = 24 then Some (read_int64 W (\<lambda>v. sspi_gold_update (\<lambda>_. v)))
      else None)"

definition RES_PURCHASE_ITEM_InternalParse :: "wire_format \<Rightarrow> byte list \<Rightarrow> SS_RES_PURCHASE_ITEM option" where
  "RES_PURCHASE_ITEM_InternalParse W bs = parse_fields W (RES_PURCHASE_ITEM_fields W) bs
     \<lparr>sspi_session_id = 0, sspi_result = False, sspi_gold = 0\<rparr>"

section \<open>LoginProtocol.pb.cc: REQ_LOGIN, RES_LOGIN\<close>

definition REQ_LOGIN_InternalSerialize :: "wire_format \<Rightarrow> string \<times> string \<Rightarrow> byte list" where
  "REQ_LOGIN_InternalSerialize W = (\<lambda>(uid, pw).
     (if uid \<noteq> [] then WriteBytes W 1 (bytes_of uid) else [])
     @ (if pw \<noteq> [] then WriteBytes W 2 (bytes_of pw) else []))"

definition REQ_LOGIN_ByteSizeLong :: "wire_format \<Rightarrow> string \<times> string \<Rightarrow> nat" where
  "REQ_LOGIN_ByteSizeLong W = (\<lambda>(uid, pw).
     (if uid \<noteq> [] then 1 + LengthDelimitedSize W (length uid) else 0)
     + (if pw \<noteq> [] then 1 + LengthDelimitedSize W (length pw) else 0))"

definition REQ_LOGIN_fields :: "wire_format \<Rightarrow> uint32 \<Rightarrow> (string \<times> string) field_reader option" where
  "REQ_LOGIN_fields W t =
     (if t = 10 then Some (read_string W (\<lambda>v (uid, pw). (v, pw)))
      else if t = 18 then Some (read_string W (\<lambda>v (uid, pw). (uid, v)))
      else None)"

definition REQ_LOGIN_InternalParse :: "wire_format \<Rightarrow> byte list \<Rightarrow> (string \<times> string) option" where
  "REQ_LOGIN_InternalParse W bs = parse_fields W (REQ_LOGIN_fields W) bs ([], [])"

definition RES_LOGIN_InternalSerialize :: "wire_format \<Rightarrow> int32 \<times> string \<Rightarrow> byte list" where
  "RES_LOGIN_InternalSerialize W = (\<lambda>(player_id, token).
     (if player_id \<noteq> 0 then WriteInt32 W 1 player_id else [])
     @ (if token \<noteq> [] then WriteBytes W 2 (bytes_of token) else []))"

definition RES_LOGIN_ByteSizeLong :: "wire_format \<Rightarrow> int32 \<times> string \<Rightarrow> nat" where
  "RES_LOGIN_ByteSizeLong W = (\<lambda>(player_id, token).
     (if token \<noteq> [] then 1 + LengthDelimitedSize W (length token) else 0)
     + (if player_id \<noteq> 0 then 1 + Int32Size W player_id else 0))"

definition RES_LOGIN_fields :: "wire_format \<Rightarrow> uint32 \<Rightarrow> (int32 \<times> string) field_reader option" where
  "RES_LOGIN_fields W t =
     (if t = 8 then Some (read_int32 W (\<lambda>v (player_id, token). (v, token)))
      else if t = 18 then Some (read_string W (\<lambda>v (player_id, token). (player_id, v)))
      else None)"

definition RES_LOGIN_InternalParse :: "wire_format \<Rightarrow> byte list \<Rightarrow> (int32 \<times> string) option" where
  "RES_LOGIN_InternalParse W bs = parse_fields W (RES_LOGIN_fields W) bs (0, [])"

section \<open>The message classes\<close>

definition RES_AUCTION_LIST_class :: "wire_format \<Rightarrow> (bool \<times> AuctionItemInfo list) msg_class" where
  "RES_AUCTION_LIST_class W = message_class (RES_AUCTION_LIST_ByteSizeLong W)
     (RES_AUCTION_LIST_InternalSerialize W) (RES_AUCTION_LIST_InternalParse W)"

definition Game_REQ_PURCHASE_ITEM_class :: "wire_format \<Rightarrow> AuctionItemInfo list msg_class" where
  "Game_REQ_PURCHASE_ITEM_class W = message_class (Game_REQ_PURCHASE_ITEM_ByteSizeLong W)
     (Game_REQ_PURCHASE_ITEM_InternalSerialize W) (Game_REQ_PURCHASE_ITEM_InternalParse W)"

definition REQ_PURCHASE_ITEM_class :: "wire_format \<Rightarrow> SS_REQ_PURCHASE_ITEM msg_class" where
  "REQ_PURCHASE_ITEM_class W = message_class (REQ_PURCHASE_ITEM_ByteSizeLong W)
     (REQ_PURCHASE_ITEM_InternalSerialize W) (REQ_PURCHASE_ITEM_InternalParse W)"

definition RES_PURCHASE_ITEM_class :: "wire_format \<Rightarrow> SS_RES_PURCHASE_ITEM msg_class" where
  "RES_PURCHASE_ITEM_class W = message_class (RES_PURCHASE_ITEM_ByteSizeLong W)
     (RES_PURCHASE_ITEM_InternalSerialize W) (RES_PURCHASE_ITEM_InternalParse W)"

definition REQ_LOGIN_class :: "wire_format \<Rightarrow> (string \<times> string) msg_class" where
  "REQ_LOGIN_class W = message_class (REQ_LOGIN_ByteSizeLong W)
     (REQ_LOGIN_InternalSerialize W) (REQ_LOGIN_InternalParse W)"

definition RES_LOGIN_class :: "wire_format \<Rightarrow> (int32 \<times> string) msg_class" where
  "RES_LOGIN_class W = message_class (RES_LOGIN_ByteSizeLong W)
     (RES_LOGIN_InternalSerialize W) (RES_LOGIN_InternalParse W)"

section \<open>Each class is a codec\<close>

text \<open>The messages whose strings are UTF-8.\<close>

definition item_ok :: "wire_format \<Rightarrow> AuctionItemInfo \<Rightarrow> bool" where
  "item_ok W m \<longleftrightarrow> is_utf8 W (ai_expired_at m)"

lemma small_length: "n \<le> INT_MAX \<Longrightarrow> n < 2 ^ 64"
  by (simp add: INT_MAX_def)

context wire
begin

lemma item_size: "length (AuctionItemInfo_InternalSerialize W m) = AuctionItemInfo_ByteSizeLong W m"
  by (simp add: AuctionItemInfo_InternalSerialize_def AuctionItemInfo_ByteSizeLong_def length_Write)

lemma item_parse:
  assumes "item_ok W m" and "length (ai_expired_at m) < 2 ^ 64"
  shows "AuctionItemInfo_InternalParse W (AuctionItemInfo_InternalSerialize W m) = Some m"
  using assms
  by (simp add: AuctionItemInfo_InternalParse_def AuctionItemInfo_InternalSerialize_def item_ok_def
      parse_int64 parse_end AuctionItemInfo_fields_def AuctionItemInfo_default_def)

text \<open>The items of a repeated field, of a message of limited size.\<close>

lemma length_write_items: "n < 15 \<Longrightarrow> length (write_items W n items) = size_items W items"
  by (induction items) (simp_all add: write_items_def size_items_def length_Write item_size)

lemma item_bounds:
  assumes "x \<in> set items" and "size_items W items \<le> INT_MAX"
  shows "length (ai_expired_at x) < 2 ^ 64" and "length (AuctionItemInfo_InternalSerialize W x) < 2 ^ 64"
proof -
  have "LengthDelimitedSize W (AuctionItemInfo_ByteSizeLong W x)
      \<le> sum_list (map (\<lambda>x. LengthDelimitedSize W (AuctionItemInfo_ByteSizeLong W x)) items)"
    using assms(1) by (intro member_le_sum_list) auto
  then have "AuctionItemInfo_ByteSizeLong W x \<le> INT_MAX"
    using assms(2) by (simp add: size_items_def LengthDelimitedSize_def)
  moreover have "length (ai_expired_at x) \<le> AuctionItemInfo_ByteSizeLong W x"
    by (simp add: AuctionItemInfo_ByteSizeLong_def LengthDelimitedSize_def)
  ultimately show "length (ai_expired_at x) < 2 ^ 64" and "length (AuctionItemInfo_InternalSerialize W x) < 2 ^ 64"
    using item_size [of x] small_length by auto
qed

lemma parse_items:
  assumes "switch (word_of_nat (8 * n + 2)) = Some (read_message W (AuctionItemInfo_InternalParse W) upd)"
    and "n < 15" and "list_all (item_ok W) items" and "size_items W items \<le> INT_MAX"
  shows "parse_fields W switch (write_items W n items @ rest) m = parse_fields W switch rest (fold upd items m)"
  unfolding write_items_def
  using assms item_parse item_bounds by (intro parse_repeated) (auto simp: list_all_iff)

lemmas parse_items_end = parse_items [where rest = "[]", unfolded append_Nil2 parse_fields_Nil]

lemma fold_append: "fold (\<lambda>x xs. xs @ [x]) items acc = acc @ items"
  by (induction items arbitrary: acc) simp_all

lemma fold_append_pair: "fold (\<lambda>x (b, xs). (b, xs @ [x])) items (b, acc) = (b, acc @ items)"
  by (induction items arbitrary: acc) simp_all

lemma fold_append_purchase: "fold (\<lambda>x. srpi_purchaseinfo_update (\<lambda>xs. xs @ [x])) items m
    = m\<lparr>srpi_purchaseinfo := srpi_purchaseinfo m @ items\<rparr>"
  by (induction items arbitrary: m) simp_all

lemma RES_AUCTION_LIST_codec:
  "message_codec (RES_AUCTION_LIST_class W) (\<lambda>(mylist, items). list_all (item_ok W) items)"
  unfolding RES_AUCTION_LIST_class_def
proof (rule message_class_codec)
  show "length (RES_AUCTION_LIST_InternalSerialize W m) = RES_AUCTION_LIST_ByteSizeLong W m" for m
    by (cases m) (simp add: RES_AUCTION_LIST_InternalSerialize_def RES_AUCTION_LIST_ByteSizeLong_def
        length_Write length_write_items)
  show "RES_AUCTION_LIST_InternalParse W (RES_AUCTION_LIST_InternalSerialize W m) = Some m"
    if "(case m of (mylist, items) \<Rightarrow> list_all (item_ok W) items)"
      and "RES_AUCTION_LIST_ByteSizeLong W m \<le> INT_MAX" for m
    using that
    by (cases m) (auto simp: RES_AUCTION_LIST_InternalSerialize_def RES_AUCTION_LIST_ByteSizeLong_def
        RES_AUCTION_LIST_InternalParse_def RES_AUCTION_LIST_fields_def parse_items parse_items_end parse_end
        fold_append_pair simp del: if_split)
qed

lemma Game_REQ_PURCHASE_ITEM_codec:
  "message_codec (Game_REQ_PURCHASE_ITEM_class W) (list_all (item_ok W))"
  unfolding Game_REQ_PURCHASE_ITEM_class_def
  by (rule message_class_codec)
    (simp_all add: Game_REQ_PURCHASE_ITEM_InternalSerialize_def Game_REQ_PURCHASE_ITEM_ByteSizeLong_def
      Game_REQ_PURCHASE_ITEM_InternalParse_def Game_REQ_PURCHASE_ITEM_fields_def length_write_items
      parse_items_end fold_append)

lemma REQ_PURCHASE_ITEM_codec:
  "message_codec (REQ_PURCHASE_ITEM_class W) (\<lambda>m. list_all (item_ok W) (srpi_purchaseinfo m))"
  unfolding REQ_PURCHASE_ITEM_class_def
  by (rule message_class_codec)
    (simp_all add: REQ_PURCHASE_ITEM_InternalSerialize_def REQ_PURCHASE_ITEM_ByteSizeLong_def
      REQ_PURCHASE_ITEM_InternalParse_def REQ_PURCHASE_ITEM_fields_def length_write_items length_Write
      parse_items_end parse_int64 fold_append_purchase del: if_split)

lemma RES_PURCHASE_ITEM_codec: "message_codec (RES_PURCHASE_ITEM_class W) (\<lambda>_. True)"
  unfolding RES_PURCHASE_ITEM_class_def
  by (rule message_class_codec)
    (simp_all add: RES_PURCHASE_ITEM_InternalSerialize_def RES_PURCHASE_ITEM_ByteSizeLong_def
      RES_PURCHASE_ITEM_InternalParse_def RES_PURCHASE_ITEM_fields_def length_Write
      parse_int64 parse_bool parse_end)

lemma REQ_LOGIN_codec:
  "message_codec (REQ_LOGIN_class W) (\<lambda>(uid, pw). is_utf8 W uid \<and> is_utf8 W pw)"
  unfolding REQ_LOGIN_class_def
proof (rule message_class_codec)
  show "length (REQ_LOGIN_InternalSerialize W m) = REQ_LOGIN_ByteSizeLong W m" for m
    by (cases m) (simp add: REQ_LOGIN_InternalSerialize_def REQ_LOGIN_ByteSizeLong_def length_Write)
  show "REQ_LOGIN_InternalParse W (REQ_LOGIN_InternalSerialize W m) = Some m"
    if "(case m of (uid, pw) \<Rightarrow> is_utf8 W uid \<and> is_utf8 W pw)" and "REQ_LOGIN_ByteSizeLong W m \<le> INT_MAX" for m
  proof -
    obtain uid pw where m: "m = (uid, pw)" by force
    have "length uid \<le> INT_MAX" "length pw \<le> INT_MAX"
      using that(2) by (auto simp: m REQ_LOGIN_ByteSizeLong_def LengthDelimitedSize_def split: if_splits)
    with that show ?thesis
      using small_length [of "length uid"] small_length [of "length pw"]
      by (simp add: m REQ_LOGIN_InternalSerialize_def REQ_LOGIN_InternalParse_def REQ_LOGIN_fields_def
          parse_string parse_end del: if_split)
  qed
qed

lemma RES_LOGIN_codec: "message_codec (RES_LOGIN_class W) (\<lambda>(player_id, token). is_utf8 W token)"
  unfolding RES_LOGIN_class_def
proof (rule message_class_codec)
  show "length (RES_LOGIN_InternalSerialize W m) = RES_LOGIN_ByteSizeLong W m" for m
    by (cases m) (simp add: RES_LOGIN_InternalSerialize_def RES_LOGIN_ByteSizeLong_def length_Write)
  show "RES_LOGIN_InternalParse W (RES_LOGIN_InternalSerialize W m) = Some m"
    if "(case m of (player_id, token) \<Rightarrow> is_utf8 W token)" and "RES_LOGIN_ByteSizeLong W m \<le> INT_MAX" for m
  proof -
    obtain player_id token where m: "m = (player_id, token)" by force
    have "length token \<le> INT_MAX"
      using that(2) by (auto simp: m RES_LOGIN_ByteSizeLong_def LengthDelimitedSize_def split: if_splits)
    with that show ?thesis
      using small_length [of "length token"]
      by (simp add: m RES_LOGIN_InternalSerialize_def RES_LOGIN_InternalParse_def RES_LOGIN_fields_def
          parse_int32 parse_string parse_end del: if_split)
  qed
qed

end

section \<open>The messages in the documented encoding\<close>

interpretation auction_list_codec: message_codec "RES_AUCTION_LIST_class base128"
    "\<lambda>(mylist, items). list_all (item_ok base128) items"
  by (rule base128.RES_AUCTION_LIST_codec)

interpretation game_purchase_codec: message_codec "Game_REQ_PURCHASE_ITEM_class base128"
    "list_all (item_ok base128)"
  by (rule base128.Game_REQ_PURCHASE_ITEM_codec)

interpretation purchase_codec: message_codec "REQ_PURCHASE_ITEM_class base128"
    "\<lambda>m. list_all (item_ok base128) (srpi_purchaseinfo m)"
  by (rule base128.REQ_PURCHASE_ITEM_codec)

interpretation purchase_result_codec: message_codec "RES_PURCHASE_ITEM_class base128" "\<lambda>_. True"
  by (rule base128.RES_PURCHASE_ITEM_codec)

interpretation login_codec: message_codec "REQ_LOGIN_class base128"
    "\<lambda>(uid, pw). is_utf8 base128 uid \<and> is_utf8 base128 pw"
  by (rule base128.REQ_LOGIN_codec)

interpretation login_result_codec: message_codec "RES_LOGIN_class base128"
    "\<lambda>(player_id, token). is_utf8 base128 token"
  by (rule base128.RES_LOGIN_codec)

text \<open>
  C12: messages survive the wire.  Over any encoding with protobuf's documented laws, every list,
  purchase request, purchase result and login message of a size protobuf accepts, its strings UTF-8,
  is parsed by the generated code of the peer to exactly the message the generated code serialised.
\<close>

theorem messages_roundtrip:
  assumes "wire W"
  shows "(list_all (item_ok W) items \<and> RES_AUCTION_LIST_ByteSizeLong W (mylist, items) \<le> INT_MAX \<longrightarrow>
      RES_AUCTION_LIST_InternalParse W (RES_AUCTION_LIST_InternalSerialize W (mylist, items)) = Some (mylist, items))
    \<and> (list_all (item_ok W) (srpi_purchaseinfo req) \<and> REQ_PURCHASE_ITEM_ByteSizeLong W req \<le> INT_MAX \<longrightarrow>
      REQ_PURCHASE_ITEM_InternalParse W (REQ_PURCHASE_ITEM_InternalSerialize W req) = Some req)
    \<and> (RES_PURCHASE_ITEM_ByteSizeLong W res \<le> INT_MAX \<longrightarrow>
      RES_PURCHASE_ITEM_InternalParse W (RES_PURCHASE_ITEM_InternalSerialize W res) = Some res)
    \<and> (is_utf8 W uid \<and> is_utf8 W pw \<and> REQ_LOGIN_ByteSizeLong W (uid, pw) \<le> INT_MAX \<longrightarrow>
      REQ_LOGIN_InternalParse W (REQ_LOGIN_InternalSerialize W (uid, pw)) = Some (uid, pw))"
proof (intro conjI impI; (elim conjE)?)
  note roundtrip = message_class_roundtrip
  show "RES_AUCTION_LIST_InternalParse W (RES_AUCTION_LIST_InternalSerialize W (mylist, items)) = Some (mylist, items)"
    if "list_all (item_ok W) items" "RES_AUCTION_LIST_ByteSizeLong W (mylist, items) \<le> INT_MAX"
    by (rule roundtrip [OF wire.RES_AUCTION_LIST_codec [OF assms, unfolded RES_AUCTION_LIST_class_def]])
      (use that in simp_all)
  show "REQ_PURCHASE_ITEM_InternalParse W (REQ_PURCHASE_ITEM_InternalSerialize W req) = Some req"
    if "list_all (item_ok W) (srpi_purchaseinfo req)" "REQ_PURCHASE_ITEM_ByteSizeLong W req \<le> INT_MAX"
    by (rule roundtrip [OF wire.REQ_PURCHASE_ITEM_codec [OF assms, unfolded REQ_PURCHASE_ITEM_class_def]])
      (use that in simp_all)
  show "RES_PURCHASE_ITEM_InternalParse W (RES_PURCHASE_ITEM_InternalSerialize W res) = Some res"
    if "RES_PURCHASE_ITEM_ByteSizeLong W res \<le> INT_MAX"
    by (rule roundtrip [OF wire.RES_PURCHASE_ITEM_codec [OF assms, unfolded RES_PURCHASE_ITEM_class_def]])
      (use that in simp_all)
  show "REQ_LOGIN_InternalParse W (REQ_LOGIN_InternalSerialize W (uid, pw)) = Some (uid, pw)"
    if "is_utf8 W uid" "is_utf8 W pw" "REQ_LOGIN_ByteSizeLong W (uid, pw) \<le> INT_MAX"
    by (rule roundtrip [OF wire.REQ_LOGIN_codec [OF assms, unfolded REQ_LOGIN_class_def]])
      (use that in simp_all)
qed

theorem messages_roundtrip_witness:
  "RES_PURCHASE_ITEM_InternalParse base128 (RES_PURCHASE_ITEM_InternalSerialize base128
      \<lparr>sspi_session_id = 3, sspi_result = True, sspi_gold = 1000\<rparr>)
    = Some \<lparr>sspi_session_id = 3, sspi_result = True, sspi_gold = 1000\<rparr>"
proof -
  let ?res = "\<lparr>sspi_session_id = 3, sspi_result = True, sspi_gold = 1000\<rparr>"
  have "RES_PURCHASE_ITEM_ByteSizeLong base128 ?res \<le> INT_MAX"
    by (simp add: RES_PURCHASE_ITEM_ByteSizeLong_def Int64Size_def base128_def varint_bytes.simps INT_MAX_def)
  with messages_roundtrip [OF base128.wire_axioms, of "[]" False "\<lparr>srpi_session_id = 0, srpi_purchaseinfo = []\<rparr>" ?res "[]" "[]"]
  show ?thesis by blast
qed

end
