(* ===== verification/Cache.thy ===== *)
theory Cache
  imports Messages Packet SessionSend
begin

text \<open>
  \<^verbatim>\<open>GameServer/Utils/AuctionCache.cpp\<close>: the game server's copy of the auction list, refreshed
  from the auction server, sent to clients as a ready-made packet and used to reject hopeless
  purchases early.

  Times are nanoseconds of the steady clock; a handler runs at one instant \<open>now\<close>.  An asio
  timer is its pending wait, if any, and the completions already queued with success, which a
  later \<open>cancel\<close> or \<open>expires_at\<close> no longer stops; cancelled waits return at once and are
  omitted.  \<open>_refreshSeq\<close> is the value a timeout wait captured.
\<close>

section \<open>State\<close>

datatype Verdict = Pass | Unknown | RejectNotFound | RejectShortage | RejectOwn

record Snapshot =
  sn_items :: "AuctionItemInfo list"
  sn_index :: "(int64, nat) map"
  sn_listPacket :: "byte list option"
  sn_maxListId :: int64
  sn_complete :: bool
  sn_fetchedAt :: int

record auction_cache =
  ca_snapshot :: "Snapshot option"
  ca_inFlight :: bool
  ca_refreshSeq :: int32
  ca_dirty :: bool
  ca_lastRequestAt :: int
  ca_timers :: bool
  ca_timerArmed :: bool
  ca_timerTarget :: int
  ca_hit :: uint64
  ca_miss :: uint64
  ca_rejected :: uint64
  tm_wait :: "int option"
  tm_ready :: nat
  to_wait :: "(int \<times> int32) option"
  to_ready :: "int32 list"
  ca_sent :: "SS_REQ_AUCTION_LIST list"

definition AuctionCache :: auction_cache where
  "AuctionCache = \<lparr>ca_snapshot = None, ca_inFlight = False, ca_refreshSeq = 0, ca_dirty = False,
     ca_lastRequestAt = 0, ca_timers = False, ca_timerArmed = False, ca_timerTarget = 0,
     ca_hit = 0, ca_miss = 0, ca_rejected = 0, tm_wait = None, tm_ready = 0, to_wait = None,
     to_ready = [], ca_sent = []\<rparr>"

definition cache_Init :: "auction_cache \<Rightarrow> auction_cache" where
  "cache_Init c = c\<lparr>ca_timers := True\<rparr>"

definition kCacheSessionId :: int64 where "kCacheSessionId = 0"
definition kClientListMax :: nat where "kClientListMax = 100"
definition seconds :: "int \<Rightarrow> int" where "seconds n = n * 1000000000"
definition kRefreshInterval :: int where "kRefreshInterval = seconds 60"
definition kMinRefreshGap :: int where "kMinRefreshGap = seconds 3"
definition kRequestTimeout :: int where "kRequestTimeout = seconds 5"
definition kStaleLimit :: int where "kStaleLimit = seconds 180"

lemmas cache_times = seconds_def kRefreshInterval_def kMinRefreshGap_def kRequestTimeout_def
  kStaleLimit_def

definition StoreSnapshot :: "Snapshot \<Rightarrow> auction_cache \<Rightarrow> auction_cache" where
  "StoreSnapshot s c = c\<lparr>ca_snapshot := Some s\<rparr>"

definition IsFresh :: "int \<Rightarrow> Snapshot \<Rightarrow> bool" where
  "IsFresh now s \<longleftrightarrow> now - sn_fetchedAt s < kStaleLimit"

section \<open>Refreshing\<close>

text \<open>\<open>connected\<close>: \<open>GAuctionSession\<close> is set.\<close>

definition RequestRefresh :: "bool \<Rightarrow> int \<Rightarrow> auction_cache \<Rightarrow> auction_cache" where
  "RequestRefresh connected now c =
     (if ca_inFlight c \<or> \<not> connected \<or> \<not> ca_timers c then c
      else
        let seq = ca_refreshSeq c + 1 in
        c\<lparr>ca_inFlight := True, ca_refreshSeq := seq, ca_lastRequestAt := now,
          ca_sent := ca_sent c @ [\<lparr>sral_session_id = kCacheSessionId, sral_request_id = seq,
            sral_player_id = 0, sral_search_item = [], sral_mylist = False\<rparr>],
          to_wait := Some (now + kRequestTimeout, seq)\<rparr>)"

definition ArmTimer :: "int \<Rightarrow> int \<Rightarrow> auction_cache \<Rightarrow> auction_cache" where
  "ArmTimer now delay c =
     (let target = now + delay in
      if ca_timerArmed c \<and> target \<ge> ca_timerTarget c then c
      else c\<lparr>ca_timerArmed := True, ca_timerTarget := target, tm_wait := Some target\<rparr>)"

definition early_delay :: "int \<Rightarrow> auction_cache \<Rightarrow> int" where
  "early_delay now c =
     (let elapsed = now - ca_lastRequestAt c
      in if elapsed \<ge> kMinRefreshGap then 0 else kMinRefreshGap - elapsed)"

definition game_PKT_RES_AUCTION_LIST :: int16 where "game_PKT_RES_AUCTION_LIST = 4001"

definition BuildClientPacket ::
  "(bool \<times> AuctionItemInfo list) msg_class \<Rightarrow> Snapshot \<Rightarrow> Snapshot" where
  "BuildClientPacket M s =
     (let pkt = (False, take kClientListMax (sn_items s)) in
      if ByteSizeLong M pkt > SHRT_MAX then s
      else (case Serialize M (replicate (RequiredSize M pkt) 0) game_PKT_RES_AUCTION_LIST pkt of
              (ok, buf) \<Rightarrow> if ok then s\<lparr>sn_listPacket := Some buf\<rparr> else s))"

text \<open>
  The indexing loop: \<open>emplace\<close> keeps the first item of an id.  \<open>index_items\<close> starts at
  position \<open>i\<close>.
\<close>

fun index_items :: "nat \<Rightarrow> AuctionItemInfo list \<Rightarrow> (int64, nat) map \<times> int64 \<Rightarrow> (int64, nat) map \<times> int64" where
  "index_items i [] acc = acc"
| "index_items i (x # xs) (index, maxListId) =
     index_items (Suc i) xs
       (if ai_list_id x \<in> dom index then index else index(ai_list_id x \<mapsto> i),
        if maxListId <s ai_list_id x then ai_list_id x else maxListId)"

definition make_snapshot ::
  "(bool \<times> AuctionItemInfo list) msg_class \<Rightarrow> int \<Rightarrow> AuctionItemInfo list \<Rightarrow> Snapshot" where
  "make_snapshot M now items =
     (let (index, maxListId) = index_items 0 items (Map.empty, 0)
      in BuildClientPacket M \<lparr>sn_items = items, sn_index = index, sn_listPacket = None,
           sn_maxListId = maxListId, sn_complete = True, sn_fetchedAt = now\<rparr>)"

definition FinishRefresh ::
  "(bool \<times> AuctionItemInfo list) msg_class \<Rightarrow> int \<Rightarrow> SS_RES_AUCTION_LIST \<Rightarrow> auction_cache \<Rightarrow> auction_cache" where
  "FinishRefresh M now pkt c =
     (let c1 = StoreSnapshot (make_snapshot M now (ssal_listinfo pkt)) c;
          c2 = c1\<lparr>ca_inFlight := False, to_wait := None\<rparr>
      in if ca_dirty c2 then ArmTimer now (early_delay now c2) (c2\<lparr>ca_dirty := False\<rparr>)
         else ArmTimer now kRefreshInterval c2)"

definition OnRefreshResponse ::
  "(bool \<times> AuctionItemInfo list) msg_class \<Rightarrow> int \<Rightarrow> SS_RES_AUCTION_LIST \<Rightarrow> auction_cache \<Rightarrow> auction_cache" where
  "OnRefreshResponse M now pkt c =
     (if \<not> ca_inFlight c \<or> ssal_request_id pkt \<noteq> ca_refreshSeq c then c
      else FinishRefresh M now pkt c)"

definition OnRequestTimeout :: "int \<Rightarrow> auction_cache \<Rightarrow> auction_cache" where
  "OnRequestTimeout now c = ArmTimer now kRefreshInterval (c\<lparr>ca_inFlight := False\<rparr>)"

text \<open>The lambda \<open>RequestRefresh\<close> hands to the timeout timer, completing with success.\<close>

definition on_timeout_wait :: "int \<Rightarrow> int32 \<Rightarrow> auction_cache \<Rightarrow> auction_cache" where
  "on_timeout_wait now seq c =
     (if ca_inFlight c \<and> seq = ca_refreshSeq c then OnRequestTimeout now c else c)"

definition MarkDirty :: "int \<Rightarrow> auction_cache \<Rightarrow> auction_cache" where
  "MarkDirty now c =
     (let c1 = c\<lparr>ca_dirty := True\<rparr>
      in if ca_inFlight c1 then c1 else ArmTimer now (early_delay now c1) c1)"

definition OnTimer :: "bool \<Rightarrow> int \<Rightarrow> auction_cache \<Rightarrow> auction_cache" where
  "OnTimer connected now c =
     (let c1 = RequestRefresh connected now (c\<lparr>ca_timerArmed := False, ca_dirty := False\<rparr>)
      in if \<not> ca_inFlight c1 then ArmTimer now kRefreshInterval c1 else c1)"

section \<open>Use by the clients\<close>

definition TrySendList :: "int \<Rightarrow> session_tx \<Rightarrow> auction_cache \<Rightarrow> bool \<times> session_tx \<times> auction_cache" where
  "TrySendList now session c =
     (case ca_snapshot c of
        None \<Rightarrow> (False, session, c\<lparr>ca_miss := ca_miss c + 1\<rparr>)
      | Some snap \<Rightarrow>
          (if sn_listPacket snap = None \<or> \<not> IsFresh now snap
           then (False, session, c\<lparr>ca_miss := ca_miss c + 1\<rparr>)
           else (True, SendShared (sn_listPacket snap) session, c\<lparr>ca_hit := ca_hit c + 1\<rparr>)))"

definition ValidatePurchase :: "int \<Rightarrow> int64 \<Rightarrow> int64 \<Rightarrow> int64 \<Rightarrow> auction_cache \<Rightarrow> Verdict \<times> auction_cache" where
  "ValidatePurchase now listId count buyerId c =
     (let rejected = c\<lparr>ca_rejected := ca_rejected c + 1\<rparr> in
      case ca_snapshot c of
        None \<Rightarrow> (Unknown, c)
      | Some snap \<Rightarrow>
          if \<not> IsFresh now snap then (Unknown, c)
          else (case sn_index snap listId of
              None \<Rightarrow> if sn_maxListId snap <s listId then (Unknown, c) else (RejectNotFound, rejected)
            | Some i \<Rightarrow>
                let item = sn_items snap ! i in
                if count \<le>s 0 \<or> ai_count item <s count then (RejectShortage, rejected)
                else if ai_player_id item = buyerId then (RejectOwn, rejected)
                else (Pass, c)))"

section \<open>The index\<close>

text \<open>\<open>lookup_list_id\<close>: the specification of the index, the first item with the id.\<close>

fun lookup_list_id :: "nat \<Rightarrow> AuctionItemInfo list \<Rightarrow> int64 \<Rightarrow> nat option" where
  "lookup_list_id i [] lid = None"
| "lookup_list_id i (x # xs) lid = (if ai_list_id x = lid then Some i else lookup_list_id (Suc i) xs lid)"

lemma index_items_lookup:
  "fst (index_items i xs (index, m)) lid = (case index lid of Some j \<Rightarrow> Some j | None \<Rightarrow> lookup_list_id i xs lid)"
  by (induction xs arbitrary: i index m) (auto split: option.splits)

lemma lookup_list_id_Some:
  "lookup_list_id i xs lid = Some j \<Longrightarrow> i \<le> j \<and> j < i + length xs \<and> ai_list_id (xs ! (j - i)) = lid"
  by (induction xs arbitrary: i) (auto simp: nth_Cons' split: if_splits, force+)

lemma lookup_list_id_None: "lookup_list_id i xs lid = None \<longleftrightarrow> (\<forall>x \<in> set xs. ai_list_id x \<noteq> lid)"
  by (induction xs arbitrary: i) auto

lemma index_items_max:
  "sint (snd (index_items i xs (index, m))) =
     fold max (map (\<lambda>x. sint (ai_list_id x)) xs) (sint m)"
  by (induction xs arbitrary: i index m) (auto simp: word_sless_alt max_def)

lemma BuildClientPacket_fields [simp]:
  "sn_items (BuildClientPacket M s) = sn_items s"
  "sn_index (BuildClientPacket M s) = sn_index s"
  "sn_maxListId (BuildClientPacket M s) = sn_maxListId s"
  "sn_fetchedAt (BuildClientPacket M s) = sn_fetchedAt s"
  by (simp_all add: BuildClientPacket_def Let_def split: prod.splits)

lemma make_snapshot_fields:
  "sn_items (make_snapshot M now items) = items"
  "sn_index (make_snapshot M now items) = (\<lambda>lid. lookup_list_id 0 items lid)"
  "sint (sn_maxListId (make_snapshot M now items)) = fold max (map (\<lambda>x. sint (ai_list_id x)) items) 0"
  "sn_fetchedAt (make_snapshot M now items) = now"
proof -
  obtain index m where i: "index_items 0 items (Map.empty, 0) = (index, m)" by force
  have "index = (\<lambda>lid. lookup_list_id 0 items lid)"
    using index_items_lookup [of 0 items Map.empty 0] i by (auto simp: fun_eq_iff)
  moreover have "sint m = fold max (map (\<lambda>x. sint (ai_list_id x)) items) 0"
    using index_items_max [of 0 items Map.empty 0] i by simp
  ultimately show "sn_items (make_snapshot M now items) = items"
    "sn_index (make_snapshot M now items) = (\<lambda>lid. lookup_list_id 0 items lid)"
    "sint (sn_maxListId (make_snapshot M now items)) = fold max (map (\<lambda>x. sint (ai_list_id x)) items) 0"
    "sn_fetchedAt (make_snapshot M now items) = now"
    by (simp_all add: make_snapshot_def i Let_def)
qed

lemma fold_max_Max: "fold max xs (m :: int) = Max (insert m (set xs))"
  using Max.set_eq_fold [of m xs] by simp

section \<open>The refresh cycle\<close>

text \<open>
  The auction thread's steps: time passes; \<open>OnConnect\<close>; any response arrives; somebody marks
  the cache dirty; a wait falls due and its completion is queued; a queued completion runs.
\<close>

inductive cache_step ::
  "(bool \<times> AuctionItemInfo list) msg_class \<Rightarrow> int \<times> auction_cache \<Rightarrow> int \<times> auction_cache \<Rightarrow> bool"
  for M where
  time: "now \<le> now' \<Longrightarrow> cache_step M (now, c) (now', c)"
| connect: "cache_step M (now, c) (now, RequestRefresh True now c)"
| response: "cache_step M (now, c) (now, OnRefreshResponse M now pkt c)"
| dirty: "cache_step M (now, c) (now, MarkDirty now c)"
| timer_due: "tm_wait c = Some t \<Longrightarrow> t \<le> now \<Longrightarrow>
    cache_step M (now, c) (now, c\<lparr>tm_wait := None, tm_ready := Suc (tm_ready c)\<rparr>)"
| timer_run: "tm_ready c = Suc n \<Longrightarrow>
    cache_step M (now, c) (now, OnTimer connected now (c\<lparr>tm_ready := n\<rparr>))"
| timeout_due: "to_wait c = Some (t, seq) \<Longrightarrow> t \<le> now \<Longrightarrow>
    cache_step M (now, c) (now, c\<lparr>to_wait := None, to_ready := to_ready c @ [seq]\<rparr>)"
| timeout_run: "to_ready c = seq # rest \<Longrightarrow>
    cache_step M (now, c) (now, on_timeout_wait now seq (c\<lparr>to_ready := rest\<rparr>))"

inductive cache_reachable ::
  "(bool \<times> AuctionItemInfo list) msg_class \<Rightarrow> int \<times> auction_cache \<Rightarrow> bool" for M where
  start: "0 \<le> now \<Longrightarrow> cache_reachable M (now, cache_Init AuctionCache)"
| step: "cache_reachable M s \<Longrightarrow> cache_step M s t \<Longrightarrow> cache_reachable M t"

text \<open>A timer that is armed will fire within 60 seconds; a request in flight will time out within 5.\<close>

definition timer_alive :: "int \<Rightarrow> auction_cache \<Rightarrow> bool" where
  "timer_alive now c \<longleftrightarrow> (tm_wait c = Some (ca_timerTarget c) \<and> ca_timerTarget c \<le> now + kRefreshInterval)
     \<or> 0 < tm_ready c"

definition timeout_alive :: "int \<Rightarrow> auction_cache \<Rightarrow> bool" where
  "timeout_alive now c \<longleftrightarrow> (\<exists>t. to_wait c = Some (t, ca_refreshSeq c) \<and> t \<le> now + kRequestTimeout)
     \<or> ca_refreshSeq c \<in> set (to_ready c)"

definition cache_inv :: "int \<Rightarrow> auction_cache \<Rightarrow> bool" where
  "cache_inv now c \<longleftrightarrow> 0 \<le> now \<and> ca_lastRequestAt c \<le> now \<and> ca_timers c
     \<and> (ca_timerArmed c \<longrightarrow> timer_alive now c)
     \<and> (ca_inFlight c \<longrightarrow> timeout_alive now c)
     \<and> (ca_sent c \<noteq> [] \<and> \<not> ca_inFlight c \<longrightarrow> ca_timerArmed c)"

lemmas cache_inv_defs = cache_inv_def timer_alive_def timeout_alive_def

lemma ArmTimer_inv:
  assumes "0 \<le> now" "ca_lastRequestAt c \<le> now" "ca_timers c" "delay \<le> kRefreshInterval"
    and "ca_timerArmed c \<longrightarrow> timer_alive now c" and "ca_inFlight c \<longrightarrow> timeout_alive now c"
  shows "cache_inv now (ArmTimer now delay c)"
  using assms by (auto simp: ArmTimer_def cache_inv_defs Let_def)

lemma early_delay_le: "ca_lastRequestAt c \<le> now \<Longrightarrow> early_delay now c \<le> kRefreshInterval"
  by (auto simp: early_delay_def Let_def cache_times)

lemma RequestRefresh_inv: "cache_inv now c \<Longrightarrow> cache_inv now (RequestRefresh connected now c)"
  by (auto simp: RequestRefresh_def cache_inv_defs Let_def cache_times)

lemma OnTimer_inv:
  assumes "0 \<le> now" "ca_lastRequestAt c \<le> now" "ca_timers c" "ca_inFlight c \<longrightarrow> timeout_alive now c"
  shows "cache_inv now (OnTimer connected now c)"
proof -
  let ?c = "c\<lparr>ca_timerArmed := False, ca_dirty := False\<rparr>"
  have "ca_inFlight (RequestRefresh connected now ?c) \<longrightarrow> cache_inv now (RequestRefresh connected now ?c)"
    using assms by (auto simp: RequestRefresh_def cache_inv_defs Let_def)
  moreover have "\<not> ca_inFlight (RequestRefresh connected now ?c) \<longrightarrow>
      cache_inv now (ArmTimer now kRefreshInterval (RequestRefresh connected now ?c))"
    using assms by (auto simp: RequestRefresh_def Let_def intro!: ArmTimer_inv split: if_splits)
  ultimately show ?thesis by (simp add: OnTimer_def Let_def)
qed

lemma FinishRefresh_inv:
  assumes "cache_inv now c"
  shows "cache_inv now (FinishRefresh M now pkt c)"
proof -
  note I = assms [unfolded cache_inv_def]
  show ?thesis
    unfolding FinishRefresh_def StoreSnapshot_def Let_def
    using I by (auto intro!: ArmTimer_inv early_delay_le simp: timer_alive_def)
qed

lemma MarkDirty_inv:
  assumes "cache_inv now c"
  shows "cache_inv now (MarkDirty now c)"
proof (cases "ca_inFlight c")
  case True
  then show ?thesis using assms by (simp add: MarkDirty_def Let_def cache_inv_defs)
next
  case False
  let ?c = "c\<lparr>ca_dirty := True\<rparr>"
  have "early_delay now ?c \<le> kRefreshInterval"
    using assms by (intro early_delay_le) (simp add: cache_inv_def)
  then have "cache_inv now (ArmTimer now (early_delay now ?c) ?c)"
    using assms False by (intro ArmTimer_inv) (simp_all add: cache_inv_def timer_alive_def)
  with False show ?thesis by (simp add: MarkDirty_def Let_def)
qed

lemma timeout_run_inv:
  assumes "to_ready c = seq # rest" and "cache_inv now c"
  shows "cache_inv now (on_timeout_wait now seq (c\<lparr>to_ready := rest\<rparr>))"
proof (cases "ca_inFlight c \<and> seq = ca_refreshSeq c")
  case True
  let ?c = "c\<lparr>to_ready := rest, ca_inFlight := False\<rparr>"
  have "cache_inv now (ArmTimer now kRefreshInterval ?c)"
    using assms(2) by (intro ArmTimer_inv) (simp_all add: cache_inv_def timer_alive_def)
  with True show ?thesis by (simp add: on_timeout_wait_def OnRequestTimeout_def)
next
  case False
  then have "on_timeout_wait now seq (c\<lparr>to_ready := rest\<rparr>) = c\<lparr>to_ready := rest\<rparr>"
    by (auto simp: on_timeout_wait_def)
  moreover have "ca_inFlight c \<longrightarrow> timeout_alive now (c\<lparr>to_ready := rest\<rparr>)"
    using assms False by (auto simp: cache_inv_def timeout_alive_def)
  ultimately show ?thesis using assms(2) by (simp add: cache_inv_def timer_alive_def)
qed

lemma cache_step_inv: "cache_step M (now, c) (now', c') \<Longrightarrow> cache_inv now c \<Longrightarrow> cache_inv now' c'"
proof (induction "(now, c)" "(now', c')" rule: cache_step.induct)
  case time
  then show ?case by (auto simp: cache_inv_defs)
next
  case connect
  then show ?case by (auto intro: RequestRefresh_inv)
next
  case response
  then show ?case by (auto simp: OnRefreshResponse_def intro: FinishRefresh_inv)
next
  case dirty
  then show ?case by (auto intro: MarkDirty_inv)
next
  case timer_due
  then show ?case by (auto simp: cache_inv_defs)
next
  case (timer_run n connected)
  then have "cache_inv now (OnTimer connected now (c\<lparr>tm_ready := n\<rparr>))"
    by (intro OnTimer_inv) (simp_all add: cache_inv_def timeout_alive_def)
  with timer_run show ?case by simp
next
  case timeout_due
  then show ?case by (auto simp: cache_inv_defs)
next
  case (timeout_run seq rest)
  then show ?case using timeout_run_inv [OF timeout_run(1), of now'] by auto
qed

lemma cache_reachable_inv: "cache_reachable M s \<Longrightarrow> cache_inv (fst s) (snd s)"
proof (induction rule: cache_reachable.induct)
  case (start now)
  then show ?case by (simp add: cache_inv_defs cache_Init_def AuctionCache_def)
next
  case (step s t)
  then show ?case using cache_step_inv [of M "fst s" "snd s" "fst t" "snd t"] by simp
qed

text \<open>
  The refresh cycle never stalls.  Once the first request has been sent, at every moment,
  whatever responses arrived or got lost and whatever timers were re-armed or cancelled: either
  a request is in flight and its timeout will run within 5 seconds, or none is and the refresh
  timer will run within 60 seconds.
\<close>

lemma refresh_never_stalls:
  assumes "cache_reachable M (now, c)" and "ca_sent c \<noteq> []"
  shows "if ca_inFlight c
    then (\<exists>t. to_wait c = Some (t, ca_refreshSeq c) \<and> t \<le> now + seconds 5) \<or> ca_refreshSeq c \<in> set (to_ready c)
    else (tm_wait c = Some (ca_timerTarget c) \<and> ca_timerTarget c \<le> now + seconds 60) \<or> 0 < tm_ready c"
  using cache_reachable_inv [OF assms(1)] assms(2)
  by (auto simp: cache_inv_defs kRefreshInterval_def kRequestTimeout_def)

text \<open>The moves that lead to the next request.\<close>

lemma OnTimer_requests:
  "ca_timers c \<Longrightarrow> \<not> ca_inFlight c \<Longrightarrow> \<exists>x. ca_sent (OnTimer True now c) = ca_sent c @ [x]"
  by (simp add: OnTimer_def RequestRefresh_def Let_def)

lemma timer_progress:
  assumes "cache_inv now c" "ca_sent c \<noteq> []" "\<not> ca_inFlight c"
  shows "\<exists>now' c' x. (cache_step M)\<^sup>*\<^sup>* (now, c) (now', c') \<and> now' \<le> now + kRefreshInterval
    \<and> ca_sent c' = ca_sent c @ [x]"
proof -
  have ready: "\<exists>c' x. cache_step M (t, d) (t, c') \<and> ca_sent c' = ca_sent d @ [x]"
    if "0 < tm_ready d" "ca_timers d" "\<not> ca_inFlight d" for t d
  proof -
    from that obtain n where "tm_ready d = Suc n" by (cases "tm_ready d") auto
    from timer_run [OF this, of M t True] OnTimer_requests [of "d\<lparr>tm_ready := n\<rparr>" t] that
    show ?thesis by auto
  qed
  have inv: "ca_timers c" "timer_alive now c" using assms by (auto simp: cache_inv_def)
  show ?thesis
  proof (cases "0 < tm_ready c")
    case True
    have "now \<le> now + kRefreshInterval" by (simp add: cache_times)
    with ready [OF True inv(1) assms(3), of now] show ?thesis by blast
  next
    case False
    with inv obtain t where t: "tm_wait c = Some t" "t \<le> now + kRefreshInterval"
      by (auto simp: timer_alive_def)
    let ?now = "max now t" and ?d = "c\<lparr>tm_wait := None, tm_ready := Suc (tm_ready c)\<rparr>"
    have s1: "cache_step M (now, c) (?now, c)" by (rule time) simp
    have s2: "cache_step M (?now, c) (?now, ?d)" by (rule timer_due [OF t(1)]) simp
    from ready [of ?d ?now] inv assms(3) obtain c' x where
      s3: "cache_step M (?now, ?d) (?now, c')" "ca_sent c' = ca_sent c @ [x]" by auto
    have "(cache_step M)\<^sup>*\<^sup>* (now, c) (?now, c')"
      using s1 s2 s3(1) by (meson converse_rtranclp_into_rtranclp rtranclp.rtrancl_refl)
    moreover have "?now \<le> now + kRefreshInterval" using t(2) by (simp add: cache_times)
    ultimately show ?thesis using s3(2) by blast
  qed
qed

lemma run_timeouts:
  "ca_refreshSeq c \<in> set (to_ready c) \<Longrightarrow> ca_inFlight c \<Longrightarrow>
   \<exists>c'. (cache_step M)\<^sup>*\<^sup>* (now, c) (now, c') \<and> \<not> ca_inFlight c' \<and> ca_sent c' = ca_sent c"
proof (induction "to_ready c" arbitrary: c)
  case Nil
  then show ?case by simp
next
  case (Cons seq rest)
  let ?d = "on_timeout_wait now seq (c\<lparr>to_ready := rest\<rparr>)"
  have step: "cache_step M (now, c) (now, ?d)"
    by (rule timeout_run) (simp add: Cons.hyps(2) [symmetric])
  show ?case
  proof (cases "seq = ca_refreshSeq c")
    case True
    then have "\<not> ca_inFlight ?d \<and> ca_sent ?d = ca_sent c"
      by (simp add: on_timeout_wait_def OnRequestTimeout_def ArmTimer_def Let_def)
    with step show ?thesis by blast
  next
    case False
    then have d: "?d = c\<lparr>to_ready := rest\<rparr>" by (simp add: on_timeout_wait_def)
    have "ca_refreshSeq c \<in> set rest" using Cons.prems(1) Cons.hyps(2) False by (metis set_ConsD)
    with Cons.hyps(1) [of ?d] Cons.prems(2) d obtain c' where
      "(cache_step M)\<^sup>*\<^sup>* (now, ?d) (now, c')" "\<not> ca_inFlight c'" "ca_sent c' = ca_sent c" by auto
    with step show ?thesis by (meson converse_rtranclp_into_rtranclp)
  qed
qed

lemma timeout_progress:
  assumes "cache_inv now c" "ca_inFlight c"
  shows "\<exists>now' c'. (cache_step M)\<^sup>*\<^sup>* (now, c) (now', c') \<and> now' \<le> now + kRequestTimeout
    \<and> \<not> ca_inFlight c' \<and> ca_sent c' = ca_sent c"
proof (cases "ca_refreshSeq c \<in> set (to_ready c)")
  case True
  have "now \<le> now + kRequestTimeout" by (simp add: cache_times)
  with run_timeouts [OF True assms(2), of M now] show ?thesis by blast
next
  case False
  with assms obtain t where t: "to_wait c = Some (t, ca_refreshSeq c)" "t \<le> now + kRequestTimeout"
    by (auto simp: cache_inv_def timeout_alive_def)
  let ?now = "max now t" and ?d = "c\<lparr>to_wait := None, to_ready := to_ready c @ [ca_refreshSeq c]\<rparr>"
  have s1: "cache_step M (now, c) (?now, c)" by (rule time) simp
  have s2: "cache_step M (?now, c) (?now, ?d)" by (rule timeout_due [OF t(1)]) simp
  from run_timeouts [of ?d M ?now] assms(2) obtain c' where
    c': "(cache_step M)\<^sup>*\<^sup>* (?now, ?d) (?now, c')" "\<not> ca_inFlight c'" "ca_sent c' = ca_sent c" by auto
  have "(cache_step M)\<^sup>*\<^sup>* (now, c) (?now, c')"
    using s1 s2 c'(1) by (meson converse_rtranclp_into_rtranclp)
  moreover have "?now \<le> now + kRequestTimeout" using t(2) by (simp add: cache_times)
  ultimately show ?thesis using c' by blast
qed

lemma cache_steps_inv:
  "(cache_step M)\<^sup>*\<^sup>* s t \<Longrightarrow> cache_inv (fst s) (snd s) \<Longrightarrow> cache_inv (fst t) (snd t)"
proof (induction rule: rtranclp_induct)
  case base
  then show ?case .
next
  case (step t u)
  then show ?case using cache_step_inv [of M "fst t" "snd t" "fst u" "snd u"] by simp
qed

text \<open>
  Another refresh is always ahead.  From every state reached after the first request, even
  if the auction server never answers again, the timers alone lead to another request being
  sent within 65 seconds.
\<close>

lemma next_refresh_within_65s:
  assumes "cache_reachable M (now, c)" and "ca_sent c \<noteq> []"
  shows "\<exists>now' c' x. (cache_step M)\<^sup>*\<^sup>* (now, c) (now', c') \<and> now' \<le> now + seconds 65
    \<and> ca_sent c' = ca_sent c @ [x]"
proof -
  have inv: "cache_inv now c" using cache_reachable_inv [OF assms(1)] by simp
  obtain now1 c1 where s1: "(cache_step M)\<^sup>*\<^sup>* (now, c) (now1, c1)" "now1 \<le> now + kRequestTimeout"
    "\<not> ca_inFlight c1" "ca_sent c1 = ca_sent c"
  proof (cases "ca_inFlight c")
    case True
    from timeout_progress [OF inv True, of M] that show ?thesis by blast
  next
    case False
    then show ?thesis using that [of now c] by (simp add: cache_times)
  qed
  from cache_steps_inv [OF s1(1)] inv have "cache_inv now1 c1" by simp
  from timer_progress [OF this _ s1(3), of M] s1(4) assms(2) obtain now2 c2 x where
    s2: "(cache_step M)\<^sup>*\<^sup>* (now1, c1) (now2, c2)" "now2 \<le> now1 + kRefreshInterval"
    "ca_sent c2 = ca_sent c @ [x]" by auto
  from s1(1) s2(1) have "(cache_step M)\<^sup>*\<^sup>* (now, c) (now2, c2)" by simp
  moreover have "now2 \<le> now + seconds 65" using s1(2) s2(2) by (simp add: cache_times)
  ultimately show ?thesis using s2(3) by blast
qed

section \<open>Witnesses of the refresh cycle\<close>

text \<open>A request at second 1, lost; its wait falls due at second 6.\<close>

definition demo_cache :: auction_cache where
  "demo_cache = RequestRefresh True (seconds 1) (cache_Init AuctionCache)"

lemma demo_cache_reachable: "cache_reachable M (seconds 1, demo_cache)"
proof -
  have "cache_reachable M (seconds 1, cache_Init AuctionCache)"
    by (rule cache_reachable.start) (simp add: seconds_def)
  then show ?thesis unfolding demo_cache_def by (rule cache_reachable.step) (rule connect)
qed

lemma demo_cache_fields: "ca_sent demo_cache \<noteq> []" "ca_inFlight demo_cache"
  "to_wait demo_cache = Some (seconds 6, 1)" "to_ready demo_cache = []" "ca_refreshSeq demo_cache = 1"
  by (simp_all add: demo_cache_def RequestRefresh_def cache_Init_def AuctionCache_def Let_def cache_times)

lemma refresh_never_stalls_witness:
  "\<exists>t. to_wait demo_cache = Some (t, 1) \<and> t \<le> seconds 1 + seconds 5"
  using refresh_never_stalls [OF demo_cache_reachable demo_cache_fields(1)]
  by (simp add: demo_cache_fields)

lemma next_refresh_within_65s_witness:
  "\<exists>now' c' x. (cache_step \<lparr>ByteSizeLong = (\<lambda>_. 0), SerializeToArray = (\<lambda>_ _. Some []),
        ParseFromArray = (\<lambda>_. None)\<rparr>)\<^sup>*\<^sup>* (seconds 1, demo_cache) (now', c')
    \<and> now' \<le> seconds 66 \<and> ca_sent c' = ca_sent demo_cache @ [x]"
  using next_refresh_within_65s [OF demo_cache_reachable demo_cache_fields(1)]
  by (simp add: seconds_def)

section \<open>The shared packet\<close>

text \<open>Every snapshot a reachable cache holds was made from a response.\<close>

definition snapshot_from :: "(bool \<times> AuctionItemInfo list) msg_class \<Rightarrow> int \<Rightarrow> auction_cache \<Rightarrow> bool" where
  "snapshot_from M now c \<longleftrightarrow> (\<forall>sn. ca_snapshot c = Some sn \<longrightarrow>
     (\<exists>t items. t \<le> now \<and> sn = make_snapshot M t items))"

lemma snapshot_kept [simp]:
  "ca_snapshot (ArmTimer now d c) = ca_snapshot c"
  "ca_snapshot (RequestRefresh b now c) = ca_snapshot c"
  "ca_snapshot (MarkDirty now c) = ca_snapshot c"
  "ca_snapshot (OnTimer b now c) = ca_snapshot c"
  "ca_snapshot (on_timeout_wait now seq c) = ca_snapshot c"
  by (simp_all add: ArmTimer_def RequestRefresh_def MarkDirty_def OnTimer_def on_timeout_wait_def
      OnRequestTimeout_def Let_def)

lemma snapshot_OnRefreshResponse:
  "ca_snapshot (OnRefreshResponse M now pkt c) =
     (if ca_inFlight c \<and> ssal_request_id pkt = ca_refreshSeq c
      then Some (make_snapshot M now (ssal_listinfo pkt)) else ca_snapshot c)"
  by (auto simp: OnRefreshResponse_def FinishRefresh_def StoreSnapshot_def Let_def)

lemma cache_reachable_snapshot: "cache_reachable M s \<Longrightarrow> snapshot_from M (fst s) (snd s)"
proof (induction rule: cache_reachable.induct)
  case (start now)
  then show ?case by (simp add: snapshot_from_def cache_Init_def AuctionCache_def)
next
  case (step s t)
  have later: "snapshot_from M t c \<Longrightarrow> ca_snapshot c' = ca_snapshot c \<Longrightarrow> t \<le> t' \<Longrightarrow> snapshot_from M t' c'"
    for t t' c c' unfolding snapshot_from_def by (metis order_trans)
  from step(2) show ?case
  proof (cases rule: cache_step.cases)
    case (response now c pkt)
    then show ?thesis using step(3)
      by (auto simp: snapshot_from_def snapshot_OnRefreshResponse split: if_splits)
  qed (use step(3) in \<open>auto intro: later\<close>)
qed

lemma BuildClientPacket_cases:
  assumes "message_codec M ok" and "sn_listPacket s = None"
  obtains (none) "sn_listPacket (BuildClientPacket M s) = None"
    | (some) bs where "sn_listPacket (BuildClientPacket M s) =
          Some (header_bytes \<lparr>Length = word_of_nat (length bs), Code = game_PKT_RES_AUCTION_LIST\<rparr> @ bs)"
        "length bs \<le> SHRT_MAX"
        "ok (False, take kClientListMax (sn_items s))
          \<Longrightarrow> ParseFromArray M bs = Some (False, take kClientListMax (sn_items s))"
proof -
  let ?pkt = "(False, take kClientListMax (sn_items s))"
  show thesis
  proof (cases "ByteSizeLong M ?pkt > SHRT_MAX")
    case True
    then show thesis using none assms(2) by (simp add: BuildClientPacket_def Let_def)
  next
    case False
    obtain bs where bs: "SerializeToArray M ?pkt (length (replicate (RequiredSize M ?pkt) (0 :: byte))
          - sizeof_PacketHeader) = Some bs" "length bs = ByteSizeLong M ?pkt"
      "Serialize M (replicate (RequiredSize M ?pkt) 0) game_PKT_RES_AUCTION_LIST ?pkt =
        (True, header_bytes \<lparr>Length = word_of_nat (ByteSizeLong M ?pkt), Code = game_PKT_RES_AUCTION_LIST\<rparr> @ bs
             @ drop (RequiredSize M ?pkt) (replicate (RequiredSize M ?pkt) 0))"
      by (rule message_codec.Serialize_ok [OF assms(1), of ?pkt "replicate (RequiredSize M ?pkt) 0" game_PKT_RES_AUCTION_LIST])
        (use False in \<open>auto simp: SHRT_MAX_def INT_MAX_def\<close>)
    from False bs show thesis
      by (intro some [of bs]) (simp_all add: BuildClientPacket_def Let_def message_codec.ser_parse [OF assms(1) _ bs(1)])
  qed
qed

lemma make_snapshot_packet:
  assumes "message_codec M ok" and "sn_listPacket (make_snapshot M t items) = Some buf"
  shows "\<exists>bs. buf = header_bytes \<lparr>Length = word_of_nat (length bs), Code = game_PKT_RES_AUCTION_LIST\<rparr> @ bs
    \<and> length bs \<le> SHRT_MAX
    \<and> (ok (False, take kClientListMax items) \<longrightarrow> ParseFromArray M bs = Some (False, take kClientListMax items))"
proof -
  obtain index m where i: "index_items 0 items (Map.empty, 0) = (index, m)" by force
  let ?s = "\<lparr>sn_items = items, sn_index = index, sn_listPacket = None,
           sn_maxListId = m, sn_complete = True, sn_fetchedAt = t\<rparr>"
  have eq: "make_snapshot M t items = BuildClientPacket M ?s" by (simp add: make_snapshot_def i)
  show ?thesis
    by (rule BuildClientPacket_cases [OF assms(1), of ?s]) (use assms(2) eq in auto)
qed

end
