(* ===== verification/ClientList.thy ===== *)
theory ClientList
  imports Cache Codec
begin

text \<open>
  The list a game server keeps for its clients (\<^verbatim>\<open>AuctionCache::BuildClientPacket\<close> and
  \<^verbatim>\<open>TrySendList\<close>) as bytes: what is sent, and that the list always fits into a packet.
\<close>

lemma BuildClientPacket_fits:
  assumes "message_codec M ok" and "ByteSizeLong M (False, take kClientListMax (sn_items s)) \<le> SHRT_MAX"
  shows "sn_listPacket (BuildClientPacket M s) \<noteq> None"
proof -
  let ?pkt = "(False, take kClientListMax (sn_items s))"
  obtain buf where "Serialize M (replicate (RequiredSize M ?pkt) 0) game_PKT_RES_AUCTION_LIST ?pkt = (True, buf)"
    by (rule message_codec.Serialize_ok [OF assms(1), of ?pkt "replicate (RequiredSize M ?pkt) 0" game_PKT_RES_AUCTION_LIST])
      (use assms(2) in \<open>auto simp: SHRT_MAX_def INT_MAX_def\<close>)
  with assms(2) show ?thesis by (simp add: BuildClientPacket_def Let_def)
qed

context wire
begin

lemma item_size_max: "AuctionItemInfo_ByteSizeLong W x \<le> 77 + length (ai_expired_at x)"
  using put_max [of "ai_list_id x"] put_max [of "ai_player_id x"] put_max [of "ai_receipt_type x"]
    put_max [of "ai_item_id x"] put_max [of "ai_count x"] put_max [of "ai_price x"]
    put_max [of "word_of_nat (length (ai_expired_at x))"]
  by (simp add: AuctionItemInfo_ByteSizeLong_def Int64Size_def LengthDelimitedSize_def)

lemma items_size_max:
  assumes "\<forall>x \<in> set items. length (ai_expired_at x) \<le> 200"
  shows "size_items W items \<le> 300 * length items"
  using assms
proof (induction items)
  case (Cons x items)
  have "LengthDelimitedSize W (AuctionItemInfo_ByteSizeLong W x) \<le> 10 + (77 + length (ai_expired_at x))"
    using item_size_max [of x] put_max [of "word_of_nat (AuctionItemInfo_ByteSizeLong W x)"]
    by (simp add: LengthDelimitedSize_def)
  moreover have "length (ai_expired_at x) \<le> 200" using Cons.prems by simp
  ultimately have "LengthDelimitedSize W (AuctionItemInfo_ByteSizeLong W x) \<le> 287" by linarith
  with Cons show ?case by (simp add: size_items_def)
qed (simp add: size_items_def)

end


text \<open>
  C18: the client's list always fits.  With the encoding's ten-byte bound on a number, and expiry texts
  of at most 200 characters, the first 100 items never exceed the 32767 bytes of a packet: the size
  check of \<open>BuildClientPacket\<close> never fires, and a fresh snapshot is always sent.
\<close>

theorem client_list_fits:
  assumes "wire W" and "cache_reachable (RES_AUCTION_LIST_class W) (now, c)"
    and "ca_snapshot c = Some sn" and "\<And>x. x \<in> set (sn_items sn) \<Longrightarrow> length (ai_expired_at x) \<le> 200"
  shows "fst (TrySendList now session c) = IsFresh now sn"
proof -
  let ?M = "RES_AUCTION_LIST_class W"
  obtain t items where sn: "sn = make_snapshot ?M t items"
    using cache_reachable_snapshot [OF assms(2)] assms(3) by (auto simp: snapshot_from_def)
  then obtain s where s: "sn = BuildClientPacket ?M s" "sn_items s = sn_items sn"
    by (auto simp: make_snapshot_def make_snapshot_fields split: prod.splits)
  have "size_items W (take 100 (sn_items s)) \<le> 300 * length (take 100 (sn_items s))"
    by (rule wire.items_size_max [OF assms(1)]) (use assms(4) s(2) in \<open>auto dest: in_set_takeD\<close>)
  then have "ByteSizeLong ?M (False, take kClientListMax (sn_items s)) \<le> SHRT_MAX"
    by (simp add: RES_AUCTION_LIST_class_def message_class_def RES_AUCTION_LIST_ByteSizeLong_def
        kClientListMax_def SHRT_MAX_def)
  from BuildClientPacket_fits [OF wire.RES_AUCTION_LIST_codec [OF assms(1)] this] s(1)
  have "sn_listPacket sn \<noteq> None" by simp
  with assms(3) show ?thesis by (auto simp: TrySendList_def)
qed

section \<open>Witnesses\<close>

text \<open>A cache that was connected at time 0 and got the list of one item at time 1.\<close>

definition demo_list_item :: AuctionItemInfo where
  "demo_list_item = AuctionItemInfo_default\<lparr>ai_list_id := 7, ai_count := 2, ai_price := 300, ai_expired_at := ''2030-01-01''\<rparr>"

definition demo_list_cache :: auction_cache where
  "demo_list_cache = OnRefreshResponse (RES_AUCTION_LIST_class base128) 1
     \<lparr>ssal_session_id = 0, ssal_request_id = 1, ssal_mylist = False, ssal_listinfo = [demo_list_item]\<rparr>
     (RequestRefresh True 0 (cache_Init AuctionCache))"

lemma demo_list_reachable: "cache_reachable (RES_AUCTION_LIST_class base128) (1, demo_list_cache)"
proof -
  let ?M = "RES_AUCTION_LIST_class base128"
  have "cache_reachable ?M (0, RequestRefresh True 0 (cache_Init AuctionCache))"
    by (rule cache_reachable.step [OF cache_reachable.start cache_step.connect]) simp
  from cache_reachable.step [OF this cache_step.time [of 0 1]]
  have "cache_reachable ?M (1, RequestRefresh True 0 (cache_Init AuctionCache))" by simp
  from cache_reachable.step [OF this cache_step.response] show ?thesis
    unfolding demo_list_cache_def .
qed

lemma demo_list_snapshot:
  "ca_snapshot demo_list_cache = Some (make_snapshot (RES_AUCTION_LIST_class base128) 1 [demo_list_item])"
  by (simp add: demo_list_cache_def OnRefreshResponse_def RequestRefresh_def cache_Init_def AuctionCache_def Let_def
      FinishRefresh_def StoreSnapshot_def ArmTimer_def)


theorem client_list_fits_witness: "fst (TrySendList 1 tx_init demo_list_cache)"
proof -
  have "length (ai_expired_at x) \<le> 200"
    if "x \<in> set (sn_items (make_snapshot (RES_AUCTION_LIST_class base128) 1 [demo_list_item]))" for x
    using that by (simp add: make_snapshot_fields demo_list_item_def)
  from client_list_fits [OF base128.wire_axioms demo_list_reachable demo_list_snapshot this, of tx_init]
  show ?thesis by (simp add: IsFresh_def make_snapshot_fields cache_times)
qed

end
