(* ===== verification/Dispatch.thy ===== *)
theory Dispatch
  imports Packet
begin

text \<open>
  The dispatch every server's packet handler class repeats (\<open>Init\<close>, \<open>HandlePacket\<close> and
  \<open>DispatchPacket\<close> of \<^verbatim>\<open>*PacketHandler.h\<close>): a table of \<open>UINT16_MAX\<close> handlers, filled with the
  invalid handler and then with one entry per request, indexed by the header's signed code.

  A negative code indexes before the table: undefined behaviour, the outcome \<open>OutOfBounds\<close>.
\<close>

definition UINT16_MAX :: nat where
  "UINT16_MAX = 65535"

datatype 's dispatched = Handled bool 's | OutOfBounds

type_synonym 's packet_handler = "byte list \<Rightarrow> 's \<Rightarrow> bool \<times> 's"

text \<open>\<open>Init\<close>: the loop and the assignments, the last assignment to an index winning.\<close>

definition Init_table :: "'s packet_handler \<Rightarrow> (nat \<times> 's packet_handler) list \<Rightarrow> 's packet_handler list" where
  "Init_table invalid entries =
     fold (\<lambda>(code, h) table. table[code := h]) entries (replicate UINT16_MAX invalid)"

definition DispatchPacket :: "'m msg_class \<Rightarrow> ('m \<Rightarrow> 's \<Rightarrow> bool \<times> 's) \<Rightarrow> 's packet_handler" where
  "DispatchPacket M func body s =
     (case Parse M body (length body) 4 of
        None \<Rightarrow> (False, s)
      | Some (pkt, offset) \<Rightarrow> func pkt s)"

definition HandlePacket :: "'s packet_handler list \<Rightarrow> PacketHeader \<Rightarrow> byte list \<Rightarrow> 's \<Rightarrow> 's dispatched" where
  "HandlePacket table header body s =
     (if sint (Code header) < 0 \<or> length table \<le> nat (sint (Code header)) then OutOfBounds
      else (case (table ! nat (sint (Code header))) body s of (ok, s') \<Rightarrow> Handled ok s'))"

lemma length_Init_table [simp]: "length (Init_table invalid entries) = UINT16_MAX"
proof -
  have "length (fold (\<lambda>(code, h) table. table[code := h]) entries t) = length t" for t :: "'a packet_handler list"
    by (induction entries arbitrary: t) (auto split: prod.splits)
  then show ?thesis by (simp add: Init_table_def)
qed

lemma fold_update_nth:
  assumes "distinct (map fst entries)" and "code < length t"
  shows "fold (\<lambda>(code, h) table. table[code := h]) entries t ! code =
    (case map_of entries code of None \<Rightarrow> t ! code | Some h \<Rightarrow> h)"
  using assms
proof (induction entries arbitrary: t)
  case Nil
  then show ?case by simp
next
  case (Cons e entries)
  obtain k h where e: "e = (k, h)" by force
  have "map_of entries k = None" using Cons.prems(1) e by (simp add: map_of_eq_None_iff)
  with Cons e show ?case by (auto split: option.splits)
qed

lemma Init_table_nth:
  "distinct (map fst entries) \<Longrightarrow> code < UINT16_MAX \<Longrightarrow>
   Init_table invalid entries ! code = (case map_of entries code of None \<Rightarrow> invalid | Some h \<Rightarrow> h)"
  unfolding Init_table_def by (subst fold_update_nth) (auto split: option.splits)

lemma sint_code_bound: "sint (Code h) < int UINT16_MAX"
  using sint_less [of "Code h"] by (simp add: UINT16_MAX_def)

text \<open>
  Dispatch.  With distinct table indices, a packet is handled exactly when its code is not
  negative: by the handler registered for the code if there is one, by the invalid handler
  otherwise; a negative code from a client reads outside the table.
\<close>

lemma HandlePacket_dispatch:
  assumes "distinct (map fst entries)"
  shows "HandlePacket (Init_table invalid entries) header body s =
    (if sint (Code header) < 0 then OutOfBounds
     else let (ok, s') = (case map_of entries (nat (sint (Code header))) of
                None \<Rightarrow> invalid | Some h \<Rightarrow> h) body s in Handled ok s')"
proof (cases "sint (Code header) < 0")
  case False
  then have "nat (sint (Code header)) < UINT16_MAX"
    using sint_code_bound [of header] by linarith
  with False show ?thesis
    by (simp add: HandlePacket_def Init_table_nth [OF assms] Let_def)
qed (simp add: HandlePacket_def)

lemma HandlePacket_dispatch_witness:
  "HandlePacket (Init_table (\<lambda>body s. (False, s)) [(4, \<lambda>body s. (True, s + length body))])
     \<lparr>Length = 2, Code = 4\<rparr> [1, 2] (10 :: nat) = Handled True 12
   \<and> HandlePacket (Init_table (\<lambda>body s. (False, s)) [(4, \<lambda>body s. (True, s + length body))])
     \<lparr>Length = 2, Code = -1\<rparr> [1, 2] (10 :: nat) = OutOfBounds"
  using HandlePacket_dispatch [of "[(4, \<lambda>body s. (True, s + length body))]" "\<lambda>body s. (False, s)"]
  by simp

end
