(* ===== verification/Wire.thy ===== *)
theory Wire
  imports Dispatch SessionRecv
begin

text \<open>
  The receiving session and the dispatch table put together: a server process whose sessions'
  \<open>HandlePacket\<close> looks the packet up in the server's table
  (\<^verbatim>\<open>LoginSession.cpp\<close>, \<^verbatim>\<open>GameSession.cpp\<close>, \<^verbatim>\<open>ChatSession.cpp\<close> and both \<^verbatim>\<open>AuctionSession.cpp\<close>).

  A handler may not return, may throw out of the completion handler, or may run into undefined
  behaviour: then the process is no longer \<open>Up\<close>, and nothing that arrives later changes it.
\<close>

section \<open>A server process\<close>

datatype 'w server_process = Up 'w | Ended exn 'w | Hung | Undefined

text \<open>
  The virtual \<open>HandlePacket\<close> of a session, as the handler of the receiving side; the \<open>bool\<close> of the
  packet's handler is dropped.
\<close>

definition serve :: "'w server_process packet_handler list \<Rightarrow> 'w server_process handler" where
  "serve table header body p =
     (case p of
        Up w \<Rightarrow> (case HandlePacket table header body p of
            OutOfBounds \<Rightarrow> (None, Undefined)
          | Handled ok p' \<Rightarrow> ((case p' of Ended e w' \<Rightarrow> Some e | _ \<Rightarrow> None), p'))
      | Ended e w \<Rightarrow> (Some e, p)
      | Hung \<Rightarrow> (None, p)
      | Undefined \<Rightarrow> (None, p))"

text \<open>A handler that always returns.\<close>

fun total :: "('w \<Rightarrow> bool \<times> 'w) \<Rightarrow> 'w server_process \<Rightarrow> bool \<times> 'w server_process" where
  "total f (Up w) = (let (ok, w') = f w in (ok, Up w'))"
| "total f p = (False, p)"

text \<open>What every entry keeps, the session keeps.\<close>

lemma serve_keeps:
  assumes "distinct (map fst entries)"
    and "\<And>code h w. (code, h) \<in> set entries \<Longrightarrow> P (Up w) \<Longrightarrow> P (snd (h body (Up w)))"
    and "\<And>w. P (Up w) \<Longrightarrow> P (snd (bad body (Up w)))" and "P Undefined" and "P p"
  shows "P (snd (serve (Init_table bad entries) header body p))"
proof (cases p)
  case (Up w)
  let ?e = "map_of entries (nat (sint (Code header)))"
  let ?f = "case ?e of None \<Rightarrow> bad | Some f \<Rightarrow> f"
  have "P (snd (?f body (Up w)))"
    using assms(2) [OF map_of_SomeD] assms(3,5) Up by (cases ?e) auto
  then show ?thesis
    using Up assms(4) by (auto simp: serve_def HandlePacket_dispatch [OF assms(1)] split: prod.splits)
qed (use assms(5) in \<open>simp_all add: serve_def\<close>)

section \<open>A message on the wire\<close>

lemma serve_message:
  assumes "distinct (map fst entries)"
    and "map_of entries (nat (sint code)) = Some (DispatchPacket M func)" and "0 \<le> sint code"
    and "Parse M bs (length bs) 4 = Some (m, off)"
  shows "serve (Init_table bad entries) (frame_header (code, bs)) bs (Up w)
    = (let p' = snd (func m (Up w)) in ((case p' of Ended e w' \<Rightarrow> Some e | _ \<Rightarrow> None), p'))"
proof -
  have "nat (sint code) < UINT16_MAX"
    using sint_code_bound [of "frame_header (code, bs)"] assms(3) by (simp add: frame_header_def)
  then show ?thesis
    using assms by (simp add: serve_def HandlePacket_def frame_header_def Init_table_nth
        DispatchPacket_def Let_def split: prod.splits)
qed

text \<open>The packets a peer sends with \<open>SendPacket\<close>, each with its class, code and message.\<close>

definition sendable :: "'m msg_class \<Rightarrow> 'm \<Rightarrow> bool" where
  "sendable M m \<longleftrightarrow> (\<exists>ok. message_codec M ok \<and> ok m) \<and> ByteSizeLong M m \<le> SHRT_MAX"

lemma SendPacket_frame_sendable:
  assumes "sendable M m"
  obtains bs where "SendPacket M m code = frame (code, bs)" and "frameable (code, bs)"
    and "Parse M bs (length bs) 4 = Some (m, 4 + ByteSizeLong M m)"
proof -
  from assms obtain ok where "message_codec M ok" "ok m" "ByteSizeLong M m \<le> INT_MAX"
    by (auto simp: sendable_def SHRT_MAX_def INT_MAX_def)
  from SendPacket_is_frame [OF this, of code] assms that show thesis
    by (auto simp: sendable_def frameable_def)
qed

lemma serve_one:
  assumes "distinct (map fst entries)"
    and "map_of entries (nat (sint code)) = Some (DispatchPacket M func)" and "0 \<le> sint code"
    and "sendable M m" and "concat chunks = SendPacket M m code"
  shows "rx_world (fold (rx_receive (serve (Init_table bad entries))) chunks (rx_init (Up w)))
    = snd (func m (Up w))"
proof -
  let ?handle = "serve (Init_table bad entries)"
  obtain bs where bs: "SendPacket M m code = frame (code, bs)" "frameable (code, bs)"
    "Parse M bs (length bs) 4 = Some (m, 4 + ByteSizeLong M m)"
    by (rule SendPacket_frame_sendable [OF assms(4)])
  define p' where "p' = snd (func m (Up w))"
  note S = serve_message [OF assms(1-3) bs(3), of bad w, folded p'_def]
  have "rx_world (rx_receive ?handle (frame (code, bs)) (rx_init (Up w))) = p'"
  proof (cases "\<exists>e w'. p' = Ended e w'")
    case True
    then obtain e where "?handle (frame_header (code, bs)) bs (Up w) = (Some e, p')"
      using S by (auto simp: Let_def)
    with rx_run_frame_throws [of "(rx_init (Up w))\<lparr>rx_socket := frame (code, bs)\<rparr>" "(code, bs)" "[]" ?handle e p']
      bs(2) show ?thesis by (simp add: rx_receive_def at_header_def rx_init_def)
  next
    case False
    then have "handled ?handle [(code, bs)] (Up w) = Some p'"
      using S by (cases p') auto
    from rx_receive_frames(1) [OF _ this] bs(2) show ?thesis by simp
  qed
  then show ?thesis
    unfolding fold_rx_receive [OF rx_run_init] assms(5) bs(1) p'_def .
qed

text \<open>Several messages of one class, whose handler always returns.\<close>

lemma serve_many:
  assumes "distinct (map fst entries)"
    and "map_of entries (nat (sint code)) = Some (DispatchPacket M (\<lambda>m. total (f m)))" and "0 \<le> sint code"
    and "\<And>m. m \<in> set ms \<Longrightarrow> sendable M m" and "concat chunks = concat (map (\<lambda>m. SendPacket M m code) ms)"
  shows "rx_world (fold (rx_receive (serve (Init_table bad entries))) chunks (rx_init (Up w)))
    = Up (fold (\<lambda>m. snd \<circ> f m) ms w)"
proof -
  let ?handle = "serve (Init_table bad entries)"
  have "\<exists>ps. concat (map (\<lambda>m. SendPacket M m code) ms) = concat (map frame ps) \<and> list_all frameable ps
      \<and> handled ?handle ps (Up w) = Some (Up (fold (\<lambda>m. snd \<circ> f m) ms w))"
    using assms(4)
  proof (induction ms arbitrary: w)
    case Nil
    then show ?case by (intro exI [of _ "[]"]) simp
  next
    case (Cons m ms)
    obtain bs where bs: "SendPacket M m code = frame (code, bs)" "frameable (code, bs)"
      "Parse M bs (length bs) 4 = Some (m, 4 + ByteSizeLong M m)"
      using Cons.prems by (auto intro: SendPacket_frame_sendable [of M m code])
    from Cons.prems have "\<And>m'. m' \<in> set ms \<Longrightarrow> sendable M m'" by simp
    from Cons.IH [OF this, of "snd (f m w)"] obtain ps where
      "concat (map (\<lambda>m. SendPacket M m code) ms) = concat (map frame ps)" "list_all frameable ps"
      "handled ?handle ps (Up (snd (f m w))) = Some (Up (fold (\<lambda>m. snd \<circ> f m) ms (snd (f m w))))" by blast
    with bs serve_message [OF assms(1-3) bs(3), of bad w] show ?case
      by (intro exI [of _ "(code, bs) # ps"]) (simp add: Let_def o_def split: prod.splits)
  qed
  then obtain ps where "concat (map (\<lambda>m. SendPacket M m code) ms) = concat (map frame ps)"
    "list_all frameable ps" "handled ?handle ps (Up w) = Some (Up (fold (\<lambda>m. snd \<circ> f m) ms w))" by blast
  with rx_receive_frames(1) [OF this(2,3)] show ?thesis
    unfolding fold_rx_receive [OF rx_run_init] assms(5) by simp
qed

end
