(* ===== verification/ConnPool.thy ===== *)
theory ConnPool
  imports J1_Prelude
begin

text \<open>
  \<^verbatim>\<open>ServerCore/DB/ConnectionPool.h\<close>: a pool of database connections.  A connection is known
  by the address of its object, a number; \<open>std::set\<close> orders its elements by address, so
  \<open>borrowed\<close> is a sorted list.  \<open>ext\<close> holds the connections that a \<open>shared_ptr\<close> outside the
  pool refers to: the \<open>use_count() == 1\<close> test of \<open>borrow\<close> asks whether a borrowed connection
  is not in it.  The factory is the parameter \<open>create\<close>: whether its \<open>n\<close>-th call throws;
  a connection it returns has an address no other connection has had.

  The mutex makes every operation one atomic step.
\<close>

section \<open>State\<close>

record conn_pool =
  pool_size :: nat
  pool :: "nat list"
  borrowed :: "nat list"
  ext :: "nat list"
  created :: nat

type_synonym factory = "nat \<Rightarrow> exn option"

definition factory_create :: "factory \<Rightarrow> (conn_pool, nat) xm" where
  "factory_create create p =
     (let p' = p\<lparr>created := Suc (created p)\<rparr>
      in case create (created p) of Some e \<Rightarrow> (Inl e, p') | None \<Rightarrow> (Inr (created p), p'))"

section \<open>Construction\<close>

text \<open>\<open>while (pool.size() < pool_size) pool.push_back(factory->create())\<close>.\<close>

lemma factory_create_pool:
  "factory_create create p = (r, p') \<Longrightarrow> pool p' = pool p \<and> pool_size p' = pool_size p"
  by (auto simp: factory_create_def Let_def split: option.splits)

function fill_pool :: "factory \<Rightarrow> (conn_pool, unit) xm" where
  "fill_pool create p =
     (if length (pool p) < pool_size p then
        (case factory_create create p of
           (Inl e, p1) \<Rightarrow> (Inl e, p1)
         | (Inr c, p1) \<Rightarrow> fill_pool create (p1\<lparr>pool := pool p1 @ [c]\<rparr>))
      else (Inr (), p))"
  by pat_completeness auto
termination
  by (relation "measure (\<lambda>(create, p). pool_size p - length (pool p))")
    (auto dest!: sym [of _ "factory_create _ _"] factory_create_pool)

declare fill_pool.simps [simp del]

definition ConnectionPool :: "factory \<Rightarrow> nat \<Rightarrow> exn + conn_pool" where
  "ConnectionPool create n =
     (case fill_pool create \<lparr>pool_size = n, pool = [], borrowed = [], ext = [], created = 0\<rparr> of
        (Inl e, _) \<Rightarrow> Inl e | (Inr _, p) \<Rightarrow> Inr p)"

text \<open>\<open>Init\<close> runs the constructor, which fills the pool, and then the same loop again.\<close>

definition Init :: "factory \<Rightarrow> nat \<Rightarrow> exn + conn_pool" where
  "Init create n =
     (case ConnectionPool create n of
        Inl e \<Rightarrow> Inl e
      | Inr p \<Rightarrow> (case fill_pool create p of (Inl e, _) \<Rightarrow> Inl e | (Inr _, p') \<Rightarrow> Inr p'))"

section \<open>Borrowing and returning\<close>

definition erase_borrowed :: "nat \<Rightarrow> conn_pool \<Rightarrow> conn_pool" where
  "erase_borrowed c p = p\<lparr>borrowed := filter (\<lambda>x. x \<noteq> c) (borrowed p)\<rparr>"

definition insert_borrowed :: "nat \<Rightarrow> conn_pool \<Rightarrow> conn_pool" where
  "insert_borrowed c p = p\<lparr>borrowed := insort c (borrowed p)\<rparr>"

definition lend :: "nat \<Rightarrow> conn_pool \<Rightarrow> conn_pool" where
  "lend c p = p\<lparr>ext := List.insert c (ext p)\<rparr>"

text \<open>
  With an empty pool, the first borrowed connection nobody refers to any more is replaced by a
  new one; a failing \<open>create\<close> and the absence of such a connection both end in
  \<open>ConnectionUnavailable\<close>.
\<close>

definition borrow :: "factory \<Rightarrow> (conn_pool, nat) xm" where
  "borrow create p =
     (case pool p of
        [] \<Rightarrow>
          (case find (\<lambda>c. c \<notin> set (ext p)) (borrowed p) of
             Some old \<Rightarrow>
               (case factory_create create p of
                  (Inl e, p1) \<Rightarrow> (Inl ConnectionUnavailable, p1)
                | (Inr c, p1) \<Rightarrow> (Inr c, lend c (insert_borrowed c (erase_borrowed old p1))))
           | None \<Rightarrow> (Inl ConnectionUnavailable, p))
      | c # rest \<Rightarrow> (Inr c, lend c (insert_borrowed c (p\<lparr>pool := rest\<rparr>))))"

definition unborrow :: "nat \<Rightarrow> conn_pool \<Rightarrow> conn_pool" where
  "unborrow c p =
     (if c \<in> set (borrowed p) then erase_borrowed c (p\<lparr>pool := pool p @ [c]\<rparr>) else p)"

text \<open>The last \<open>shared_ptr\<close> of a borrower goes out of scope.\<close>

definition drop_ref :: "nat \<Rightarrow> conn_pool \<Rightarrow> conn_pool" where
  "drop_ref c p = p\<lparr>ext := filter (\<lambda>x. x \<noteq> c) (ext p)\<rparr>"

record ConnectionPoolStats =
  stats_pool_size :: nat
  stats_borrowed_size :: nat

definition get_stats :: "conn_pool \<Rightarrow> ConnectionPoolStats" where
  "get_stats p = \<lparr>stats_pool_size = length (pool p), stats_borrowed_size = length (borrowed p)\<rparr>"

section \<open>Invariant\<close>

definition pool_inv :: "conn_pool \<Rightarrow> bool" where
  "pool_inv p \<longleftrightarrow> distinct (pool p @ borrowed p) \<and> sorted (borrowed p)
     \<and> (\<forall>c \<in> set (pool p @ borrowed p). c < created p)
     \<and> length (pool p) + length (borrowed p) = pool_size p"

lemmas pool_defs = factory_create_def erase_borrowed_def insert_borrowed_def lend_def Let_def

lemma length_filter_neq:
  "distinct xs \<Longrightarrow> x \<in> set xs \<Longrightarrow> Suc (length (filter (\<lambda>y. y \<noteq> x) xs)) = length xs"
  by (induction xs) (auto intro!: filter_True arg_cong [where f = length])

lemma sorted_filter_id: "sorted xs \<Longrightarrow> sorted (filter P (xs :: nat list))"
  using sorted_filter [of "\<lambda>x. x" xs P] by simp

lemma borrow_nonempty:
  "pool p = c # rest \<Longrightarrow> borrow create p = (Inr c, lend c (insert_borrowed c (p\<lparr>pool := rest\<rparr>)))"
  by (simp add: borrow_def)

lemma borrow_inv: "pool_inv p \<Longrightarrow> borrow create p = (r, p') \<Longrightarrow> pool_inv p'"
  by (auto simp: borrow_def pool_inv_def pool_defs distinct_insort set_insort_key sorted_insort
      sorted_filter_id length_filter_neq less_Suc_eq
      split: list.splits option.splits dest!: find_SomeD)

lemma borrow_fresh: "pool_inv p \<Longrightarrow> borrow create p = (Inr c, p') \<Longrightarrow> c \<notin> set (borrowed p)"
  by (auto simp: borrow_def pool_inv_def pool_defs split: list.splits option.splits)

lemma borrow_lent:
  "borrow create p = (Inr c, p') \<Longrightarrow> c \<in> set (borrowed p') \<and> c \<in> set (ext p')"
  by (auto simp: borrow_def pool_defs set_insort_key split: list.splits option.splits)

lemma borrow_error: "borrow create p = (Inl e, p') \<Longrightarrow> e = ConnectionUnavailable"
  by (auto simp: borrow_def split: list.splits option.splits prod.splits sum.splits)

lemma borrow_Inl_iff:
  "(\<exists>e p'. borrow create p = (Inl e, p')) \<longleftrightarrow>
     pool p = [] \<and> (set (borrowed p) \<subseteq> set (ext p) \<or> create (created p) \<noteq> None)"
proof (cases "pool p")
  case Nil
  show ?thesis
  proof (cases "find (\<lambda>c. c \<notin> set (ext p)) (borrowed p)")
    case None
    then have "set (borrowed p) \<subseteq> set (ext p)" by (auto simp: find_None_iff)
    with Nil None show ?thesis by (simp add: borrow_def)
  next
    case (Some c)
    then have "\<not> set (borrowed p) \<subseteq> set (ext p)" by (auto dest: find_SomeD)
    with Nil Some show ?thesis by (auto simp: borrow_def pool_defs split: option.splits)
  qed
qed (simp add: borrow_def)

lemma unborrow_inv: "pool_inv p \<Longrightarrow> pool_inv (unborrow c p)"
  by (auto simp: unborrow_def pool_inv_def pool_defs sorted_filter_id length_filter_neq)
    (metis length_filter_neq add_Suc_right)

lemma drop_ref_inv: "pool_inv p \<Longrightarrow> pool_inv (drop_ref c p)"
  by (simp add: drop_ref_def pool_inv_def)

lemma unborrow_foreign: "c \<notin> set (borrowed p) \<Longrightarrow> unborrow c p = p"
  by (simp add: unborrow_def)

lemma unborrow_twice: "unborrow c (unborrow c p) = unborrow c p"
  by (simp add: unborrow_def erase_borrowed_def)

section \<open>Construction fills the pool exactly once\<close>

definition filling_inv :: "conn_pool \<Rightarrow> bool" where
  "filling_inv p \<longleftrightarrow> distinct (pool p) \<and> borrowed p = [] \<and> (\<forall>c \<in> set (pool p). c < created p)
     \<and> length (pool p) \<le> pool_size p"

lemma fill_pool_ok:
  assumes "fill_pool create p = (Inr (), p')" and "filling_inv p"
  shows "pool_inv p' \<and> length (pool p') = pool_size p \<and> pool_size p' = pool_size p"
  using assms
proof (induction create p rule: fill_pool.induct)
  case (1 create p)
  show ?case
  proof (cases "length (pool p) < pool_size p")
    case False
    with "1.prems" show ?thesis
      by (auto simp: fill_pool.simps [of create p] filling_inv_def pool_inv_def)
  next
    case True
    show ?thesis
    proof (cases "create (created p)")
      case (Some e)
      with True "1.prems" show ?thesis
        by (simp add: fill_pool.simps [of create p] factory_create_def)
    next
      case None
      let ?p1 = "p\<lparr>created := Suc (created p)\<rparr>"
      let ?p2 = "?p1\<lparr>pool := pool ?p1 @ [created p]\<rparr>"
      have cr: "factory_create create p = (Inr (created p), ?p1)"
        using None by (simp add: factory_create_def)
      have "fill_pool create ?p2 = (Inr (), p')"
        using True "1.prems"(1) cr by (simp add: fill_pool.simps [of create p])
      moreover have "filling_inv ?p2"
        using True "1.prems"(2) by (auto simp: filling_inv_def less_Suc_eq)
      ultimately have "pool_inv p' \<and> length (pool p') = pool_size ?p2 \<and> pool_size p' = pool_size ?p2"
        using "1.IH" [OF True cr [symmetric] refl] by blast
      then show ?thesis by simp
    qed
  qed
qed

lemma fill_pool_full: "pool_size p \<le> length (pool p) \<Longrightarrow> fill_pool create p = (Inr (), p)"
  by (simp add: fill_pool.simps [of create p])

lemma ConnectionPool_ok:
  assumes "ConnectionPool create n = Inr p"
  shows "pool_inv p \<and> length (pool p) = n \<and> pool_size p = n"
  using assms
  by (auto simp: ConnectionPool_def filling_inv_def split: prod.splits sum.splits
      dest!: fill_pool_ok)

lemma Init_eq_ConnectionPool: "Init create n = ConnectionPool create n"
  by (auto simp: Init_def fill_pool_full dest!: ConnectionPool_ok split: sum.splits)

section \<open>The interface the clients rely on\<close>

text \<open>
  What a client may rely on: while a connection is free, \<open>brw\<close> lends one that nobody has; \<open>unb\<close>
  takes a lent connection back.  The pool itself also ignores connections it has not lent.
\<close>

locale lender =
  fixes brw :: "('p, nat) xm" and unb :: "nat \<Rightarrow> 'p \<Rightarrow> 'p"
    and lent :: "'p \<Rightarrow> nat set" and free :: "'p \<Rightarrow> nat" and inv :: "'p \<Rightarrow> bool"
  assumes brw_free: "inv p \<Longrightarrow> 0 < free p \<Longrightarrow> \<exists>c p'. brw p = (Inr c, p') \<and> c \<notin> lent p
      \<and> lent p' = insert c (lent p) \<and> Suc (free p') = free p \<and> inv p'"
    and unb_lent: "inv p \<Longrightarrow> c \<in> lent p \<Longrightarrow> lent (unb c p) = lent p - {c}
      \<and> free (unb c p) = Suc (free p)"
    and unb_inv: "inv p \<Longrightarrow> inv (unb c p)"
begin

lemma brw_unb:
  assumes "inv p" and "0 < free p" and "brw p = (Inr c, p')"
  shows "lent (unb c p') = lent p \<and> free (unb c p') = free p \<and> inv (unb c p')"
  using brw_free [OF assms(1,2)] assms(3) unb_lent [of p' c] unb_inv [of p' c] by auto

lemma unb_all:
  "inv p \<Longrightarrow> set cs \<subseteq> lent p \<Longrightarrow> distinct cs \<Longrightarrow>
     lent (fold unb cs p) = lent p - set cs \<and> free (fold unb cs p) = free p + length cs
     \<and> inv (fold unb cs p)"
proof (induction cs arbitrary: p)
  case Nil
  then show ?case by simp
next
  case (Cons c cs)
  then have "lent (unb c p) = lent p - {c}" "free (unb c p) = Suc (free p)" "inv (unb c p)"
    using unb_lent unb_inv by auto
  moreover have "set cs \<subseteq> lent p - {c}" using Cons.prems by auto
  ultimately show ?case using Cons.IH [of "unb c p"] Cons.prems by auto
qed

end

locale connection_pool = lender +
  assumes unb_foreign: "inv p \<Longrightarrow> c \<notin> lent p \<Longrightarrow> unb c p = p"
begin

lemma unb_twice: "inv p \<Longrightarrow> c \<in> lent p \<Longrightarrow> unb c (unb c p) = unb c p"
  using unb_lent [of p c] unb_inv [of p c] unb_foreign [of "unb c p" c] by simp

end

lemma borrow_free:
  assumes inv: "pool_inv p" and "0 < length (pool p)"
  shows "\<exists>c p'. borrow create p = (Inr c, p') \<and> c \<notin> set (borrowed p)
      \<and> set (borrowed p') = insert c (set (borrowed p)) \<and> Suc (length (pool p')) = length (pool p)
      \<and> pool_inv p'"
proof -
  from assms(2) obtain c rest where p: "pool p = c # rest" by (cases "pool p") auto
  let ?p' = "lend c (insert_borrowed c (p\<lparr>pool := rest\<rparr>))"
  have b: "borrow create p = (Inr c, ?p')" by (rule borrow_nonempty [OF p])
  show ?thesis
    using p b borrow_inv [OF inv b] borrow_fresh [OF inv b]
    by (auto simp: pool_defs set_insort_key)
qed

text \<open>A borrower that unborrows and then drops its reference.\<close>

definition give_back :: "nat \<Rightarrow> conn_pool \<Rightarrow> conn_pool" where
  "give_back c p = drop_ref c (unborrow c p)"

interpretation db_pool: connection_pool "borrow create" unborrow "\<lambda>p. set (borrowed p)"
    "\<lambda>p. length (pool p)" pool_inv
  by unfold_locales
    (auto simp: borrow_free unborrow_inv unborrow_foreign, auto simp: unborrow_def erase_borrowed_def)

interpretation worker_conns: lender "borrow create" give_back "\<lambda>p. set (borrowed p)"
    "\<lambda>p. length (pool p)" pool_inv
  by unfold_locales
    (auto simp: borrow_free unborrow_inv drop_ref_inv give_back_def,
      auto simp: unborrow_def drop_ref_def erase_borrowed_def)

section \<open>Histories\<close>

text \<open>Any sequence of borrowing, returning and dropping, by any threads.\<close>

datatype pool_op = Borrow | Unborrow nat | DropRef nat

fun pool_step :: "factory \<Rightarrow> pool_op \<Rightarrow> conn_pool \<Rightarrow> conn_pool" where
  "pool_step create Borrow p = snd (borrow create p)"
| "pool_step create (Unborrow c) p = unborrow c p"
| "pool_step create (DropRef c) p = drop_ref c p"

lemma borrow_size: "borrow create p = (r, p') \<Longrightarrow> pool_size p' = pool_size p"
  by (auto simp: borrow_def pool_defs split: list.splits option.splits)

lemma pool_step_inv:
  assumes "pool_inv p"
  shows "pool_inv (pool_step create op p) \<and> pool_size (pool_step create op p) = pool_size p"
proof (cases op)
  case Borrow
  obtain r p' where b: "borrow create p = (r, p')" by force
  with Borrow show ?thesis using borrow_inv [OF assms b] borrow_size [OF b] by simp
qed (use assms in \<open>auto simp: unborrow_inv drop_ref_inv, auto simp: unborrow_def erase_borrowed_def drop_ref_def\<close>)

lemma pool_run_inv:
  "pool_inv p \<Longrightarrow> pool_inv (fold (pool_step create) ops p) \<and> pool_size (fold (pool_step create) ops p) = pool_size p"
  by (induction ops arbitrary: p) (auto simp: pool_step_inv)

text \<open>
  C31: the connection pool never loses, duplicates or over-creates a connection.  After \<open>Init\<close>
  and any history of operations, no connection is both free and lent or lent twice, free plus
  lent is exactly the configured size, and a borrow never hands out one that is still lent.
\<close>

theorem pool_conserves_connections:
  assumes "Init create n = Inr p0" and "p = fold (pool_step create) ops p0"
  shows "distinct (pool p @ borrowed p) \<and> length (pool p) + length (borrowed p) = n
    \<and> (\<forall>c p'. borrow create p = (Inr c, p') \<longrightarrow> c \<notin> set (borrowed p) \<and> c \<in> set (borrowed p'))"
proof -
  have "pool_inv p0" "pool_size p0 = n"
    using ConnectionPool_ok assms(1) by (auto simp: Init_eq_ConnectionPool)
  with pool_run_inv [of p0 create ops] have "pool_inv p" "pool_size p = n" by (auto simp: assms(2))
  then show ?thesis using borrow_fresh [of p create] borrow_lent [of create p] by (auto simp: pool_inv_def)
qed

text \<open>
  When borrowing fails.  \<open>borrow\<close> throws exactly when no connection is free and either every
  lent connection is still referred to or the replacement cannot be created, and it throws
  \<open>ConnectionUnavailable\<close>; it never returns null.
\<close>

lemma borrow_fails_iff:
  "(\<exists>p'. borrow create p = (Inl ConnectionUnavailable, p')) \<longleftrightarrow>
     pool p = [] \<and> (set (borrowed p) \<subseteq> set (ext p) \<or> (\<exists>e. create (created p) = Some e))"
  using borrow_Inl_iff [of create p] borrow_error [of create p] by (metis option.exhaust_sel option.discI)

theorem pool_conserves_connections_witness:
  "\<exists>p0. Init (\<lambda>_. None) 2 = Inr p0 \<and>
     (let p = fold (pool_step (\<lambda>_. None)) [Borrow, Borrow, DropRef 0, Borrow, Unborrow 1] p0
      in length (pool p) + length (borrowed p) = 2)"
proof -
  have "\<not> isl (Init (\<lambda>_. None) 2)" by code_simp
  then obtain p0 where "Init (\<lambda>_. None) 2 = Inr p0" by (auto simp: isl_def split: sum.splits) (metis sum.exhaust)
  with pool_conserves_connections [OF this refl, of "[Borrow, Borrow, DropRef 0, Borrow, Unborrow 1]"]
  show ?thesis unfolding Let_def by blast
qed

end
