(* ===== verification/WorkerPool.thy ===== *)
theory WorkerPool
  imports ConnPool
begin

text \<open>
  \<^verbatim>\<open>AuctionServer/AuctionWorkerPool.cpp\<close>: reader and writer workers, each an \<open>io_context\<close> (a
  queue of tasks), one thread that runs it and one database connection it keeps.

  A task works on the worker's connection and may throw: \<open>exec\<close> runs it.  The threads
  interleave at the granularity of a task; a queue belongs to one thread and the connection to
  one worker, so this is what the lock-free execution can show.  \<open>w_done\<close> records the tasks a
  worker has run, in order.
\<close>

section \<open>State\<close>

record 't worker =
  w_name :: string
  w_queue :: "'t list"
  w_guard :: bool
  w_conn :: "nat option"
  w_joinable :: bool
  w_done :: "'t list"

record ('t, 'p, 'c) worker_pool =
  wp_readers :: "'t worker list"
  wp_writers :: "'t worker list"
  wp_readRoundRobin :: uint64
  wp_driver :: bool
  wp_pool :: 'p
  wp_conns :: "nat \<Rightarrow> 'c"

text \<open>\<open>std::to_string\<close> of an index.\<close>

fun to_string :: "nat \<Rightarrow> string" where
  "to_string n = (if n < 10 then [char_of (n + 48)] else to_string (n div 10) @ [char_of (n mod 10 + 48)])"

section \<open>Start and stop\<close>

text \<open>\<open>Spawn\<close> borrows the connection before it starts the thread; the exception leaves from there.\<close>

definition Spawn ::
  "('p, nat) xm \<Rightarrow> string \<Rightarrow> (('t, 'p, 'c) worker_pool, 't worker) xm" where
  "Spawn brw name s =
     (case brw (wp_pool s) of
        (Inl e, p) \<Rightarrow> (Inl e, s\<lparr>wp_pool := p\<rparr>)
      | (Inr c, p) \<Rightarrow> (Inr \<lparr>w_name = name, w_queue = [], w_guard = True, w_conn = Some c,
             w_joinable = True, w_done = []\<rparr>, s\<lparr>wp_pool := p\<rparr>))"

fun spawn_readers :: "('p, nat) xm \<Rightarrow> nat list \<Rightarrow> (('t, 'p, 'c) worker_pool, unit) xm" where
  "spawn_readers brw [] = returnM ()"
| "spawn_readers brw (i # is) =
     bindM (Spawn brw (''auction-read-'' @ to_string i)) (\<lambda>w s.
       spawn_readers brw is (s\<lparr>wp_readers := wp_readers s @ [w]\<rparr>))"

fun spawn_writers :: "('p, nat) xm \<Rightarrow> nat list \<Rightarrow> (('t, 'p, 'c) worker_pool, unit) xm" where
  "spawn_writers brw [] = returnM ()"
| "spawn_writers brw (i # is) =
     bindM (Spawn brw (''auction-write-'' @ to_string i)) (\<lambda>w s.
       spawn_writers brw is (s\<lparr>wp_writers := wp_writers s @ [w]\<rparr>))"

definition Start :: "('p, nat) xm \<Rightarrow> nat \<Rightarrow> nat \<Rightarrow> (('t, 'p, 'c) worker_pool, unit) xm" where
  "Start brw readWorkers writeWorkers s =
     (if wp_readers s \<noteq> [] \<or> wp_writers s \<noteq> [] then (Inr (), s)
      else
       (let readWorkers = (if readWorkers = 0 then 1 else readWorkers);
            writeWorkers = (if writeWorkers = 0 then 1 else writeWorkers)
        in bindM (spawn_readers brw [0..<readWorkers])
             (\<lambda>_. spawn_writers brw [0..<writeWorkers]) (s\<lparr>wp_driver := True\<rparr>)))"

text \<open>\<open>Post\<close> wraps the task in handlers for every exception: one that throws is logged.\<close>

definition run_task :: "('t \<Rightarrow> ('c, unit) xm) \<Rightarrow> 't \<Rightarrow> 'c \<Rightarrow> 'c" where
  "run_task exec t c = snd (catchM (exec t) (\<lambda>e. returnM ()) c)"

definition run_on :: "('t \<Rightarrow> ('c, unit) xm) \<Rightarrow> 't \<Rightarrow> 't worker \<Rightarrow> (nat \<Rightarrow> 'c) \<Rightarrow> (nat \<Rightarrow> 'c)" where
  "run_on exec t w conns = (case w_conn w of None \<Rightarrow> conns
     | Some c \<Rightarrow> conns(c := run_task exec t (conns c)))"

text \<open>
  \<open>RunWorker\<close>: the thread takes the next task of its queue; with the guard gone and the queue
  empty \<open>run()\<close> returns.  \<open>drain\<close> is what remains of it once the guard is released.
\<close>

definition run_next ::
  "('t \<Rightarrow> ('c, unit) xm) \<Rightarrow> 't worker \<Rightarrow> (nat \<Rightarrow> 'c) \<Rightarrow> 't worker \<times> (nat \<Rightarrow> 'c)" where
  "run_next exec w conns = (case w_queue w of
       [] \<Rightarrow> (w, conns)
     | t # q \<Rightarrow> (w\<lparr>w_queue := q, w_done := w_done w @ [t]\<rparr>, run_on exec t w conns))"

function drain ::
  "('t \<Rightarrow> ('c, unit) xm) \<Rightarrow> 't worker \<Rightarrow> (nat \<Rightarrow> 'c) \<Rightarrow> 't worker \<times> (nat \<Rightarrow> 'c)" where
  "drain exec w conns =
     (if w_queue w = [] then (w\<lparr>w_joinable := False\<rparr>, conns)
      else (case run_next exec w conns of (w', conns') \<Rightarrow> drain exec w' conns'))"
  by pat_completeness auto
termination
  by (relation "measure (\<lambda>(exec, w, conns). length (w_queue w))")
    (auto simp: run_next_def split: list.splits)

declare drain.simps [simp del]

fun join_all ::
  "('t \<Rightarrow> ('c, unit) xm) \<Rightarrow> 't worker list \<Rightarrow> (nat \<Rightarrow> 'c) \<Rightarrow> 't worker list \<times> (nat \<Rightarrow> 'c)" where
  "join_all exec [] conns = ([], conns)"
| "join_all exec (w # ws) conns =
     (case (if w_joinable w then drain exec w conns else (w, conns)) of
        (w', conns1) \<Rightarrow> (case join_all exec ws conns1 of (ws', conns2) \<Rightarrow> (w' # ws', conns2)))"

definition return_conn :: "(nat \<Rightarrow> 'p \<Rightarrow> 'p) \<Rightarrow> 't worker \<Rightarrow> 'p \<Rightarrow> 'p" where
  "return_conn unb w p = (case w_conn w of None \<Rightarrow> p | Some c \<Rightarrow> unb c p)"

text \<open>\<open>Stop\<close> returns the joined workers too, to state what they have run.\<close>

definition Stop ::
  "(nat \<Rightarrow> 'p \<Rightarrow> 'p) \<Rightarrow> ('t \<Rightarrow> ('c, unit) xm) \<Rightarrow> ('t, 'p, 'c) worker_pool
   \<Rightarrow> 't worker list \<times> 't worker list \<times> ('t, 'p, 'c) worker_pool" where
  "Stop unb exec s =
     (let readers = map (\<lambda>w. w\<lparr>w_guard := False\<rparr>) (wp_readers s);
          writers = map (\<lambda>w. w\<lparr>w_guard := False\<rparr>) (wp_writers s);
          (readers1, conns1) = join_all exec readers (wp_conns s);
          (writers1, conns2) = join_all exec writers conns1;
          p = fold (return_conn unb) writers1 (fold (return_conn unb) readers1 (wp_pool s))
      in (readers1, writers1, s\<lparr>wp_readers := [], wp_writers := [], wp_conns := conns2, wp_pool := p\<rparr>))"

section \<open>Posting\<close>

definition Post :: "'t worker \<Rightarrow> 't \<Rightarrow> 't worker" where
  "Post w t = w\<lparr>w_queue := w_queue w @ [t]\<rparr>"

definition PostRead :: "'t \<Rightarrow> ('t, 'p, 'c) worker_pool \<Rightarrow> ('t, 'p, 'c) worker_pool" where
  "PostRead t s =
     (if wp_readers s = [] then s
      else (let index = unat (wp_readRoundRobin s) mod length (wp_readers s)
            in s\<lparr>wp_readRoundRobin := wp_readRoundRobin s + 1,
                 wp_readers := (wp_readers s)[index := Post (wp_readers s ! index) t]\<rparr>))"

definition PostWrite :: "uint64 \<Rightarrow> 't \<Rightarrow> ('t, 'p, 'c) worker_pool \<Rightarrow> ('t, 'p, 'c) worker_pool" where
  "PostWrite key t s =
     (if wp_writers s = [] then s
      else (let index = unat key mod length (wp_writers s)
            in s\<lparr>wp_writers := (wp_writers s)[index := Post (wp_writers s ! index) t]\<rparr>))"

section \<open>Runs\<close>

datatype 't wp_event = EvPostRead 't | EvPostWrite uint64 't | EvRunReader nat | EvRunWriter nat

definition run_reader ::
  "('t \<Rightarrow> ('c, unit) xm) \<Rightarrow> nat \<Rightarrow> ('t, 'p, 'c) worker_pool \<Rightarrow> ('t, 'p, 'c) worker_pool" where
  "run_reader exec i s =
     (if i < length (wp_readers s) then
        (case run_next exec (wp_readers s ! i) (wp_conns s) of (w, conns) \<Rightarrow>
           s\<lparr>wp_readers := (wp_readers s)[i := w], wp_conns := conns\<rparr>)
      else s)"

definition run_writer ::
  "('t \<Rightarrow> ('c, unit) xm) \<Rightarrow> nat \<Rightarrow> ('t, 'p, 'c) worker_pool \<Rightarrow> ('t, 'p, 'c) worker_pool" where
  "run_writer exec i s =
     (if i < length (wp_writers s) then
        (case run_next exec (wp_writers s ! i) (wp_conns s) of (w, conns) \<Rightarrow>
           s\<lparr>wp_writers := (wp_writers s)[i := w], wp_conns := conns\<rparr>)
      else s)"

fun wp_step ::
  "('t \<Rightarrow> ('c, unit) xm) \<Rightarrow> 't wp_event \<Rightarrow> ('t, 'p, 'c) worker_pool \<Rightarrow> ('t, 'p, 'c) worker_pool" where
  "wp_step exec (EvPostRead t) s = PostRead t s"
| "wp_step exec (EvPostWrite key t) s = PostWrite key t s"
| "wp_step exec (EvRunReader i) s = run_reader exec i s"
| "wp_step exec (EvRunWriter i) s = run_writer exec i s"

definition wp_run ::
  "('t \<Rightarrow> ('c, unit) xm) \<Rightarrow> 't wp_event list \<Rightarrow> ('t, 'p, 'c) worker_pool \<Rightarrow> ('t, 'p, 'c) worker_pool" where
  "wp_run exec evs s = fold (wp_step exec) evs s"

text \<open>The tasks a run hands to writer \<open>i\<close> of \<open>n\<close>, in the order they were posted.\<close>

fun writes_to :: "nat \<Rightarrow> nat \<Rightarrow> 't wp_event list \<Rightarrow> 't list" where
  "writes_to n i [] = []"
| "writes_to n i (EvPostWrite key t # evs) =
     (if unat key mod n = i then t # writes_to n i evs else writes_to n i evs)"
| "writes_to n i (_ # evs) = writes_to n i evs"

section \<open>First in, first out\<close>

definition handed :: "'t worker \<Rightarrow> 't list" where
  "handed w = w_done w @ w_queue w"

lemma run_next_handed: "handed (fst (run_next exec w conns)) = handed w"
  by (auto simp: run_next_def handed_def split: list.splits)

lemma run_next_frame:
  "w_conn (fst (run_next exec w conns)) = w_conn w"
  "w_joinable (fst (run_next exec w conns)) = w_joinable w"
  by (auto simp: run_next_def split: list.splits)

lemma Post_handed: "handed (Post w t) = handed w @ [t]"
  by (simp add: Post_def handed_def)

lemma wp_step_writers:
  "length (wp_writers (wp_step exec ev s)) = length (wp_writers s)"
  by (cases ev) (auto simp: PostRead_def PostWrite_def run_reader_def run_writer_def Let_def
      split: prod.splits)

lemma wp_step_handed:
  assumes "i < length (wp_writers s)"
  shows "handed (wp_writers (wp_step exec ev s) ! i) =
    handed (wp_writers s ! i) @ writes_to (length (wp_writers s)) i [ev]"
proof (cases ev)
  case (EvRunWriter j)
  then show ?thesis using assms run_next_handed [of exec "wp_writers s ! j" "wp_conns s"]
    by (auto simp: run_writer_def nth_list_update split: prod.splits)
qed (use assms in \<open>auto simp: PostRead_def PostWrite_def run_reader_def Let_def Post_handed
      nth_list_update split: prod.splits\<close>)

lemma writes_to_Cons: "writes_to n i (ev # evs) = writes_to n i [ev] @ writes_to n i evs"
  by (cases ev) auto

lemma wp_run_handed:
  "i < length (wp_writers s) \<Longrightarrow>
   handed (wp_writers (wp_run exec evs s) ! i) =
    handed (wp_writers s ! i) @ writes_to (length (wp_writers s)) i evs
   \<and> length (wp_writers (wp_run exec evs s)) = length (wp_writers s)"
proof (induction evs arbitrary: s)
  case Nil
  then show ?case by (simp add: wp_run_def)
next
  case (Cons ev evs)
  let ?s = "wp_step exec ev s"
  have len: "length (wp_writers ?s) = length (wp_writers s)" by (rule wp_step_writers)
  with Cons.IH [of ?s] Cons.prems wp_step_handed [OF Cons.prems, of exec ev] show ?case
    by (simp add: wp_run_def writes_to_Cons [of _ _ ev evs])
qed

text \<open>
  Per-key ordering.  However the threads interleave, what a writer has run followed by what
  waits in its queue is exactly the writes posted to it, in the order they were posted; all
  writes of one key go to one writer, so they are run one after the other in posting order.
\<close>

lemma writer_runs_in_order:
  assumes "i < length (wp_writers s)" and "handed (wp_writers s ! i) = []"
  shows "w_done (wp_writers (wp_run exec evs s) ! i) @ w_queue (wp_writers (wp_run exec evs s) ! i)
    = writes_to (length (wp_writers s)) i evs"
  using wp_run_handed [OF assms(1), of exec evs] assms(2)
  by (auto simp: handed_def)

section \<open>Stopping drains\<close>

lemma drain_effect:
  "drain exec w conns = (w', conns') \<Longrightarrow>
     w_done w' = handed w \<and> w_queue w' = [] \<and> \<not> w_joinable w' \<and> w_conn w' = w_conn w"
proof (induction exec w conns arbitrary: w' conns' rule: drain.induct)
  case (1 exec w conns)
  show ?case
  proof (cases "w_queue w")
    case Nil
    with "1.prems" show ?thesis by (auto simp: drain.simps [of exec w] handed_def)
  next
    case (Cons t q)
    obtain w1 conns1 where n: "run_next exec w conns = (w1, conns1)" by force
    with Cons "1.prems" have d: "drain exec w1 conns1 = (w', conns')"
      by (simp add: drain.simps [of exec w])
    have "w_queue w \<noteq> []" using Cons by simp
    from "1.IH" [OF this n [symmetric] d] n show ?thesis
      using run_next_handed [of exec w conns] run_next_frame [of exec w conns] by simp
  qed
qed

lemma join_all_effect:
  "join_all exec ws conns = (ws', conns') \<Longrightarrow> list_all w_joinable ws \<Longrightarrow>
     map w_done ws' = map handed ws \<and> map w_conn ws' = map w_conn ws
     \<and> list_all (\<lambda>w. w_queue w = [] \<and> \<not> w_joinable w) ws'"
proof (induction ws arbitrary: conns ws' conns')
  case Nil
  then show ?case by simp
next
  case (Cons w ws)
  obtain w1 conns1 where d: "drain exec w conns = (w1, conns1)" by force
  obtain ws1 conns2 where j: "join_all exec ws conns1 = (ws1, conns2)" by force
  from Cons.prems d j have "ws' = w1 # ws1" "conns' = conns2" by auto
  with Cons.IH [OF j] Cons.prems(2) drain_effect [OF d] show ?case by simp
qed

lemma map_guard: "map handed (map (\<lambda>w. w\<lparr>w_guard := b\<rparr>) ws) = map handed ws"
    "map w_conn (map (\<lambda>w. w\<lparr>w_guard := b\<rparr>) ws) = map w_conn ws"
  by (simp_all add: handed_def comp_def)

definition worker_conn_list :: "'t worker list \<Rightarrow> nat list" where
  "worker_conn_list ws = map the (filter (\<lambda>c. c \<noteq> None) (map w_conn ws))"

lemma fold_return_conn: "fold (return_conn unb) ws p = fold unb (worker_conn_list ws) p"
  by (induction ws arbitrary: p) (auto simp: worker_conn_list_def return_conn_def split: option.splits)

lemma worker_conn_list_cong: "map w_conn ws = map w_conn ws' \<Longrightarrow> worker_conn_list ws = worker_conn_list ws'"
  by (simp add: worker_conn_list_def)

lemma worker_conn_list_append: "worker_conn_list (ws @ ws') = worker_conn_list ws @ worker_conn_list ws'"
  by (simp add: worker_conn_list_def)

lemma Stop_effect:
  assumes "Stop unb exec s = (rs, ws, s')"
    and "list_all w_joinable (wp_readers s)" and "list_all w_joinable (wp_writers s)"
  shows "map w_done rs = map handed (wp_readers s) \<and> map w_done ws = map handed (wp_writers s)
    \<and> wp_readers s' = [] \<and> wp_writers s' = []
    \<and> wp_pool s' = fold unb (worker_conn_list (wp_readers s) @ worker_conn_list (wp_writers s)) (wp_pool s)"
proof -
  let ?g = "map (\<lambda>w. w\<lparr>w_guard := False\<rparr>)"
  obtain rs1 conns1 where jr: "join_all exec (?g (wp_readers s)) (wp_conns s) = (rs1, conns1)" by force
  obtain ws1 conns2 where jw: "join_all exec (?g (wp_writers s)) conns1 = (ws1, conns2)" by force
  have "list_all w_joinable (?g (wp_readers s))" "list_all w_joinable (?g (wp_writers s))"
    using assms(2,3) by (simp_all add: list_all_iff)
  then have eff: "map w_done rs1 = map handed (wp_readers s)" "map w_conn rs1 = map w_conn (wp_readers s)"
    "map w_done ws1 = map handed (wp_writers s)" "map w_conn ws1 = map w_conn (wp_writers s)"
    using join_all_effect [OF jr] join_all_effect [OF jw] by (simp_all only: map_guard)
  from assms(1) jr jw have "rs = rs1" "ws = ws1"
    "s' = s\<lparr>wp_readers := [], wp_writers := [], wp_conns := conns2,
       wp_pool := fold (return_conn unb) ws1 (fold (return_conn unb) rs1 (wp_pool s))\<rparr>"
    by (auto simp: Stop_def Let_def)
  then show ?thesis
    using eff worker_conn_list_cong [OF eff(2)] worker_conn_list_cong [OF eff(4)]
    by (simp add: fold_return_conn)
qed

section \<open>Starting, over the connections the pool lends\<close>

definition fresh_workers :: "'t worker list \<Rightarrow> bool" where
  "fresh_workers ws \<longleftrightarrow> list_all (\<lambda>w. w_queue w = [] \<and> w_done w = [] \<and> w_joinable w
     \<and> w_guard w \<and> w_conn w \<noteq> None) ws"

lemma fresh_workers_append: "fresh_workers (ws @ ws') = (fresh_workers ws \<and> fresh_workers ws')"
  by (simp add: fresh_workers_def)

context lender
begin

lemma Spawn_free:
  assumes "inv (wp_pool s)" and "0 < free (wp_pool s)"
  obtains c w p' where "Spawn brw name s = (Inr w, s\<lparr>wp_pool := p'\<rparr>)" "w_conn w = Some c"
    "fresh_workers [w]" "c \<notin> lent (wp_pool s)" "lent p' = insert c (lent (wp_pool s))"
    "Suc (free p') = free (wp_pool s)" "inv p'"
  using brw_free [OF assms] by (auto simp: Spawn_def fresh_workers_def)

text \<open>What spawning \<open>ws\<close> did to the connections.\<close>

definition lent_to :: "'t worker list \<Rightarrow> 'p \<Rightarrow> 'p \<Rightarrow> bool" where
  "lent_to ws p p' \<longleftrightarrow> inv p' \<and> distinct (worker_conn_list ws)
     \<and> set (worker_conn_list ws) \<inter> lent p = {} \<and> lent p' = lent p \<union> set (worker_conn_list ws)
     \<and> free p' + length ws = free p \<and> fresh_workers ws"

lemma lent_to_Nil: "inv p \<Longrightarrow> lent_to [] p p"
  by (simp add: lent_to_def worker_conn_list_def fresh_workers_def)

lemma lent_to_Cons:
  assumes "lent p1 = insert c (lent p)" "Suc (free p1) = free p" "c \<notin> lent p" "w_conn w = Some c"
    "fresh_workers [w]" "lent_to ws p1 p'"
  shows "lent_to (w # ws) p p'"
  using assms by (auto simp: lent_to_def worker_conn_list_def fresh_workers_def)

lemma lent_to_append:
  "lent_to ws p p1 \<Longrightarrow> lent_to ws' p1 p' \<Longrightarrow> lent_to (ws @ ws') p p'"
  by (auto simp: lent_to_def worker_conn_list_append fresh_workers_append)

lemma spawn_readers_ok:
  "inv (wp_pool s) \<Longrightarrow> length is \<le> free (wp_pool s) \<Longrightarrow>
   \<exists>ws p'. spawn_readers brw is s = (Inr (), s\<lparr>wp_readers := wp_readers s @ ws, wp_pool := p'\<rparr>)
     \<and> length ws = length is \<and> lent_to ws (wp_pool s) p'"
proof (induction "is" arbitrary: s)
  case Nil
  then show ?case by (intro exI [of _ "[]"] exI [of _ "wp_pool s"]) (simp add: returnM_def lent_to_Nil)
next
  case (Cons i "is")
  from Cons.prems have pos: "0 < free (wp_pool s)" by simp
  obtain c w p1 where sp: "Spawn brw (''auction-read-'' @ to_string i) s = (Inr w, s\<lparr>wp_pool := p1\<rparr>)"
    and w: "w_conn w = Some c" "fresh_workers [w]" "c \<notin> lent (wp_pool s)"
      "lent p1 = insert c (lent (wp_pool s))" "Suc (free p1) = free (wp_pool s)" "inv p1"
    by (rule Spawn_free [OF Cons.prems(1) pos])
  let ?s = "s\<lparr>wp_pool := p1, wp_readers := wp_readers s @ [w]\<rparr>"
  from Cons.IH [of ?s] w(5,6) Cons.prems(2) obtain ws p' where
    r: "spawn_readers brw is ?s = (Inr (), ?s\<lparr>wp_readers := wp_readers ?s @ ws, wp_pool := p'\<rparr>)"
    and ws: "length ws = length is" "lent_to ws p1 p'" by auto
  show ?case
    by (intro exI [of _ "w # ws"] exI [of _ p'])
      (use sp r ws(1) lent_to_Cons [OF w(4,5,3,1,2) ws(2)] in \<open>simp add: bindM_def\<close>)
qed

lemma spawn_writers_ok:
  "inv (wp_pool s) \<Longrightarrow> length is \<le> free (wp_pool s) \<Longrightarrow>
   \<exists>ws p'. spawn_writers brw is s = (Inr (), s\<lparr>wp_writers := wp_writers s @ ws, wp_pool := p'\<rparr>)
     \<and> length ws = length is \<and> lent_to ws (wp_pool s) p'"
proof (induction "is" arbitrary: s)
  case Nil
  then show ?case by (intro exI [of _ "[]"] exI [of _ "wp_pool s"]) (simp add: returnM_def lent_to_Nil)
next
  case (Cons i "is")
  from Cons.prems have pos: "0 < free (wp_pool s)" by simp
  obtain c w p1 where sp: "Spawn brw (''auction-write-'' @ to_string i) s = (Inr w, s\<lparr>wp_pool := p1\<rparr>)"
    and w: "w_conn w = Some c" "fresh_workers [w]" "c \<notin> lent (wp_pool s)"
      "lent p1 = insert c (lent (wp_pool s))" "Suc (free p1) = free (wp_pool s)" "inv p1"
    by (rule Spawn_free [OF Cons.prems(1) pos])
  let ?s = "s\<lparr>wp_pool := p1, wp_writers := wp_writers s @ [w]\<rparr>"
  from Cons.IH [of ?s] w(5,6) Cons.prems(2) obtain ws p' where
    r: "spawn_writers brw is ?s = (Inr (), ?s\<lparr>wp_writers := wp_writers ?s @ ws, wp_pool := p'\<rparr>)"
    and ws: "length ws = length is" "lent_to ws p1 p'" by auto
  show ?case
    by (intro exI [of _ "w # ws"] exI [of _ p'])
      (use sp r ws(1) lent_to_Cons [OF w(4,5,3,1,2) ws(2)] in \<open>simp add: bindM_def\<close>)
qed

lemma Start_ok:
  assumes "wp_readers s = []" "wp_writers s = []" "inv (wp_pool s)" and "max 1 r + max 1 n \<le> free (wp_pool s)"
  shows "\<exists>rs ws p'. Start brw r n s = (Inr (), s\<lparr>wp_driver := True, wp_readers := rs, wp_writers := ws, wp_pool := p'\<rparr>)
    \<and> length rs = max 1 r \<and> length ws = max 1 n \<and> lent_to (rs @ ws) (wp_pool s) p'"
proof -
  let ?r = "if r = 0 then 1 else r" and ?n = "if n = 0 then 1 else n"
  have eqs: "max 1 r = ?r" "max 1 n = ?n" by auto
  let ?s = "s\<lparr>wp_driver := True\<rparr>"
  have "?r \<le> free (wp_pool s)" using assms(4) unfolding eqs by linarith
  with spawn_readers_ok [of ?s "[0..<?r]"] assms(1,3) obtain rs p1 where
    rs: "spawn_readers brw [0..<?r] ?s = (Inr (), ?s\<lparr>wp_readers := rs, wp_pool := p1\<rparr>)"
    "length rs = ?r" "lent_to rs (wp_pool s) p1" by auto
  let ?s1 = "?s\<lparr>wp_readers := rs, wp_pool := p1\<rparr>"
  from rs(2,3) have "inv p1" "free p1 + ?r = free (wp_pool s)" by (simp_all add: lent_to_def)
  moreover have "?n \<le> free p1" using calculation(2) assms(4) unfolding eqs by linarith
  ultimately have "inv p1" "?n \<le> free p1" by simp_all
  with spawn_writers_ok [of ?s1 "[0..<?n]"] assms(2) obtain ws p' where
    ws: "spawn_writers brw [0..<?n] ?s1 = (Inr (), ?s1\<lparr>wp_writers := ws, wp_pool := p'\<rparr>)"
    "length ws = ?n" "lent_to ws p1 p'" by auto
  show ?thesis
    by (intro exI [of _ rs] exI [of _ ws] exI [of _ p'])
      (use assms(1,2) rs ws lent_to_append [OF rs(3) ws(3)] in \<open>simp add: Start_def bindM_def Let_def eqs\<close>)
qed

lemma returned:
  assumes "inv p" and "lent_to ws p p'"
  shows "lent (fold unb (worker_conn_list ws) p') = lent p
    \<and> free (fold unb (worker_conn_list ws) p') = free p"
proof -
  have "length (worker_conn_list ws) = length ws"
    using assms(2) by (induction ws) (auto simp: lent_to_def worker_conn_list_def fresh_workers_def list_all_iff
        intro!: filter_True)
  with unb_all [of p' "worker_conn_list ws"] assms show ?thesis by (auto simp: lent_to_def)
qed

end

section \<open>The life of the pool\<close>

definition new_worker_pool :: "'p \<Rightarrow> (nat \<Rightarrow> 'c) \<Rightarrow> ('t, 'p, 'c) worker_pool" where
  "new_worker_pool p conns = \<lparr>wp_readers = [], wp_writers = [], wp_readRoundRobin = 0,
     wp_driver = False, wp_pool = p, wp_conns = conns\<rparr>"

definition same_workers :: "'t worker list \<Rightarrow> 't worker list \<Rightarrow> bool" where
  "same_workers ws ws' \<longleftrightarrow> map w_conn ws' = map w_conn ws \<and> map w_joinable ws' = map w_joinable ws"

lemma same_workers_update:
  "i < length ws \<Longrightarrow> w_conn w = w_conn (ws ! i) \<Longrightarrow> w_joinable w = w_joinable (ws ! i) \<Longrightarrow>
   same_workers ws (ws[i := w])"
  by (auto simp: same_workers_def map_update list_update_same_conv)

lemma wp_step_frame:
  "same_workers (wp_readers s) (wp_readers (wp_step exec ev s))
   \<and> same_workers (wp_writers s) (wp_writers (wp_step exec ev s))
   \<and> wp_pool (wp_step exec ev s) = wp_pool s"
proof -
  have refl: "same_workers ws ws" for ws :: "'a worker list" by (simp add: same_workers_def)
  have nxt: "same_workers ws (ws[i := w])" if "run_next exec (ws ! i) conns = (w, conns')" "i < length ws"
    for ws :: "'a worker list" and i w conns conns'
    using run_next_frame [of exec "ws ! i" conns] that by (intro same_workers_update) auto
  have post: "same_workers ws (ws[i := Post (ws ! i) t])" if "i < length ws" for ws :: "'a worker list" and i t
    using that by (intro same_workers_update) (auto simp: Post_def)
  show ?thesis
  proof (cases ev)
    case (EvRunReader i)
    then show ?thesis by (auto simp: run_reader_def refl intro!: nxt split: prod.splits)
  next
    case (EvRunWriter i)
    then show ?thesis by (auto simp: run_writer_def refl intro!: nxt split: prod.splits)
  qed (auto simp: PostRead_def PostWrite_def Let_def refl intro!: post)
qed

lemma wp_run_frame:
  "same_workers (wp_readers s) (wp_readers (wp_run exec evs s))
   \<and> same_workers (wp_writers s) (wp_writers (wp_run exec evs s))
   \<and> wp_pool (wp_run exec evs s) = wp_pool s"
proof (induction evs arbitrary: s)
  case Nil
  then show ?case by (simp add: wp_run_def same_workers_def)
next
  case (Cons ev evs)
  from Cons.IH [of "wp_step exec ev s"] wp_step_frame [of s exec ev] show ?case
    by (simp add: wp_run_def same_workers_def)
qed

lemma same_workers_joinable:
  "same_workers ws ws' \<Longrightarrow> list_all w_joinable ws \<Longrightarrow> list_all w_joinable ws'"
proof -
  have eq: "list_all w_joinable xs = list_all (\<lambda>b. b) (map w_joinable xs)" for xs :: "'a worker list"
    by (simp add: list_all_iff)
  assume "same_workers ws ws'" and "list_all w_joinable ws"
  then show ?thesis unfolding eq same_workers_def by simp
qed

text \<open>Stopping after any run, when the workers hold connections of the pool \<open>p\<close>.\<close>

lemma Stop_returns:
  assumes "pool_inv p" and "borrowed p = []"
    and "worker_conns.lent_to (wp_readers s @ wp_writers s) p (wp_pool s)"
    and "Stop give_back exec (wp_run exec evs s) = (rs', ws', s')"
  shows "map w_done rs' = map handed (wp_readers (wp_run exec evs s))"
    and "map w_done ws' = map handed (wp_writers (wp_run exec evs s))"
    and "borrowed (wp_pool s') = [] \<and> length (pool (wp_pool s')) = length (pool p)"
    and "wp_readers s' = [] \<and> wp_writers s' = []"
proof -
  let ?s = "wp_run exec evs s"
  have fresh: "fresh_workers (wp_readers s)" "fresh_workers (wp_writers s)"
    using assms(3) by (auto simp: worker_conns.lent_to_def fresh_workers_append)
  note frame = wp_run_frame [of s exec evs]
  have "list_all w_joinable (wp_readers ?s)" "list_all w_joinable (wp_writers ?s)"
    using frame fresh same_workers_joinable [of "wp_readers s" "wp_readers ?s"]
      same_workers_joinable [of "wp_writers s" "wp_writers ?s"]
    by (simp_all add: fresh_workers_def list_all_iff)
  note eff = Stop_effect [OF assms(4) this]
  then show "map w_done rs' = map handed (wp_readers ?s)" "map w_done ws' = map handed (wp_writers ?s)"
    "wp_readers s' = [] \<and> wp_writers s' = []" by simp_all
  have "wp_pool s' = fold give_back (worker_conn_list (wp_readers s @ wp_writers s)) (wp_pool s)"
    using eff frame by (simp add: worker_conn_list_append same_workers_def worker_conn_list_def)
  with worker_conns.returned [OF assms(1,3)] assms(2)
  show "borrowed (wp_pool s') = [] \<and> length (pool (wp_pool s')) = length (pool p)" by auto
qed

lemma Init_full:
  assumes "Init create n = Inr p"
  shows "pool_inv p \<and> length (pool p) = n \<and> borrowed p = []"
proof -
  have "pool_inv p" "length (pool p) = n" "pool_size p = n"
    using ConnectionPool_ok assms by (auto simp: Init_eq_ConnectionPool)
  then show ?thesis by (simp add: pool_inv_def)
qed

lemma Start_new:
  fixes conns :: "nat \<Rightarrow> 'c"
  assumes "Init create n = Inr p" and "max 1 r + max 1 w \<le> n"
  obtains s :: "('t, conn_pool, 'c) worker_pool" where "Start (borrow create) r w (new_worker_pool p conns) = (Inr (), s)"
    and "length (wp_readers s) = max 1 r" and "length (wp_writers s) = max 1 w"
    and "worker_conns.lent_to (wp_readers s @ wp_writers s) p (wp_pool s)"
proof -
  let ?s0 = "new_worker_pool p conns :: ('t, conn_pool, 'c) worker_pool"
  have new: "wp_readers ?s0 = []" "wp_writers ?s0 = []" "wp_pool ?s0 = p"
    by (simp_all add: new_worker_pool_def)
  from worker_conns.Start_ok [OF new(1,2), of r w create] Init_full [OF assms(1)] assms(2) obtain rs ws p' where
    "Start (borrow create) r w ?s0 = (Inr (), ?s0\<lparr>wp_driver := True, wp_readers := rs, wp_writers := ws, wp_pool := p'\<rparr>)"
    "length rs = max 1 r" "length ws = max 1 w" "worker_conns.lent_to (rs @ ws) p p'"
    by (auto simp: new)
  then show thesis by (intro that) auto
qed

text \<open>
  The life of the worker pool.  If the connection pool was initialised with enough
  connections, \<open>Start\<close> succeeds with one connection per worker, no two sharing one; whatever is
  posted and however the threads interleave, \<open>Stop\<close> finishes every task, each writer in the
  order its tasks were posted, and every connection is back in the pool.
\<close>

lemma worker_pool_life:
  fixes exec :: "'t \<Rightarrow> ('c, unit) xm"
  assumes "Init create n = Inr p" and "max 1 r + max 1 w \<le> n"
  shows "\<exists>s. Start (borrow create) r w (new_worker_pool p conns) = (Inr (), s)
    \<and> distinct (worker_conn_list (wp_readers s @ wp_writers s))
    \<and> length (worker_conn_list (wp_readers s @ wp_writers s)) = max 1 r + max 1 w
    \<and> (case Stop give_back exec (wp_run exec evs s) of (rs, ws, s') \<Rightarrow>
         length ws = max 1 w \<and> (\<forall>i < max 1 w. w_done (ws ! i) = writes_to (max 1 w) i evs)
         \<and> borrowed (wp_pool s') = [] \<and> length (pool (wp_pool s')) = n
         \<and> wp_readers s' = [] \<and> wp_writers s' = [])"
proof -
  obtain s :: "('t, conn_pool, 'c) worker_pool" where
    start: "Start (borrow create) r w (new_worker_pool p conns) = (Inr (), s)"
    and len: "length (wp_readers s) = max 1 r" "length (wp_writers s) = max 1 w"
    and lt: "worker_conns.lent_to (wp_readers s @ wp_writers s) p (wp_pool s)"
    by (rule Start_new [OF assms, of conns])
  note p = Init_full [OF assms(1)]
  obtain rs' ws' s' where stop: "Stop give_back exec (wp_run exec evs s) = (rs', ws', s')"
    by (cases "Stop give_back exec (wp_run exec evs s)")
  note R = Stop_returns [OF p [THEN conjunct1] _ lt stop] p
  have fresh: "fresh_workers (wp_readers s @ wp_writers s)" using lt by (simp add: worker_conns.lent_to_def)
  then have conns: "length (worker_conn_list (wp_readers s @ wp_writers s)) = length (wp_readers s @ wp_writers s)"
    by (auto simp: worker_conn_list_def fresh_workers_def list_all_iff filter_True)
  have len': "length ws' = max 1 w"
    using R(2) p len(2) wp_run_frame [of s exec evs] by (metis length_map same_workers_def)
  have "w_done (ws' ! i) = writes_to (max 1 w) i evs" if i: "i < max 1 w" for i
  proof -
    have "w_done (ws' ! i) = handed (wp_writers (wp_run exec evs s) ! i)"
      using R(2) p i len' by (metis length_map nth_map)
    moreover have "handed (wp_writers s ! i) = []"
      using fresh nth_mem [of i "wp_writers s"] i len(2)
      by (auto simp: fresh_workers_append fresh_workers_def list_all_iff handed_def)
    ultimately show ?thesis using wp_run_handed [of i s exec evs] i len(2) by simp
  qed
  with start stop len len' R p conns lt show ?thesis
    by (intro exI [of _ s]) (simp add: worker_conns.lent_to_def)
qed

text \<open>The values \<^verbatim>\<open>AuctionServer.cpp\<close> uses: 1 reader, 20 writers, 2 spare connections.\<close>

definition kReadWorkers :: nat where "kReadWorkers = 1"
definition kWriteWorkers :: nat where "kWriteWorkers = 20"
definition kSpareConns :: nat where "kSpareConns = 2"
definition auction_pool_size :: nat where "auction_pool_size = kReadWorkers + kWriteWorkers + kSpareConns"

lemma fill_pool_all:
  "length (pool p) \<le> pool_size p \<Longrightarrow> \<exists>p'. fill_pool (\<lambda>_. None) p = (Inr (), p')"
proof (induction "pool_size p - length (pool p)" arbitrary: p)
  case 0
  then show ?case by (simp add: fill_pool_full)
next
  case (Suc k)
  let ?p = "p\<lparr>created := Suc (created p), pool := pool p @ [created p]\<rparr>"
  from Suc.hyps(2) have "k = pool_size ?p - length (pool ?p)" "length (pool ?p) \<le> pool_size ?p"
    "length (pool p) < pool_size p" by auto
  with Suc.hyps(1) [of ?p] show ?case
    by (simp add: fill_pool.simps [of _ p] factory_create_def)
qed

lemma Init_all: "\<exists>p. Init (\<lambda>_. None) n = Inr p"
  using fill_pool_all [of "\<lparr>pool_size = n, pool = [], borrowed = [], ext = [], created = 0\<rparr>"]
  by (auto simp: Init_eq_ConnectionPool ConnectionPool_def)

lemma worker_pool_life_witness:
  "\<exists>p s. Init (\<lambda>_. None) auction_pool_size = Inr p
    \<and> Start (borrow (\<lambda>_. None)) kReadWorkers kWriteWorkers (new_worker_pool p (\<lambda>_. 0 :: nat)) = (Inr (), s)
    \<and> (case Stop give_back (\<lambda>t c. (Inr (), c + t)) (wp_run (\<lambda>t c. (Inr (), c + t))
          [EvPostWrite 3 (10 :: nat), EvPostRead 5, EvPostWrite 23 11, EvRunWriter 3] s) of (rs, ws, s') \<Rightarrow>
         w_done (ws ! 3) = [10, 11] \<and> length (pool (wp_pool s')) = 23)"
proof -
  obtain p where "Init (\<lambda>_. None) auction_pool_size = Inr p" using Init_all by blast
  with worker_pool_life [OF this, where r = kReadWorkers and w = kWriteWorkers
      and conns = "\<lambda>_. 0 :: nat" and exec = "\<lambda>t c. (Inr (), c + t)"
      and evs = "[EvPostWrite 3 (10 :: nat), EvPostRead 5, EvPostWrite 23 11, EvRunWriter 3]"]
  show ?thesis
    by (fastforce simp: auction_pool_size_def kReadWorkers_def kWriteWorkers_def kSpareConns_def)
qed

lemma writer_runs_in_order_witness:
  "(let w = \<lparr>w_name = ''w'', w_queue = [], w_guard = True, w_conn = Some 0, w_joinable = True, w_done = []\<rparr>;
        s = (new_worker_pool () (\<lambda>_. 0 :: nat))\<lparr>wp_writers := [w, w]\<rparr>;
        s' = wp_run (\<lambda>t c. (Inl ConnectionUnavailable, c + t))
               [EvPostWrite 6 (1 :: nat), EvPostWrite 3 9, EvRunWriter 0, EvPostWrite 4 2] s
    in w_done (wp_writers s' ! 0) @ w_queue (wp_writers s' ! 0) = [1, 2])"
proof -
  define w :: "nat worker" where "w = \<lparr>w_name = ''w'', w_queue = [], w_guard = True, w_conn = Some 0,
    w_joinable = True, w_done = []\<rparr>"
  define s where "s = (new_worker_pool () (\<lambda>_. 0 :: nat))\<lparr>wp_writers := [w, w]\<rparr>"
  have "0 < length (wp_writers s)" "handed (wp_writers s ! 0) = []"
    by (simp_all add: s_def w_def handed_def)
  from writer_runs_in_order [OF this, of "\<lambda>t c. (Inl ConnectionUnavailable, c + t)"
      "[EvPostWrite 6 (1 :: nat), EvPostWrite 3 9, EvRunWriter 0, EvPostWrite 4 2]"]
  moreover have "length (wp_writers s) = 2" by (simp add: s_def)
  ultimately show ?thesis by (simp add: Let_def s_def [symmetric] w_def [symmetric])
qed

end
