(* ===== verification/SqlDb.thy ===== *)
theory SqlDb
  imports J1_Prelude
begin

text \<open>
  The database side of the servers: the tables the SQL statements of the source name, a
  connection with its transaction state, and \<^verbatim>\<open>ServerCore/SqlUtils.h\<close> (parameter binding,
  \<open>executeQuery\<close>, \<open>executeUpdate\<close>, \<open>executeUpdate_GenKeys\<close>) with
  \<^verbatim>\<open>ServerCore/DB/MySQLConnection.h\<close>'s \<open>SetAutoCommit\<close>, \<open>Commit\<close> and \<open>Rollback\<close>.

  MySQL and its connector are not part of the repository.  Every call to them may throw: the
  fault oracle \<open>cn_fault\<close> decides, per call and kind of call, whether it throws and with which
  error number, and every theorem quantifies over it.  A call that throws changes nothing.
  \<open>cn_clock\<close> gives the server's clock (\<open>NOW()\<close>, in seconds) at each call.  \<open>cn_found_rows\<close> is
  the connection option that decides whether an \<open>UPDATE\<close> reports the rows it matched or, the
  server's default, the rows it changed.  Turning autocommit on while a transaction is open
  commits it, as MySQL documents.

  A connection sees the committed tables and its own transaction's changes (\<open>cn_work\<close>);
  transactions of other connections are serialised before or after it.
\<close>

section \<open>Tables\<close>

record listing =
  li_listing_id :: int
  li_seller_id :: int
  li_item_id :: int
  li_remaining_quantity :: int
  li_price :: int
  li_expired_at :: int

record auction_transaction =
  tr_item_id :: int
  tr_quantity :: int
  tr_total_price :: int

record receipt =
  re_receipt_id :: int
  re_owner_player_id :: int
  re_receipt_type :: int
  re_gold_amount :: "int option"
  re_item_id :: "int option"
  re_quantity :: "int option"
  re_source_listing_id :: int

record character_base =
  cb_character_id :: int
  cb_account_id :: int
  cb_slot_index :: int
  cb_nickname :: string
  cb_class_type :: int
  cb_level :: int
  cb_gold :: int

record character_skin =
  cs_character_id :: int
  cs_upper_skin :: int
  cs_lower_skin :: int
  cs_weapon_skin :: int

record account =
  ac_account_id :: int
  ac_user_id :: string
  ac_user_password :: string
  ac_created_at :: int
  ac_is_active :: bool
  ac_last_login :: "int option"

record login_session =
  se_account_id :: int
  se_token :: string
  se_expires_at :: int

record db =
  auction_listings :: "listing list"
  auction_transactions :: "auction_transaction list"
  auction_receipts :: "receipt list"
  character_bases :: "character_base list"
  character_combats :: "int list"
  character_skins :: "character_skin list"
  character_inventories :: "int list"
  accounts :: "account list"
  sessions :: "login_session list"

text \<open>\<open>AUTO_INCREMENT\<close> counters are not rolled back, so they are kept beside the tables.\<close>

record autoinc =
  next_listing_id :: int
  next_receipt_id :: int
  next_character_id :: int
  next_account_id :: int

section \<open>Statements\<close>

datatype sql_value =
    SqlUInt64 uint64 | SqlInt64 int64 | SqlUInt uint32 | SqlInt int32
  | SqlString string | SqlDouble int64 | SqlBoolean bool

text \<open>
  A statement is the number of its placeholders and what it does with their values: an update
  gets the row-count option, the clock, the counters and the tables, and returns the number of
  affected rows, the generated key, the counters and the tables.
\<close>

type_synonym update_stmt = "nat \<times> (bool \<Rightarrow> int \<Rightarrow> sql_value list \<Rightarrow> autoinc \<Rightarrow> db \<Rightarrow>
  (nat \<times> int option \<times> autoinc \<times> db) option)"

type_synonym 'r query_stmt = "nat \<times> (int \<Rightarrow> sql_value list \<Rightarrow> db \<Rightarrow> 'r list option)"

section \<open>Rows\<close>

text \<open>
  \<open>ResultSet::getInt\<close> and \<open>getInt64\<close> give a column as a 32-bit or 64-bit integer (and 0 for
  \<open>NULL\<close>); a column outside the range of the type is cut to it.
\<close>

definition getInt :: "int \<Rightarrow> int32" where
  "getInt v = word_of_int v"

definition getInt64 :: "int \<Rightarrow> int64" where
  "getInt64 v = word_of_int v"

definition getIntNull :: "int option \<Rightarrow> int32" where
  "getIntNull v = (case v of None \<Rightarrow> 0 | Some i \<Rightarrow> getInt i)"

text \<open>\<open>UPDATE\<close> on a table: the rows that match are rewritten; what counts is the option's choice.\<close>

definition update_rows :: "bool \<Rightarrow> ('r \<Rightarrow> bool) \<Rightarrow> ('r \<Rightarrow> 'r) \<Rightarrow> 'r list \<Rightarrow> nat \<times> 'r list" where
  "update_rows found_rows hit f rows =
     (length (filter (\<lambda>r. hit r \<and> (found_rows \<or> f r \<noteq> r)) rows),
      map (\<lambda>r. if hit r then f r else r) rows)"

definition delete_rows :: "('r \<Rightarrow> bool) \<Rightarrow> 'r list \<Rightarrow> nat \<times> 'r list" where
  "delete_rows hit rows = (length (filter hit rows), filter (\<lambda>r. \<not> hit r) rows)"

section \<open>Connections\<close>

datatype dbop = OpSetSchema | OpPrepare | OpBind | OpExecute | OpFetch
  | OpSetAutoCommit bool | OpCommit | OpRollback

record conn =
  cn_autocommit :: bool
  cn_committed :: db
  cn_work :: db
  cn_autoinc :: autoinc
  cn_last_id :: int
  cn_tick :: nat
  cn_fault :: "nat \<Rightarrow> dbop \<Rightarrow> int option"
  cn_clock :: "nat \<Rightarrow> int"
  cn_found_rows :: bool

definition db_step :: "dbop \<Rightarrow> (conn, int) xm" where
  "db_step op c =
     (let c' = c\<lparr>cn_tick := Suc (cn_tick c)\<rparr>
      in case cn_fault c (cn_tick c) op of
           Some code \<Rightarrow> (Inl (SQLException code ''server''), c')
         | None \<Rightarrow> (Inr (cn_clock c (cn_tick c)), c'))"

definition SetAutoCommit :: "bool \<Rightarrow> (conn, unit) xm" where
  "SetAutoCommit start = bindM (db_step (OpSetAutoCommit start)) (\<lambda>_ c.
     (Inr (), c\<lparr>cn_committed := (if start then cn_work c else cn_committed c),
                cn_autocommit := start\<rparr>))"

definition Commit :: "(conn, unit) xm" where
  "Commit = bindM (db_step OpCommit) (\<lambda>_ c. (Inr (), c\<lparr>cn_committed := cn_work c\<rparr>))"

definition Rollback :: "(conn, unit) xm" where
  "Rollback = bindM (db_step OpRollback) (\<lambda>_ c. (Inr (), c\<lparr>cn_work := cn_committed c\<rparr>))"

section \<open>SqlUtils: binding\<close>

text \<open>
  The C++ argument types \<open>bindParam\<close> tells apart.  A type in none of its branches
  (\<open>ArgOther\<close>) compiles and binds nothing.
\<close>

datatype cpp_arg =
    ArgUInt64 uint64 | ArgInt64 int64 | ArgUInt32 uint32 | ArgInt32 int32
  | ArgString string | ArgDouble int64 | ArgBool bool | ArgOther

type_synonym params = "nat \<Rightarrow> sql_value option"

definition set_param :: "nat \<Rightarrow> nat \<Rightarrow> sql_value \<Rightarrow> params \<Rightarrow> (conn, params) xm" where
  "set_param n index v ps =
     (if index < 1 \<or> n < index then throwM (SQLException 0 ''invalid parameter index'')
      else bindM (db_step OpBind) (\<lambda>_. returnM (ps(index \<mapsto> v))))"

fun bindParam :: "nat \<Rightarrow> nat \<Rightarrow> cpp_arg \<Rightarrow> params \<Rightarrow> (conn, params) xm" where
  "bindParam n index (ArgUInt64 v) ps = set_param n index (SqlUInt64 v) ps"
| "bindParam n index (ArgInt64 v) ps = set_param n index (SqlInt64 v) ps"
| "bindParam n index (ArgUInt32 v) ps = set_param n index (SqlUInt v) ps"
| "bindParam n index (ArgInt32 v) ps = set_param n index (SqlInt v) ps"
| "bindParam n index (ArgString v) ps = set_param n index (SqlString v) ps"
| "bindParam n index (ArgDouble v) ps = set_param n index (SqlDouble v) ps"
| "bindParam n index (ArgBool v) ps = set_param n index (SqlBoolean v) ps"
| "bindParam n index ArgOther ps = returnM ps"

fun bindParams :: "nat \<Rightarrow> nat \<Rightarrow> cpp_arg list \<Rightarrow> params \<Rightarrow> (conn, params) xm" where
  "bindParams n index [] ps = returnM ps"
| "bindParams n index (v # args) ps =
     bindM (bindParam n index v ps) (bindParams n (index + 1) args)"

text \<open>Executing a statement with an unbound placeholder throws.\<close>

definition bound_values :: "nat \<Rightarrow> params \<Rightarrow> sql_value list option" where
  "bound_values n ps =
     (if list_all (\<lambda>i. ps i \<noteq> None) [1..<Suc n] then Some (map (\<lambda>i. the (ps i)) [1..<Suc n]) else None)"

section \<open>SqlUtils: execution\<close>

definition run_query :: "'r query_stmt \<Rightarrow> params \<Rightarrow> (conn, 'r list) xm" where
  "run_query q ps = bindM (db_step OpExecute) (\<lambda>now c.
     case bound_values (fst q) ps of
       None \<Rightarrow> (Inl (SQLException 0 ''value not set for all parameters''), c)
     | Some vs \<Rightarrow> (case snd q now vs (cn_work c) of
           None \<Rightarrow> (Inl (SQLException 0 ''bad parameter type''), c)
         | Some rows \<Rightarrow> (Inr rows, c)))"

definition apply_update ::
  "int \<Rightarrow> int option \<Rightarrow> autoinc \<Rightarrow> db \<Rightarrow> conn \<Rightarrow> conn" where
  "apply_update k gen ai d c = c\<lparr>cn_work := d, cn_autoinc := ai,
     cn_last_id := (case gen of None \<Rightarrow> cn_last_id c | Some i \<Rightarrow> i),
     cn_committed := (if cn_autocommit c then d else cn_committed c)\<rparr>"

definition run_update :: "update_stmt \<Rightarrow> params \<Rightarrow> (conn, int) xm" where
  "run_update q ps = bindM (db_step OpExecute) (\<lambda>now c.
     case bound_values (fst q) ps of
       None \<Rightarrow> (Inl (SQLException 0 ''value not set for all parameters''), c)
     | Some vs \<Rightarrow> (case snd q (cn_found_rows c) now vs (cn_autoinc c) (cn_work c) of
           None \<Rightarrow> (Inl (SQLException 0 ''bad parameter type''), c)
         | Some (k, gen, ai, d) \<Rightarrow> (Inr (int k), apply_update (int k) gen ai d c)))"

text \<open>The part the three functions share: choose the schema, prepare, bind.\<close>

definition prepare_and_bind :: "nat \<Rightarrow> cpp_arg list \<Rightarrow> (conn, params) xm" where
  "prepare_and_bind n args =
     bindM (db_step OpSetSchema) (\<lambda>_.
     bindM (db_step OpPrepare) (\<lambda>_. bindParams n 1 args Map.empty))"

definition executeQuery :: "'r query_stmt \<Rightarrow> cpp_arg list \<Rightarrow> (conn, 'r list) xm" where
  "executeQuery q args = bindM (prepare_and_bind (fst q) args) (run_query q)"

definition executeUpdate :: "update_stmt \<Rightarrow> cpp_arg list \<Rightarrow> (conn, int) xm" where
  "executeUpdate q args = bindM (prepare_and_bind (fst q) args) (run_update q)"

text \<open>
  \<open>SELECT LAST_INSERT_ID()\<close> returns one row, the connection's last generated key, and
  \<open>getInt\<close> reads it as a 32-bit integer.
\<close>

definition executeUpdate_GenKeys :: "update_stmt \<Rightarrow> cpp_arg list \<Rightarrow> (conn, int32) xm" where
  "executeUpdate_GenKeys q args =
     bindM (executeUpdate q args) (\<lambda>_.
     bindM (db_step OpPrepare) (\<lambda>_.
     bindM (db_step OpExecute) (\<lambda>_ c. (Inr (word_of_int (cn_last_id c)), c))))"

section \<open>What the calls do\<close>

lemma wp_db_step [wp_rules]:
  "wp (db_step op) Q E c =
     (let c' = c\<lparr>cn_tick := Suc (cn_tick c)\<rparr>
      in case cn_fault c (cn_tick c) op of
           Some code \<Rightarrow> E (SQLException code ''server'') c'
         | None \<Rightarrow> Q (cn_clock c (cn_tick c)) c')"
  by (simp add: wp_def db_step_def Let_def split: option.splits)

text \<open>The value a C++ argument is bound as.\<close>

fun arg_value :: "cpp_arg \<Rightarrow> sql_value option" where
  "arg_value (ArgUInt64 v) = Some (SqlUInt64 v)"
| "arg_value (ArgInt64 v) = Some (SqlInt64 v)"
| "arg_value (ArgUInt32 v) = Some (SqlUInt v)"
| "arg_value (ArgInt32 v) = Some (SqlInt v)"
| "arg_value (ArgString v) = Some (SqlString v)"
| "arg_value (ArgDouble v) = Some (SqlDouble v)"
| "arg_value (ArgBool v) = Some (SqlBoolean v)"
| "arg_value ArgOther = None"

text \<open>Two connections that differ in the call counter only.\<close>

definition ticked :: "conn \<Rightarrow> conn \<Rightarrow> bool" where
  "ticked c c' \<longleftrightarrow> (\<exists>t. c' = c\<lparr>cn_tick := t\<rparr>)"

lemma ticked_refl [simp]: "ticked c c"
  by (auto simp: ticked_def intro: exI [of _ "cn_tick c"])

lemma ticked_trans: "ticked a b \<Longrightarrow> ticked b c \<Longrightarrow> ticked a c"
  by (auto simp: ticked_def)

lemma ticked_upd [simp]: "ticked c (c\<lparr>cn_tick := t\<rparr>)"
  by (auto simp: ticked_def)

lemma tickedD:
  assumes "ticked c c'"
  shows "cn_autocommit c' = cn_autocommit c" "cn_committed c' = cn_committed c"
    "cn_work c' = cn_work c" "cn_autoinc c' = cn_autoinc c" "cn_last_id c' = cn_last_id c"
    "cn_fault c' = cn_fault c" "cn_clock c' = cn_clock c" "cn_found_rows c' = cn_found_rows c"
  using assms by (auto simp: ticked_def)

lemma db_step_ticked: "db_step op c = (r, c') \<Longrightarrow> ticked c c'"
  by (auto simp: db_step_def Let_def split: option.splits)

definition is_sql :: "exn \<Rightarrow> bool" where
  "is_sql e \<longleftrightarrow> (\<exists>code what. e = SQLException code what)"

lemma is_sql_code [code]:
  "is_sql (SQLException code what) = True"
  "is_sql ConnectionUnavailable = False"
  "is_sql (StdException what) = False"
  by (simp_all add: is_sql_def)

lemma db_step_Inl: "db_step op c = (Inl e, c') \<Longrightarrow> is_sql e"
  by (auto simp: db_step_def is_sql_def Let_def split: option.splits)

lemma bindParam_outcome:
  "bindParam n i a ps c = (r, c') \<Longrightarrow> ticked c c' \<and>
     (case r of Inl e \<Rightarrow> is_sql e
      | Inr ps' \<Rightarrow> (case arg_value a of None \<Rightarrow> ps' = ps | Some v \<Rightarrow> ps' = ps(i \<mapsto> v) \<and> 1 \<le> i \<and> i \<le> n))"
  by (cases a)
    (auto simp: set_param_def bindM_def throwM_def returnM_def is_sql_def
      dest: db_step_ticked db_step_Inl split: if_splits prod.splits sum.splits)

lemma bindParams_outcome:
  "bindParams n i args ps c = (r, c') \<Longrightarrow> ticked c c' \<and>
     (case r of Inl e \<Rightarrow> is_sql e
      | Inr ps' \<Rightarrow> (\<forall>j < length args. ps' (i + j) =
            (case arg_value (args ! j) of None \<Rightarrow> ps (i + j) | Some v \<Rightarrow> Some v))
          \<and> (\<forall>j. j < i \<or> i + length args \<le> j \<longrightarrow> ps' j = ps j))"
proof (induction args arbitrary: i ps c)
  case Nil
  then show ?case by (auto simp: returnM_def)
next
  case (Cons a args)
  obtain r1 c1 where b: "bindParam n i a ps c = (r1, c1)" by force
  show ?case
  proof (cases r1)
    case (Inl e)
    with Cons.prems b bindParam_outcome [OF b] show ?thesis
      by (auto simp: bindM_def)
  next
    case (Inr ps1)
    with Cons.prems b have rest: "bindParams n (i + 1) args ps1 c1 = (r, c')"
      by (simp add: bindM_def)
    note IH = Cons.IH [OF rest]
    note B = bindParam_outcome [OF b]
    have tick: "ticked c c'" using IH B ticked_trans by blast
    show ?thesis
    proof (cases r)
      case (Inl e)
      with IH tick show ?thesis by simp
    next
      case r: (Inr ps')
      have ps1: "ps1 j = ps j" if "j \<noteq> i" for j
        using B Inr that by (auto split: option.splits)
      have ps1i: "ps1 i = (case arg_value a of None \<Rightarrow> ps i | Some v \<Rightarrow> Some v)"
        using B Inr by (auto split: option.splits)
      from IH r have at: "\<And>j. j < length args \<Longrightarrow> ps' (i + 1 + j) =
          (case arg_value (args ! j) of None \<Rightarrow> ps1 (i + 1 + j) | Some v \<Rightarrow> Some v)"
        and off: "\<And>j. j < i + 1 \<or> i + 1 + length args \<le> j \<Longrightarrow> ps' j = ps1 j"
        by auto
      have "ps' (i + j) = (case arg_value ((a # args) ! j) of None \<Rightarrow> ps (i + j) | Some v \<Rightarrow> Some v)"
        if "j < length (a # args)" for j
      proof (cases j)
        case 0
        with off [of i] ps1i show ?thesis by (auto split: option.splits)
      next
        case (Suc k)
        then show ?thesis using at [of k] that ps1 [of "i + j"] by (auto split: option.splits)
      qed
      moreover have "ps' j = ps j" if "j < i \<or> i + length (a # args) \<le> j" for j
        using off [of j] ps1 [of j] that by auto
      ultimately show ?thesis using tick r by simp
    qed
  qed
qed

text \<open>
  With as many arguments as placeholders, all of types \<open>bindParam\<close> knows, every placeholder is
  bound to its argument.
\<close>

lemma bindParams_bound_values:
  assumes "bindParams (length args) 1 args Map.empty c = (Inr ps, c')"
    and "list_all (\<lambda>a. arg_value a \<noteq> None) args"
  shows "bound_values (length args) ps = Some (map (the \<circ> arg_value) args)"
proof -
  have at: "ps (1 + j) = arg_value (args ! j)" if "j < length args" for j
    using bindParams_outcome [OF assms(1)] assms(2) that
    by (auto simp: list_all_length split: option.splits)
  have all: "list_all (\<lambda>i. ps i \<noteq> None) [1..<Suc (length args)]"
  proof (simp only: list_all_iff, intro ballI)
    fix i assume "i \<in> set [1..<Suc (length args)]"
    then have i: "1 \<le> i" "i - 1 < length args" by auto
    with at [of "i - 1"] assms(2) show "ps i \<noteq> None" by (auto simp: list_all_length)
  qed
  moreover have "map (\<lambda>i. the (ps i)) [1..<Suc (length args)] = map (the \<circ> arg_value) args"
    by (rule nth_equalityI) (use at in \<open>auto simp del: upt_Suc\<close>)
  ultimately show ?thesis by (simp add: bound_values_def)
qed

section \<open>Outcomes of executeQuery and executeUpdate\<close>

abbreviation values_of :: "cpp_arg list \<Rightarrow> sql_value list" where
  "values_of args \<equiv> map (the \<circ> arg_value) args"

definition well_bound :: "nat \<times> 'f \<Rightarrow> cpp_arg list \<Rightarrow> bool" where
  "well_bound q args \<longleftrightarrow> fst q = length args \<and> list_all (\<lambda>a. arg_value a \<noteq> None) args"

lemma prepare_and_bind_outcome:
  assumes "prepare_and_bind n args c = (r, c')" and "well_bound (n, q) args"
  shows "ticked c c' \<and> (case r of Inl e \<Rightarrow> is_sql e
    | Inr ps \<Rightarrow> bound_values n ps = Some (values_of args))"
proof -
  obtain r1 c1 where s1: "db_step OpSetSchema c = (r1, c1)" by force
  obtain r2 c2 where s2: "db_step OpPrepare c1 = (r2, c2)" by force
  obtain r3 c3 where s3: "bindParams n 1 args Map.empty c2 = (r3, c3)" by force
  have t1: "ticked c c1" using s1 by (rule db_step_ticked)
  have t2: "ticked c c2" using t1 db_step_ticked [OF s2] by (rule ticked_trans)
  have t3: "ticked c c3" using t2 bindParams_outcome [OF s3] by (blast intro: ticked_trans)
  show ?thesis
  proof (cases r1)
    case (Inl e)
    with assms(1) s1 t1 show ?thesis
      by (auto simp: prepare_and_bind_def bindM_def dest: db_step_Inl)
  next
    case r1: (Inr x)
    show ?thesis
    proof (cases r2)
      case (Inl e)
      with assms(1) s1 s2 r1 t2 show ?thesis
        by (auto simp: prepare_and_bind_def bindM_def dest: db_step_Inl)
    next
      case (Inr y)
      then have eq: "r = r3" "c' = c3"
        using assms(1) s1 s2 s3 r1 by (simp_all add: prepare_and_bind_def bindM_def)
      show ?thesis
      proof (cases r3)
        case (Inl e)
        with t3 bindParams_outcome [OF s3] show ?thesis by (simp add: eq)
      next
        case (Inr ps)
        with t3 s3 assms(2) bindParams_bound_values [of args c2 ps c3] show ?thesis
          by (simp add: eq well_bound_def)
      qed
    qed
  qed
qed

lemma run_query_outcome:
  assumes "run_query q ps c = (r, c')" and "bound_values (fst q) ps = Some vs"
  shows "ticked c c' \<and> (case r of Inl e \<Rightarrow> is_sql e
    | Inr rows \<Rightarrow> (\<exists>t. snd q (cn_clock c t) vs (cn_work c) = Some rows))"
  using assms
  by (auto simp: run_query_def bindM_def db_step_def Let_def is_sql_def
      split: option.splits prod.splits sum.splits)

lemma run_update_outcome:
  assumes "run_update q ps c = (r, c')" and "bound_values (fst q) ps = Some vs"
  shows "(\<exists>e. r = Inl e \<and> is_sql e \<and> ticked c c')
    \<or> (\<exists>k gen ai d t t'. r = Inr (int k)
        \<and> snd q (cn_found_rows c) (cn_clock c t) vs (cn_autoinc c) (cn_work c)
            = Some (k, gen, ai, d)
        \<and> c' = apply_update (int k) gen ai d (c\<lparr>cn_tick := t'\<rparr>))"
proof (cases r)
  case (Inl e)
  with assms show ?thesis
    by (auto simp: run_update_def bindM_def db_step_def Let_def is_sql_def
        split: option.splits prod.splits sum.splits)
next
  case (Inr n)
  with assms obtain k gen ai d where
    "snd q (cn_found_rows c) (cn_clock c (cn_tick c)) vs (cn_autoinc c) (cn_work c)
        = Some (k, gen, ai, d)"
    and "n = int k" and "c' = apply_update (int k) gen ai d (c\<lparr>cn_tick := Suc (cn_tick c)\<rparr>)"
    by (auto simp: run_update_def bindM_def db_step_def Let_def
        split: option.splits prod.splits sum.splits)
  with Inr show ?thesis by blast
qed

lemma executeQuery_outcome:
  assumes "executeQuery q args c = (r, c')" and "well_bound q args"
  shows "ticked c c' \<and> (case r of Inl e \<Rightarrow> is_sql e
    | Inr rows \<Rightarrow> (\<exists>t. snd q (cn_clock c t) (values_of args) (cn_work c) = Some rows))"
proof -
  obtain r1 c1 where s: "prepare_and_bind (fst q) args c = (r1, c1)" by force
  have P: "ticked c c1 \<and> (case r1 of Inl e \<Rightarrow> is_sql e
      | Inr ps \<Rightarrow> bound_values (fst q) ps = Some (values_of args))"
    by (rule prepare_and_bind_outcome [OF s, of "snd q"]) (use assms(2) in simp)
  show ?thesis
  proof (cases r1)
    case (Inl e)
    with s assms(1) P show ?thesis by (auto simp: executeQuery_def bindM_def)
  next
    case (Inr ps)
    then have run: "run_query q ps c1 = (r, c')"
      using s assms(1) by (simp add: executeQuery_def bindM_def)
    from P Inr obtain t where b: "bound_values (fst q) ps = Some (values_of args)"
      and c1: "c1 = c\<lparr>cn_tick := t\<rparr>" by (auto simp: ticked_def)
    from run_query_outcome [OF run b] show ?thesis
      by (cases r) (auto simp: c1 ticked_def)
  qed
qed

lemma executeUpdate_outcome:
  assumes "executeUpdate q args c = (r, c')" and "well_bound q args"
  shows "(\<exists>e. r = Inl e \<and> is_sql e \<and> ticked c c')
    \<or> (\<exists>k gen ai d t t'. r = Inr (int k)
        \<and> snd q (cn_found_rows c) (cn_clock c t) (values_of args) (cn_autoinc c) (cn_work c)
            = Some (k, gen, ai, d)
        \<and> c' = apply_update (int k) gen ai d (c\<lparr>cn_tick := t'\<rparr>))"
proof -
  obtain r1 c1 where s: "prepare_and_bind (fst q) args c = (r1, c1)" by force
  have P: "ticked c c1 \<and> (case r1 of Inl e \<Rightarrow> is_sql e
      | Inr ps \<Rightarrow> bound_values (fst q) ps = Some (values_of args))"
    by (rule prepare_and_bind_outcome [OF s, of "snd q"]) (use assms(2) in simp)
  show ?thesis
  proof (cases r1)
    case (Inl e)
    with s assms(1) P show ?thesis by (auto simp: executeUpdate_def bindM_def)
  next
    case (Inr ps)
    then have run: "run_update q ps c1 = (r, c')"
      using s assms(1) by (simp add: executeUpdate_def bindM_def)
    from P Inr obtain t where b: "bound_values (fst q) ps = Some (values_of args)"
      and c1: "c1 = c\<lparr>cn_tick := t\<rparr>" by (auto simp: ticked_def)
    from run_update_outcome [OF run b] show ?thesis
      by (simp add: c1 ticked_def)
  qed
qed

section \<open>Calls that do not fail\<close>

definition no_fault :: "conn \<Rightarrow> bool" where
  "no_fault c \<longleftrightarrow> (\<forall>n op. cn_fault c n op = None)"

lemma ticked_no_fault: "ticked c c' \<Longrightarrow> no_fault c' = no_fault c"
  by (auto simp: no_fault_def dest: tickedD)

lemma no_fault_db_step:
  "no_fault c \<Longrightarrow> db_step op c = (Inr (cn_clock c (cn_tick c)), c\<lparr>cn_tick := Suc (cn_tick c)\<rparr>)"
  by (simp add: no_fault_def db_step_def Let_def)

lemma no_fault_tick [simp]: "no_fault (c\<lparr>cn_tick := t\<rparr>) = no_fault c"
  by (simp add: no_fault_def)

lemma no_fault_bindParam:
  "no_fault c \<Longrightarrow> 1 \<le> i \<Longrightarrow> i \<le> n \<Longrightarrow> \<exists>ps'. fst (bindParam n i a ps c) = Inr ps'"
  by (cases a) (auto simp: set_param_def bindM_def returnM_def no_fault_db_step)

lemma no_fault_bindParams:
  "no_fault c \<Longrightarrow> 1 \<le> i \<Longrightarrow> i + length args \<le> Suc n \<Longrightarrow> \<exists>ps'. fst (bindParams n i args ps c) = Inr ps'"
proof (induction args arbitrary: i ps c)
  case Nil
  then show ?case by (simp add: returnM_def)
next
  case (Cons a args)
  obtain r1 c1 where b: "bindParam n i a ps c = (r1, c1)" by force
  with no_fault_bindParam [of c i n a ps] Cons.prems obtain ps1 where "r1 = Inr ps1" by auto
  moreover have "no_fault c1"
    using bindParam_outcome [OF b] Cons.prems(1) ticked_no_fault by blast
  ultimately show ?case using Cons.IH [of c1 "i + 1" ps1] Cons.prems b by (simp add: bindM_def)
qed

lemma no_fault_prepare_and_bind:
  assumes "no_fault c" and "well_bound (n, q) args"
  shows "\<exists>ps. fst (prepare_and_bind n args c) = Inr ps"
  using assms no_fault_bindParams [of _ 1 args n Map.empty]
  by (simp add: prepare_and_bind_def bindM_def no_fault_db_step well_bound_def)

lemma executeQuery_no_fault:
  assumes "no_fault c" and "well_bound q args"
    and "\<And>t. snd q (cn_clock c t) (values_of args) (cn_work c) \<noteq> None"
  shows "executeQuery q args c \<noteq> (Inl e, c')"
proof -
  obtain r1 c1 where s: "prepare_and_bind (fst q) args c = (r1, c1)" by force
  have wb: "well_bound (fst q, snd q) args" using assms(2) by simp
  obtain ps where r1: "r1 = Inr ps" using no_fault_prepare_and_bind [OF assms(1) wb] s by auto
  with prepare_and_bind_outcome [OF s wb] obtain t where "c1 = c\<lparr>cn_tick := t\<rparr>"
    and "bound_values (fst q) ps = Some (values_of args)" by (auto simp: ticked_def)
  with assms(1) assms(3) [of t] show ?thesis
    by (auto simp: executeQuery_def bindM_def s r1 run_query_def no_fault_db_step split: option.splits)
qed

lemma executeUpdate_no_fault:
  assumes "no_fault c" and "well_bound q args"
    and "\<And>t. snd q (cn_found_rows c) (cn_clock c t) (values_of args) (cn_autoinc c) (cn_work c) \<noteq> None"
  shows "executeUpdate q args c \<noteq> (Inl e, c')"
proof -
  obtain r1 c1 where s: "prepare_and_bind (fst q) args c = (r1, c1)" by force
  have wb: "well_bound (fst q, snd q) args" using assms(2) by simp
  obtain ps where r1: "r1 = Inr ps" using no_fault_prepare_and_bind [OF assms(1) wb] s by auto
  with prepare_and_bind_outcome [OF s wb] obtain t where "c1 = c\<lparr>cn_tick := t\<rparr>"
    and "bound_values (fst q) ps = Some (values_of args)" by (auto simp: ticked_def)
  with assms(1) assms(3) [of t] show ?thesis
    by (auto simp: executeUpdate_def bindM_def s r1 run_update_def no_fault_db_step
        split: option.splits)
qed

end
