(* ===== verification/AuctionService.thy ===== *)
theory AuctionService
  imports Messages SqlDb
begin

text \<open>
  \<^verbatim>\<open>AuctionServer/AuctionService.cpp\<close>: what a worker does for each request of the game server.
  Each SQL statement of the file is a definition of its own, over the values bound to its
  placeholders in order; the functions that run them follow the source line by line, every
  \<open>throw\<close> a branch.  A purchase is attempted at most three times, each time as a transaction
  that is rolled back on any failure.
\<close>

section \<open>The SQL statements\<close>

definition listQuery_all :: "listing query_stmt" where
  "listQuery_all = (0, \<lambda>now vs d. case vs of
       [] \<Rightarrow> Some (take 100 (sort_key li_listing_id
               (filter (\<lambda>l. now < li_expired_at l) (auction_listings d))))
     | _ \<Rightarrow> None)"

definition listQuery_mine :: "listing query_stmt" where
  "listQuery_mine = (1, \<lambda>now vs d. case vs of
       [SqlInt seller] \<Rightarrow> Some (sort_key li_listing_id
               (filter (\<lambda>l. now < li_expired_at l \<and> li_seller_id l = sint seller)
                  (auction_listings d)))
     | _ \<Rightarrow> None)"

text \<open>
  The receipts are ordered by a column \<open>list_id\<close> that no statement of the repository writes:
  it is the parameter \<open>list_id\<close>.
\<close>

definition receiptQuery_list :: "(receipt \<Rightarrow> int) \<Rightarrow> receipt query_stmt" where
  "receiptQuery_list list_id = (1, \<lambda>now vs d. case vs of
       [SqlUInt64 player] \<Rightarrow> Some (take 100 (sort_key list_id
               (filter (\<lambda>r. re_owner_player_id r = uint player) (auction_receipts d))))
     | _ \<Rightarrow> None)"

definition registQuery :: update_stmt where
  "registQuery = (5, \<lambda>fr now vs ai d. case vs of
       [SqlInt64 seller, SqlInt64 item, SqlInt64 qty, SqlInt64 price, SqlInt hours] \<Rightarrow>
         Some (1, Some (next_listing_id ai), ai\<lparr>next_listing_id := next_listing_id ai + 1\<rparr>,
           d\<lparr>auction_listings := auction_listings d @
             [\<lparr>li_listing_id = next_listing_id ai, li_seller_id = sint seller,
               li_item_id = sint item, li_remaining_quantity = sint qty, li_price = sint price,
               li_expired_at = now + 3600 * sint hours\<rparr>]\<rparr>)
     | _ \<Rightarrow> None)"

definition checkQuery :: "listing query_stmt" where
  "checkQuery = (1, \<lambda>now vs d. case vs of
       [SqlInt64 listid] \<Rightarrow> Some (filter (\<lambda>l. li_listing_id l = sint listid \<and> now < li_expired_at l)
               (auction_listings d))
     | _ \<Rightarrow> None)"

definition purchaseQuery1 :: update_stmt where
  "purchaseQuery1 = (3, \<lambda>fr now vs ai d. case vs of
       [SqlInt64 cost, SqlInt64 acct, SqlInt64 atleast] \<Rightarrow>
         (let (k, rows) = update_rows fr
                (\<lambda>cb. cb_account_id cb = sint acct \<and> sint atleast \<le> cb_gold cb)
                (\<lambda>cb. cb\<lparr>cb_gold := cb_gold cb - sint cost\<rparr>) (character_bases d)
          in Some (k, None, ai, d\<lparr>character_bases := rows\<rparr>))
     | _ \<Rightarrow> None)"

definition deleteListingQuery :: update_stmt where
  "deleteListingQuery = (1, \<lambda>fr now vs ai d. case vs of
       [SqlInt64 listid] \<Rightarrow>
         (let (k, rows) = delete_rows (\<lambda>l. li_listing_id l = sint listid) (auction_listings d)
          in Some (k, None, ai, d\<lparr>auction_listings := rows\<rparr>))
     | _ \<Rightarrow> None)"

definition purchaseQuery2 :: update_stmt where
  "purchaseQuery2 = (3, \<lambda>fr now vs ai d. case vs of
       [SqlInt64 n, SqlInt64 listid, SqlInt64 morethan] \<Rightarrow>
         (let (k, rows) = update_rows fr
                (\<lambda>l. li_listing_id l = sint listid \<and> sint morethan < li_remaining_quantity l)
                (\<lambda>l. l\<lparr>li_remaining_quantity := li_remaining_quantity l - sint n\<rparr>)
                (auction_listings d)
          in Some (k, None, ai, d\<lparr>auction_listings := rows\<rparr>))
     | _ \<Rightarrow> None)"

definition transactionQuery :: update_stmt where
  "transactionQuery = (3, \<lambda>fr now vs ai d. case vs of
       [SqlInt item, SqlInt64 qty, SqlInt64 cost] \<Rightarrow>
         Some (1, None, ai, d\<lparr>auction_transactions := auction_transactions d @
           [\<lparr>tr_item_id = sint item, tr_quantity = sint qty, tr_total_price = sint cost\<rparr>]\<rparr>)
     | _ \<Rightarrow> None)"

definition receiptQuery :: update_stmt where
  "receiptQuery = (7, \<lambda>fr now vs ai d. case vs of
       [SqlInt64 buyer, SqlInt item, SqlInt64 qty, SqlInt64 src, SqlInt64 seller, SqlInt64 cost,
        SqlInt64 src2] \<Rightarrow>
         Some (2, Some (next_receipt_id ai), ai\<lparr>next_receipt_id := next_receipt_id ai + 2\<rparr>,
           d\<lparr>auction_receipts := auction_receipts d @
             [\<lparr>re_receipt_id = next_receipt_id ai, re_owner_player_id = sint buyer,
               re_receipt_type = 3, re_gold_amount = None, re_item_id = Some (sint item),
               re_quantity = Some (sint qty), re_source_listing_id = sint src\<rparr>,
              \<lparr>re_receipt_id = next_receipt_id ai + 1, re_owner_player_id = sint seller,
               re_receipt_type = 1, re_gold_amount = Some (sint cost), re_item_id = None,
               re_quantity = None, re_source_listing_id = sint src2\<rparr>]\<rparr>)
     | _ \<Rightarrow> None)"

section \<open>Lists\<close>

text \<open>
  The loop over the result set copies each row.  \<open>datetime\<close> renders a \<open>DATETIME\<close> column as
  \<open>getString\<close> does.
\<close>

definition listing_item :: "(int \<Rightarrow> string) \<Rightarrow> listing \<Rightarrow> AuctionItemInfo" where
  "listing_item datetime l = AuctionItemInfo_default\<lparr>
     ai_list_id := scast (getInt (li_listing_id l)),
     ai_player_id := scast (getInt (li_seller_id l)),
     ai_item_id := scast (getInt (li_item_id l)),
     ai_count := scast (getInt (li_remaining_quantity l)),
     ai_price := scast (getInt (li_price l)),
     ai_expired_at := datetime (li_expired_at l)\<rparr>"

definition receipt_item :: "receipt \<Rightarrow> AuctionItemInfo" where
  "receipt_item r = AuctionItemInfo_default\<lparr>
     ai_list_id := scast (getInt (re_receipt_id r)),
     ai_receipt_type := scast (getInt (re_receipt_type r)),
     ai_item_id := scast (getIntNull (re_item_id r)),
     ai_count := scast (getIntNull (re_quantity r)),
     ai_price := scast (getIntNull (re_gold_amount r))\<rparr>"

definition fetch_all :: "('r \<Rightarrow> 'i) \<Rightarrow> 'r list \<Rightarrow> (conn, 'i list) xm" where
  "fetch_all f rows = bindM (db_step OpFetch) (\<lambda>_. returnM (map f rows))"

definition GetListings :: "(int \<Rightarrow> string) \<Rightarrow> bool \<Rightarrow> int32 \<Rightarrow> (conn, AuctionItemInfo list) xm" where
  "GetListings datetime mine playerId =
     bindM (if mine then executeQuery listQuery_mine [ArgInt32 playerId]
            else executeQuery listQuery_all [])
       (fetch_all (listing_item datetime))"

definition GetReceipts :: "(receipt \<Rightarrow> int) \<Rightarrow> uint64 \<Rightarrow> (conn, AuctionItemInfo list) xm" where
  "GetReceipts list_id playerId =
     bindM (executeQuery (receiptQuery_list list_id) [ArgUInt64 playerId]) (fetch_all receipt_item)"

section \<open>Registering\<close>

definition expiredTime :: "string \<Rightarrow> int32" where
  "expiredTime expired_at = (if expired_at = ''24'' then 24 else 48)"

definition Regist :: "AuctionItemInfo \<Rightarrow> (conn, bool) xm" where
  "Regist info =
     bindM (executeUpdate registQuery
        [ArgInt64 (ai_player_id info), ArgInt64 (ai_item_id info), ArgInt64 (ai_count info),
         ArgInt64 (ai_price info), ArgInt32 (expiredTime (ai_expired_at info))])
       (\<lambda>affected. returnM (affected > 0))"

section \<open>Purchasing\<close>

definition kMaxTxAttempts :: nat where "kMaxTxAttempts = 3"
definition kErrLockWaitTimeout :: int where "kErrLockWaitTimeout = 1205"
definition kErrDeadlock :: int where "kErrDeadlock = 1213"

record PurchaseResult =
  pr_success :: bool
  pr_totalPrice :: int64

text \<open>
  \<open>TryPurchase\<close> up to the assignment of \<open>totalPrice\<close>: it starts the transaction, checks the
  count and locks the listing.
\<close>

definition TryPurchase_check :: "AuctionItemInfo \<Rightarrow> (conn, listing) xm" where
  "TryPurchase_check info =
     bindM (SetAutoCommit False) (\<lambda>_.
     bindM (throwIf (sint (ai_count info) \<le> 0) (SQLException 0 ''invalid count'')) (\<lambda>_.
     bindM (executeQuery checkQuery [ArgInt64 (ai_list_id info)]) (\<lambda>rows.
     bindM (db_step OpFetch) (\<lambda>_.
       case rows of
         [] \<Rightarrow> throwM (SQLException 0 ''listing not found or expired'')
       | l # _ \<Rightarrow> returnM l))))"

definition total_price :: "AuctionItemInfo \<Rightarrow> listing \<Rightarrow> int64" where
  "total_price info l = getInt64 (li_price l) * ai_count info"

text \<open>The rest of \<open>TryPurchase\<close>, with \<open>totalPrice\<close> assigned.\<close>

definition take_quantity :: "AuctionItemInfo \<Rightarrow> int32 \<Rightarrow> (conn, int) xm" where
  "take_quantity info remaining =
     (if scast remaining = ai_count info
      then executeUpdate deleteListingQuery [ArgInt64 (ai_list_id info)]
      else executeUpdate purchaseQuery2
             [ArgInt64 (ai_count info), ArgInt64 (ai_list_id info), ArgInt64 (ai_count info)])"

definition TryPurchase_apply :: "AuctionItemInfo \<Rightarrow> listing \<Rightarrow> int64 \<Rightarrow> (conn, unit) xm" where
  "TryPurchase_apply info l totalPrice =
     (let remaining = getInt (li_remaining_quantity l);
          sellerId = getInt64 (li_seller_id l);
          ItemId = getInt (li_item_id l)
      in
     bindM (throwIf (sellerId = ai_player_id info) (SQLException 0 ''own listing'')) (\<lambda>_.
     bindM (executeUpdate purchaseQuery1
        [ArgInt64 totalPrice, ArgInt64 (ai_player_id info), ArgInt64 totalPrice]) (\<lambda>n1.
     bindM (throwIf (n1 = 0) (SQLException 0 ''not enough gold'')) (\<lambda>_.
     bindM (take_quantity info remaining) (\<lambda>n2.
     bindM (throwIf (n2 = 0) (SQLException 0 ''quantity update failed'')) (\<lambda>_.
     bindM (executeUpdate transactionQuery
        [ArgInt32 ItemId, ArgInt64 (ai_count info), ArgInt64 totalPrice]) (\<lambda>n3.
     bindM (throwIf (n3 = 0) (SQLException 0 ''transaction update failed'')) (\<lambda>_.
     bindM (executeUpdate receiptQuery
        [ArgInt64 (ai_player_id info), ArgInt32 ItemId, ArgInt64 (ai_count info),
         ArgInt64 (ai_list_id info), ArgInt64 sellerId, ArgInt64 totalPrice,
         ArgInt64 (ai_list_id info)]) (\<lambda>n4.
     bindM (throwIf (n4 \<noteq> 2) (SQLException 0 ''receipt update failed'')) (\<lambda>_.
     Commit))))))))))"

text \<open>\<open>totalPrice\<close> is passed by reference: the value it has when an exception leaves is kept.\<close>

definition TryPurchase ::
  "AuctionItemInfo \<Rightarrow> int64 \<Rightarrow> conn \<Rightarrow> (exn + unit) \<times> conn \<times> int64" where
  "TryPurchase info totalPrice c =
     (case TryPurchase_check info c of
        (Inl e, c1) \<Rightarrow> (Inl e, c1, totalPrice)
      | (Inr l, c1) \<Rightarrow>
          (case TryPurchase_apply info l (total_price info l) c1 of
             (r, c2) \<Rightarrow> (r, c2, total_price info l)))"

definition SafeRollback :: "conn \<Rightarrow> conn" where
  "SafeRollback c = snd (Rollback c)"

definition SafeRestoreAutoCommit :: "conn \<Rightarrow> conn" where
  "SafeRestoreAutoCommit c = snd (SetAutoCommit True c)"

definition retryable :: "int \<Rightarrow> bool" where
  "retryable code \<longleftrightarrow> code = kErrDeadlock \<or> code = kErrLockWaitTimeout"

function Purchase_loop ::
  "nat \<Rightarrow> PurchaseResult \<Rightarrow> AuctionItemInfo \<Rightarrow> (conn, PurchaseResult) xm" where
  "Purchase_loop attempt result info c =
     (if kMaxTxAttempts < attempt then (Inr result, c)
      else
        (case TryPurchase info 0 c of
           (Inr _, c1, totalPrice) \<Rightarrow>
             (Inr \<lparr>pr_success = True, pr_totalPrice = totalPrice\<rparr>, SafeRestoreAutoCommit c1)
         | (Inl (SQLException code what), c1, totalPrice) \<Rightarrow>
             (let c2 = SafeRestoreAutoCommit (SafeRollback c1);
                  result' = \<lparr>pr_success = False, pr_totalPrice = totalPrice\<rparr>
              in if retryable code \<and> attempt < kMaxTxAttempts
                 then Purchase_loop (attempt + 1) result' info c2
                 else (Inr result', c2))
         | (Inl e, c1, _) \<Rightarrow> (Inl e, c1)))"
  by pat_completeness auto
termination
  by (relation "measure (\<lambda>(attempt, _). Suc kMaxTxAttempts - attempt)") auto

declare Purchase_loop.simps [simp del]

definition Purchase :: "AuctionItemInfo \<Rightarrow> (conn, PurchaseResult) xm" where
  "Purchase info = Purchase_loop 1 \<lparr>pr_success = False, pr_totalPrice = 0\<rparr> info"

section \<open>Requests\<close>

text \<open>
  The \<open>Process\<close> functions return the packet sent to the session.  \<open>registinfo(0)\<close> and
  \<open>purchaseinfo(0)\<close> of an empty field are excluded by the handlers that post the work.
\<close>

definition first_info :: "AuctionItemInfo list \<Rightarrow> (conn, AuctionItemInfo) xm" where
  "first_info xs = (case xs of [] \<Rightarrow> throwM (StdException ''index out of range'') | x # _ \<Rightarrow> returnM x)"

definition ProcessAuctionList ::
  "(int \<Rightarrow> string) \<Rightarrow> SS_REQ_AUCTION_LIST \<Rightarrow> (conn, ss_packet) xm" where
  "ProcessAuctionList datetime pkt =
     bindM (GetListings datetime (sral_mylist pkt) (sral_player_id pkt)) (\<lambda>items.
     returnM (PKT_SS_RES_AUCTION_LIST \<lparr>ssal_session_id = sral_session_id pkt,
       ssal_request_id = sral_request_id pkt, ssal_mylist = sral_mylist pkt,
       ssal_listinfo = items\<rparr>))"

definition ProcessReceiptList ::
  "(receipt \<Rightarrow> int) \<Rightarrow> SS_REQ_RECEIPT_LIST \<Rightarrow> (conn, ss_packet) xm" where
  "ProcessReceiptList list_id pkt =
     bindM (GetReceipts list_id (srrl_player_id pkt)) (\<lambda>items.
     returnM (PKT_SS_RES_RECEIPT_LIST \<lparr>ssrl_session_id = srrl_session_id pkt,
       ssrl_receiptlist = items\<rparr>))"

definition ProcessRegistItem :: "SS_REQ_REGIST_ITEM \<Rightarrow> (conn, ss_packet) xm" where
  "ProcessRegistItem pkt =
     bindM (first_info (srri_registinfo pkt)) (\<lambda>info.
     bindM (Regist info) (\<lambda>ok.
     returnM (PKT_SS_RES_REGIST_ITEM \<lparr>ssri_session_id = srri_session_id pkt, ssri_result = ok\<rparr>)))"

definition ProcessPurchaseItem :: "SS_REQ_PURCHASE_ITEM \<Rightarrow> (conn, ss_packet) xm" where
  "ProcessPurchaseItem pkt =
     bindM (first_info (srpi_purchaseinfo pkt)) (\<lambda>info.
     bindM (Purchase info) (\<lambda>purchase.
     returnM (PKT_SS_RES_PURCHASE_ITEM \<lparr>sspi_session_id = srpi_session_id pkt,
       sspi_result = pr_success purchase, sspi_gold = pr_totalPrice purchase\<rparr>)))"

end
