(* ===== verification/AuctionHandlers.thy ===== *)
theory AuctionHandlers
  imports Wire WorkerPool AuctionService
begin

text \<open>
  \<^verbatim>\<open>AuctionServer/Network/Handlers/AuctionPacketHandler.cpp\<close>: the auction server's handlers
  turn a request into a task of the worker pool, and the tasks (the \<open>Process\<close> functions of
  \<^verbatim>\<open>AuctionService.cpp\<close>) reply to the game server's session.
\<close>

section \<open>Tasks\<close>

text \<open>A worker's side: its connection and the replies it has sent, each with its session.\<close>

record worker_io =
  wio_conn :: conn
  wio_replies :: "(nat \<times> ss_packet) list"

type_synonym auction_task = "nat \<times> ss_packet"

definition on_conn :: "(conn, 'a) xm \<Rightarrow> (worker_io, 'a) xm" where
  "on_conn m io = (case m (wio_conn io) of (r, c) \<Rightarrow> (r, io\<lparr>wio_conn := c\<rparr>))"

definition ReplyPacket :: "nat \<Rightarrow> ss_packet \<Rightarrow> (worker_io, unit) xm" where
  "ReplyPacket session msg io = (Inr (), io\<lparr>wio_replies := wio_replies io @ [(session, msg)]\<rparr>)"

fun process :: "(int \<Rightarrow> string) \<Rightarrow> (receipt \<Rightarrow> int) \<Rightarrow> ss_packet \<Rightarrow> (conn, ss_packet) xm" where
  "process datetime list_id (PKT_SS_REQ_AUCTION_LIST pkt) = ProcessAuctionList datetime pkt"
| "process datetime list_id (PKT_SS_REQ_RECEIPT_LIST pkt) = ProcessReceiptList list_id pkt"
| "process datetime list_id (PKT_SS_REQ_REGIST_ITEM pkt) = ProcessRegistItem pkt"
| "process datetime list_id (PKT_SS_REQ_PURCHASE_ITEM pkt) = ProcessPurchaseItem pkt"
| "process datetime list_id pkt = throwM (StdException ''no such task'')"

definition run_request ::
  "(int \<Rightarrow> string) \<Rightarrow> (receipt \<Rightarrow> int) \<Rightarrow> auction_task \<Rightarrow> (worker_io, unit) xm" where
  "run_request datetime list_id task =
     bindM (on_conn (process datetime list_id (snd task))) (ReplyPacket (fst task))"

section \<open>Handlers\<close>

type_synonym 'p auction_server = "(auction_task, 'p, worker_io) worker_pool"

definition Handle_SS_Auction_INVALID :: "'p auction_server server_process packet_handler" where
  "Handle_SS_Auction_INVALID body s = (False, s)"

definition Handle_REQ_AUCTION_LIST ::
  "nat \<Rightarrow> SS_REQ_AUCTION_LIST \<Rightarrow> 'p auction_server \<Rightarrow> bool \<times> 'p auction_server" where
  "Handle_REQ_AUCTION_LIST session pkt s = (True, PostRead (session, PKT_SS_REQ_AUCTION_LIST pkt) s)"

definition Handle_REQ_RECEIPT_LIST ::
  "nat \<Rightarrow> SS_REQ_RECEIPT_LIST \<Rightarrow> 'p auction_server \<Rightarrow> bool \<times> 'p auction_server" where
  "Handle_REQ_RECEIPT_LIST session pkt s = (True, PostRead (session, PKT_SS_REQ_RECEIPT_LIST pkt) s)"

definition Handle_REQ_REGIST_ITEM ::
  "nat \<Rightarrow> SS_REQ_REGIST_ITEM \<Rightarrow> 'p auction_server \<Rightarrow> bool \<times> 'p auction_server" where
  "Handle_REQ_REGIST_ITEM session pkt s =
     (case srri_registinfo pkt of
        [] \<Rightarrow> (False, s)
      | info # _ \<Rightarrow> (True, PostWrite (ai_player_id info) (session, PKT_SS_REQ_REGIST_ITEM pkt) s))"

definition Handle_REQ_PURCHASE_ITEM ::
  "nat \<Rightarrow> SS_REQ_PURCHASE_ITEM \<Rightarrow> 'p auction_server \<Rightarrow> bool \<times> 'p auction_server" where
  "Handle_REQ_PURCHASE_ITEM session pkt s =
     (case srpi_purchaseinfo pkt of
        [] \<Rightarrow> (False, s)
      | info # _ \<Rightarrow> (True, PostWrite (ai_list_id info) (session, PKT_SS_REQ_PURCHASE_ITEM pkt) s))"

definition Handle_REQ_RECEIPT_ITEM ::
  "nat \<Rightarrow> SS_REQ_RECEIPT_ITEM \<Rightarrow> 'p auction_server \<Rightarrow> bool \<times> 'p auction_server" where
  "Handle_REQ_RECEIPT_ITEM session pkt s = (True, s)"

record ss_request_classes =
  ssc_auction_list :: "SS_REQ_AUCTION_LIST msg_class"
  ssc_receipt_list :: "SS_REQ_RECEIPT_LIST msg_class"
  ssc_regist_item :: "SS_REQ_REGIST_ITEM msg_class"
  ssc_purchase_item :: "SS_REQ_PURCHASE_ITEM msg_class"
  ssc_receipt_item :: "SS_REQ_RECEIPT_ITEM msg_class"

text \<open>The table of \<open>AuctionPacketHandler::Init\<close>; a handler knows the session it runs for.\<close>

definition AuctionPacketHandler_entries ::
  "ss_request_classes \<Rightarrow> nat \<Rightarrow> (nat \<times> 'p auction_server server_process packet_handler) list" where
  "AuctionPacketHandler_entries C session =
     [(0, DispatchPacket (ssc_auction_list C) (\<lambda>pkt. total (Handle_REQ_AUCTION_LIST session pkt))),
      (2, DispatchPacket (ssc_receipt_list C) (\<lambda>pkt. total (Handle_REQ_RECEIPT_LIST session pkt))),
      (4, DispatchPacket (ssc_regist_item C) (\<lambda>pkt. total (Handle_REQ_REGIST_ITEM session pkt))),
      (6, DispatchPacket (ssc_purchase_item C) (\<lambda>pkt. total (Handle_REQ_PURCHASE_ITEM session pkt))),
      (8, DispatchPacket (ssc_receipt_item C) (\<lambda>pkt. total (Handle_REQ_RECEIPT_ITEM session pkt)))]"

definition AuctionPacketHandler_Init ::
  "ss_request_classes \<Rightarrow> nat \<Rightarrow> 'p auction_server server_process packet_handler list" where
  "AuctionPacketHandler_Init C session =
     Init_table Handle_SS_Auction_INVALID (AuctionPacketHandler_entries C session)"

text \<open>A connection's \<open>HandlePacket\<close> (\<^verbatim>\<open>AuctionServer/AuctionSession.cpp\<close>).\<close>

definition AuctionPacketHandler_HandlePacket ::
  "ss_request_classes \<Rightarrow> nat \<Rightarrow> 'p auction_server server_process handler" where
  "AuctionPacketHandler_HandlePacket C session = serve (AuctionPacketHandler_Init C session)"

definition AuctionSession_HandlePacket ::
  "ss_request_classes \<Rightarrow> nat \<Rightarrow> 'p auction_server server_process handler" where
  "AuctionSession_HandlePacket C session = AuctionPacketHandler_HandlePacket C session"

lemma auction_entries [simp]: "distinct (map fst (AuctionPacketHandler_entries C session))"
  by (simp add: AuctionPacketHandler_entries_def)

text \<open>Purchase requests that arrive on a connection, however cut, are posted in order.\<close>

lemma purchases_posted:
  assumes "\<And>m. m \<in> set ms \<Longrightarrow> sendable (ssc_purchase_item C) m"
    and "concat chunks = concat (map (\<lambda>m. SendPacket (ssc_purchase_item C) m 6) ms)"
  shows "rx_world (fold (rx_receive (AuctionSession_HandlePacket C session)) chunks (rx_init (Up srv)))
    = Up (fold (\<lambda>m. snd \<circ> Handle_REQ_PURCHASE_ITEM session m) ms srv)"
  unfolding AuctionSession_HandlePacket_def AuctionPacketHandler_HandlePacket_def AuctionPacketHandler_Init_def
  by (rule serve_many [OF auction_entries])
    (use assms in \<open>auto simp: AuctionPacketHandler_entries_def\<close>)

section \<open>One listing, one worker, arrival order\<close>

text \<open>What happens on the auction server: a purchase request arrives, or a worker runs a task.\<close>

datatype auction_event = Arrive nat SS_REQ_PURCHASE_ITEM | Work "auction_task wp_event"

fun auction_step ::
  "(auction_task \<Rightarrow> (worker_io, unit) xm) \<Rightarrow> auction_event \<Rightarrow> 'p auction_server \<Rightarrow> 'p auction_server" where
  "auction_step exec (Arrive session pkt) s = snd (Handle_REQ_PURCHASE_ITEM session pkt s)"
| "auction_step exec (Work ev) s = wp_step exec ev s"

text \<open>The listing a task buys from, and the purchases of a listing among the arrivals.\<close>

fun buys_from :: "int64 \<Rightarrow> auction_task \<Rightarrow> bool" where
  "buys_from lid (session, PKT_SS_REQ_PURCHASE_ITEM pkt) =
     (case srpi_purchaseinfo pkt of [] \<Rightarrow> False | info # _ \<Rightarrow> ai_list_id info = lid)"
| "buys_from lid _ = False"

fun arrivals :: "int64 \<Rightarrow> auction_event list \<Rightarrow> auction_task list" where
  "arrivals lid [] = []"
| "arrivals lid (Arrive session pkt # evs) =
     (if buys_from lid (session, PKT_SS_REQ_PURCHASE_ITEM pkt)
      then (session, PKT_SS_REQ_PURCHASE_ITEM pkt) # arrivals lid evs else arrivals lid evs)"
| "arrivals lid (Work ev # evs) = arrivals lid evs"

text \<open>The worker threads' own events do not post.\<close>

fun is_run :: "'t wp_event \<Rightarrow> bool" where
  "is_run (EvRunReader i) = True"
| "is_run (EvRunWriter i) = True"
| "is_run _ = False"

definition worker_events :: "auction_event list \<Rightarrow> bool" where
  "worker_events evs \<longleftrightarrow> list_all (\<lambda>e. case e of Work ev \<Rightarrow> is_run ev | _ \<Rightarrow> True) evs"

fun posted_event :: "auction_event \<Rightarrow> auction_task wp_event list" where
  "posted_event (Arrive session pkt) =
     (case srpi_purchaseinfo pkt of [] \<Rightarrow> []
      | info # _ \<Rightarrow> [EvPostWrite (ai_list_id info) (session, PKT_SS_REQ_PURCHASE_ITEM pkt)])"
| "posted_event (Work ev) = [ev]"

lemma auction_step_wp_run: "auction_step exec e s = wp_run exec (posted_event e) s"
  by (cases e) (auto simp: wp_run_def Handle_REQ_PURCHASE_ITEM_def split: list.splits)

lemma auction_run_wp_run:
  "fold (auction_step exec) evs s = wp_run exec (concat (map posted_event evs)) s"
  by (induction evs arbitrary: s) (simp_all add: wp_run_def auction_step_wp_run)

lemma writes_to_append: "writes_to n i (xs @ ys) = writes_to n i xs @ writes_to n i ys"
proof (induction xs)
  case (Cons ev xs)
  then show ?case by (cases ev) auto
qed simp

lemma writes_to_run: "is_run ev \<Longrightarrow> writes_to n i (ev # evs) = writes_to n i evs"
  by (cases ev) auto

lemma arrivals_written:
  "worker_events evs \<Longrightarrow>
   filter (buys_from lid) (writes_to n (unat lid mod n) (concat (map posted_event evs))) = arrivals lid evs"
proof (induction evs)
  case Nil
  then show ?case by simp
next
  case (Cons e evs)
  then show ?case
    by (cases e) (auto simp: worker_events_def writes_to_append writes_to_run split: list.splits)
qed

text \<open>
  C28: purchases of one listing are serialised.  All purchases of a listing go to one writer, and
  however the workers interleave, that writer has run, or still has queued, exactly the
  purchases of the listing that arrived, in the order they arrived.
\<close>

theorem purchases_of_listing_in_order:
  assumes "worker_events evs" and "n = length (wp_writers s)" and "0 < n"
    and "handed (wp_writers s ! (unat lid mod n)) = []"
    and "w = wp_writers (fold (auction_step exec) evs s) ! (unat lid mod n)"
  shows "filter (buys_from lid) (w_done w) @ filter (buys_from lid) (w_queue w) = arrivals lid evs"
proof -
  have "unat lid mod n < length (wp_writers s)" using assms(2,3) by simp
  from wp_run_handed [OF this, of exec "concat (map posted_event evs)"] assms(2,4)
  have "handed w = writes_to n (unat lid mod n) (concat (map posted_event evs))"
    by (simp add: assms(5) auction_run_wp_run)
  then show ?thesis
    using arrivals_written [OF assms(1), of lid n] by (simp add: handed_def flip: filter_append)
qed

section \<open>Replies\<close>

fun request_session :: "ss_packet \<Rightarrow> int64" where
  "request_session (PKT_SS_REQ_AUCTION_LIST p) = sral_session_id p"
| "request_session (PKT_SS_REQ_RECEIPT_LIST p) = srrl_session_id p"
| "request_session (PKT_SS_REQ_REGIST_ITEM p) = srri_session_id p"
| "request_session (PKT_SS_REQ_PURCHASE_ITEM p) = srpi_session_id p"
| "request_session _ = 0"

fun answers :: "ss_packet \<Rightarrow> ss_packet \<Rightarrow> bool" where
  "answers (PKT_SS_REQ_AUCTION_LIST p) (PKT_SS_RES_AUCTION_LIST r) \<longleftrightarrow>
     ssal_session_id r = sral_session_id p \<and> ssal_request_id r = sral_request_id p
     \<and> ssal_mylist r = sral_mylist p"
| "answers (PKT_SS_REQ_RECEIPT_LIST p) (PKT_SS_RES_RECEIPT_LIST r) \<longleftrightarrow>
     ssrl_session_id r = srrl_session_id p"
| "answers (PKT_SS_REQ_REGIST_ITEM p) (PKT_SS_RES_REGIST_ITEM r) \<longleftrightarrow>
     ssri_session_id r = srri_session_id p"
| "answers (PKT_SS_REQ_PURCHASE_ITEM p) (PKT_SS_RES_PURCHASE_ITEM r) \<longleftrightarrow>
     sspi_session_id r = srpi_session_id p"
| "answers _ _ = False"

lemma process_answers: "process datetime list_id pkt c = (Inr reply, c') \<Longrightarrow> answers pkt reply"
  by (cases pkt) (auto simp: ProcessAuctionList_def ProcessReceiptList_def ProcessRegistItem_def
      ProcessPurchaseItem_def bindM_def returnM_def throwM_def split: prod.splits sum.splits)

text \<open>
  C29: one request, one reply.  A task that completes sends exactly one reply, to the session the
  request came from, of the matching kind and with the request's own session id (and request
  id); a task that throws sends nothing, so that client waits for an answer that never comes.
\<close>

theorem task_replies_once:
  "case run_request datetime list_id (session, pkt) io of
     (Inr _, io') \<Rightarrow> \<exists>reply. wio_replies io' = wio_replies io @ [(session, reply)] \<and> answers pkt reply
   | (Inl _, io') \<Rightarrow> wio_replies io' = wio_replies io"
proof -
  obtain r c where p: "process datetime list_id pkt (wio_conn io) = (r, c)" by force
  show ?thesis
    using process_answers p
    by (cases r) (auto simp: run_request_def bindM_def on_conn_def ReplyPacket_def)
qed

section \<open>Witness\<close>

definition demo_purchase :: "int64 \<Rightarrow> SS_REQ_PURCHASE_ITEM" where
  "demo_purchase lid = \<lparr>srpi_session_id = 1, srpi_purchaseinfo = [AuctionItemInfo_default\<lparr>ai_list_id := lid\<rparr>]\<rparr>"

definition demo_worker :: "nat \<Rightarrow> auction_task worker" where
  "demo_worker c = \<lparr>w_name = ''w'', w_queue = [], w_guard = True, w_conn = Some c, w_joinable = True, w_done = []\<rparr>"

definition demo_server :: "unit auction_server" where
  "demo_server = \<lparr>wp_readers = [], wp_writers = [demo_worker 0, demo_worker 1], wp_readRoundRobin = 0,
     wp_driver = True, wp_pool = (), wp_conns = (\<lambda>_. \<lparr>wio_conn = undefined, wio_replies = []\<rparr>)\<rparr>"

theorem purchases_of_listing_in_order_witness:
  "let evs = [Arrive 8 (demo_purchase 5), Arrive 9 (demo_purchase 7), Work (EvRunWriter 1), Arrive 4 (demo_purchase 5)];
       w = wp_writers (fold (auction_step (\<lambda>_ io. (Inr (), io))) evs demo_server) ! 1
   in map fst (filter (buys_from 5) (w_done w) @ filter (buys_from 5) (w_queue w)) = [8, 4]"
proof -
  define evs where "evs = [Arrive 8 (demo_purchase 5), Arrive 9 (demo_purchase 7), Work (EvRunWriter 1), Arrive 4 (demo_purchase 5)]"
  have h: "worker_events evs" "2 = length (wp_writers demo_server)" "0 < (2 :: nat)"
    "handed (wp_writers demo_server ! (unat (5 :: int64) mod 2)) = []"
    by (simp_all add: evs_def worker_events_def demo_server_def demo_worker_def handed_def)
  have "map fst (arrivals 5 evs) = [8, 4]" by (simp add: evs_def demo_purchase_def)
  then show ?thesis
    unfolding evs_def [symmetric] Let_def
    using purchases_of_listing_in_order [OF h refl, of "\<lambda>_ io. (Inr (), io)"] by simp
qed

end
