(* ===== verification/Transactions.thy ===== *)
theory Transactions
  imports SqlDb
begin

text \<open>
  Statements inside a transaction: what every SQL call of the servers may assume and leaves
  behind, whatever its connector does.  \<open>in_tx\<close>, \<open>started\<close>, \<open>committed\<close> and \<open>failed\<close> are the
  phases of a transaction, and the rules take a computation from one to the next.
\<close>

section \<open>Running statements inside a transaction\<close>

lemma wp_executeUpdate:
  assumes "well_bound q args"
    and "\<And>e c'. is_sql e \<Longrightarrow> ticked c c' \<Longrightarrow> \<not> no_fault c \<Longrightarrow> E e c'"
    and "\<And>now. snd q (cn_found_rows c) now (values_of args) (cn_autoinc c) (cn_work c) \<noteq> None"
    and "\<And>k gen ai d t t'.
      snd q (cn_found_rows c) (cn_clock c t) (values_of args) (cn_autoinc c) (cn_work c)
        = Some (k, gen, ai, d)
      \<Longrightarrow> Q (int k) (apply_update (int k) gen ai d (c\<lparr>cn_tick := t'\<rparr>))"
  shows "wp (executeUpdate q args) Q E c"
proof (rule wpI)
  fix a s' assume "executeUpdate q args c = (Inr a, s')"
  from executeUpdate_outcome [OF this assms(1)] assms(4) show "Q a s'" by auto
next
  fix e s' assume run: "executeUpdate q args c = (Inl e, s')"
  then have "\<not> no_fault c" using executeUpdate_no_fault assms(1,3) by blast
  with executeUpdate_outcome [OF run assms(1)] assms(2) show "E e s'" by auto
qed

lemma wp_executeQuery:
  assumes "well_bound q args"
    and "\<And>e c'. is_sql e \<Longrightarrow> ticked c c' \<Longrightarrow> \<not> no_fault c \<Longrightarrow> E e c'"
    and "\<And>now. snd q now (values_of args) (cn_work c) \<noteq> None"
    and "\<And>rows t c'. snd q (cn_clock c t) (values_of args) (cn_work c) = Some rows
      \<Longrightarrow> ticked c c' \<Longrightarrow> Q rows c'"
  shows "wp (executeQuery q args) Q E c"
proof (rule wpI)
  fix a s' assume "executeQuery q args c = (Inr a, s')"
  from executeQuery_outcome [OF this assms(1)] assms(4) show "Q a s'" by auto
next
  fix e s' assume run: "executeQuery q args c = (Inl e, s')"
  then have "\<not> no_fault c" using executeQuery_no_fault assms(1,3) by blast
  with executeQuery_outcome [OF run assms(1)] assms(2) show "E e s'" by auto
qed

text \<open>The environment of a connection: its oracle, its clock, its row-count option.\<close>

definition same_env :: "conn \<Rightarrow> conn \<Rightarrow> bool" where
  "same_env c c' \<longleftrightarrow> cn_fault c' = cn_fault c \<and> cn_clock c' = cn_clock c
     \<and> cn_found_rows c' = cn_found_rows c"

lemma same_env_refl [simp]: "same_env c c"
  by (simp add: same_env_def)

lemma same_env_trans: "same_env a b \<Longrightarrow> same_env b c \<Longrightarrow> same_env a c"
  by (simp add: same_env_def)

lemma ticked_same_env: "ticked c c' \<Longrightarrow> same_env c c'"
  by (auto simp: same_env_def ticked_def)

text \<open>A transaction that has not touched the committed tables.\<close>

definition untouched :: "conn \<Rightarrow> conn \<Rightarrow> bool" where
  "untouched c c' \<longleftrightarrow> same_env c c' \<and> cn_committed c' = cn_committed c"

lemma untouched_refl [simp]: "untouched c c"
  by (simp add: untouched_def)

lemma untouched_ticked: "untouched c c' \<Longrightarrow> ticked c' c'' \<Longrightarrow> untouched c c''"
  by (auto simp: untouched_def same_env_def ticked_def)

lemma apply_update_simps [simp]:
  "cn_work (apply_update k gen ai d c) = d"
  "cn_autoinc (apply_update k gen ai d c) = ai"
  "cn_autocommit (apply_update k gen ai d c) = cn_autocommit c"
  "cn_fault (apply_update k gen ai d c) = cn_fault c"
  "cn_clock (apply_update k gen ai d c) = cn_clock c"
  "cn_found_rows (apply_update k gen ai d c) = cn_found_rows c"
  "cn_tick (apply_update k gen ai d c) = cn_tick c"
  "\<not> cn_autocommit c \<Longrightarrow> cn_committed (apply_update k gen ai d c) = cn_committed c"
  by (simp_all add: apply_update_def)

section \<open>Phases of a transaction\<close>

text \<open>
  \<open>in_tx c c'\<close>: \<open>c'\<close> is in a transaction that started from \<open>c\<close>; \<open>failed why c e c'\<close>: it was left
  by a database exception, which \<open>why\<close> explains, and which the function itself threw, unless a
  call of the connector failed.
\<close>

definition in_tx :: "conn \<Rightarrow> conn \<Rightarrow> bool" where
  "in_tx c c' \<longleftrightarrow> untouched c c' \<and> \<not> cn_autocommit c'"

definition own_error :: "exn \<Rightarrow> bool" where
  "own_error e \<longleftrightarrow> (\<exists>what. e = SQLException 0 what)"

lemma own_error_0 [simp]: "own_error (SQLException 0 what)"
  by (simp add: own_error_def)

definition failed :: "bool \<Rightarrow> conn \<Rightarrow> exn \<Rightarrow> conn \<Rightarrow> bool" where
  "failed why c e c' \<longleftrightarrow> is_sql e \<and> in_tx c c' \<and> (no_fault c \<longrightarrow> why \<and> own_error e)"

lemma is_sql_SQLException [simp]: "is_sql (SQLException code what)"
  by (auto simp: is_sql_def)

lemma in_tx_start: "\<not> cn_autocommit c \<Longrightarrow> in_tx c c"
  by (simp add: in_tx_def)

lemma in_tx_ticked: "in_tx c c' \<Longrightarrow> ticked c' c'' \<Longrightarrow> in_tx c c''"
  by (auto simp: in_tx_def dest: untouched_ticked tickedD)

lemma in_tx_apply_update [simp]:
  "in_tx c c' \<Longrightarrow> in_tx c (apply_update k gen ai d (c'\<lparr>cn_tick := t\<rparr>))"
  by (auto simp: in_tx_def untouched_def same_env_def)

lemma in_tx_env: "in_tx c c' \<Longrightarrow> cn_found_rows c' = cn_found_rows c \<and> cn_fault c' = cn_fault c"
  by (simp add: in_tx_def untouched_def same_env_def)

lemma in_tx_no_fault: "in_tx c c' \<Longrightarrow> no_fault c' = no_fault c"
  using in_tx_env by (simp add: no_fault_def)

lemma failed_ticked:
  "in_tx c c' \<Longrightarrow> is_sql e \<Longrightarrow> ticked c' c'' \<Longrightarrow> \<not> no_fault c' \<Longrightarrow> failed why c e c''"
  by (auto simp: failed_def in_tx_no_fault intro: in_tx_ticked)

lemma failed_throw [simp]: "in_tx c c' \<Longrightarrow> why \<Longrightarrow> failed why c (SQLException 0 what) c'"
  by (simp add: failed_def)

text \<open>\<open>Commit\<close> makes the transaction's tables the committed ones.\<close>

definition committed :: "conn \<Rightarrow> autoinc \<Rightarrow> db \<Rightarrow> conn \<Rightarrow> bool" where
  "committed c ai d c' \<longleftrightarrow> same_env c c' \<and> \<not> cn_autocommit c' \<and> cn_work c' = d
     \<and> cn_committed c' = d \<and> cn_autoinc c' = ai"

lemma wp_Commit:
  assumes "in_tx c c1" and "cn_work c1 = d" and "cn_autoinc c1 = ai"
  shows "wp Commit (\<lambda>_. committed c ai d) (failed why c) c1"
  using assms unfolding Commit_def
  by (auto simp: wp_rules Let_def wp_def [of "\<lambda>c. (Inr (), _ c)"] committed_def in_tx_def
      failed_def no_fault_def untouched_def same_env_def split: option.splits)

text \<open>A statement followed by the test of its row count.\<close>

lemma wp_checked:
  "wp m (\<lambda>a s'. (b a \<longrightarrow> E e s') \<and> (\<not> b a \<longrightarrow> wp (f a) Q E s')) E s
   \<Longrightarrow> wp (bindM m (\<lambda>a. bindM (throwIf (b a) e) (\<lambda>_. f a))) Q E s"
  by (auto simp: wp_rules elim!: wp_mono)

lemma wp_bindI: "wp m (\<lambda>a. wp (f a) Q E) E s \<Longrightarrow> wp (bindM m f) Q E s"
  by (simp add: wp_rules)

lemma wp_guarded:
  "(b \<Longrightarrow> E e s) \<Longrightarrow> (\<not> b \<Longrightarrow> wp f Q E s) \<Longrightarrow> wp (bindM (throwIf b e) (\<lambda>_. f)) Q E s"
  by (auto simp: wp_rules)

definition started :: "conn \<Rightarrow> conn \<Rightarrow> bool" where
  "started c c' \<longleftrightarrow> untouched c c' \<and> cn_work c' = cn_work c \<and> cn_autoinc c' = cn_autoinc c"

lemma started_ticked: "started c c' \<Longrightarrow> ticked c' c'' \<Longrightarrow> started c c''"
  by (auto simp: started_def dest: untouched_ticked tickedD)

lemma wp_SetAutoCommit_False:
  assumes "\<And>c'. started c c' \<Longrightarrow> \<not> cn_autocommit c' \<Longrightarrow> Q () c'"
    and "\<And>e c'. is_sql e \<Longrightarrow> started c c' \<Longrightarrow> \<not> no_fault c \<Longrightarrow> E e c'"
  shows "wp (SetAutoCommit False) Q E c"
  unfolding SetAutoCommit_def
  by (auto simp: wp_rules Let_def wp_def [of "\<lambda>c. (Inr (), _ c)"] no_fault_def started_def
      untouched_def same_env_def split: option.splits intro!: assms)

lemma started_no_fault: "started c c' \<Longrightarrow> no_fault c' = no_fault c"
  by (simp add: started_def untouched_def same_env_def no_fault_def)

text \<open>
  \<open>idle\<close>: no uncommitted change.  \<open>rollback_works\<close>: the connector never throws from
  \<open>rollback\<close>; without it the purchase is not atomic (\<open>Purchase_partial_commit\<close>).
\<close>

definition idle :: "conn \<Rightarrow> bool" where
  "idle c \<longleftrightarrow> cn_work c = cn_committed c"

definition rollback_works :: "conn \<Rightarrow> bool" where
  "rollback_works c \<longleftrightarrow> (\<forall>n. cn_fault c n OpRollback = None)"

end
