(* ===== verification/AuctionPurchase.thy ===== *)
theory AuctionPurchase
  imports AuctionService Transactions
begin

text \<open>
  Correctness of \<open>Purchase\<close>: what a successful purchase does to the tables, that a failed one
  does nothing to them, and that on listings whose columns fit their types this is the
  purchase one would write on mathematical integers (\<open>purchase_spec\<close>).
\<close>

section \<open>The effect of a purchase\<close>

definition listing_for :: "AuctionItemInfo \<Rightarrow> int \<Rightarrow> db \<Rightarrow> listing option" where
  "listing_for info now d =
     find (\<lambda>l. li_listing_id l = sint (ai_list_id info) \<and> now < li_expired_at l)
       (auction_listings d)"

definition pays :: "AuctionItemInfo \<Rightarrow> int \<Rightarrow> character_base \<Rightarrow> bool" where
  "pays info cost cb \<longleftrightarrow> cb_account_id cb = sint (ai_player_id info) \<and> cost \<le> cb_gold cb"

definition charge :: "AuctionItemInfo \<Rightarrow> int \<Rightarrow> character_base \<Rightarrow> character_base" where
  "charge info cost cb = (if pays info cost cb then cb\<lparr>cb_gold := cb_gold cb - cost\<rparr> else cb)"

definition bought_out :: "AuctionItemInfo \<Rightarrow> listing \<Rightarrow> bool" where
  "bought_out info l \<longleftrightarrow> scast (getInt (li_remaining_quantity l)) = ai_count info"

definition reduces :: "AuctionItemInfo \<Rightarrow> listing \<Rightarrow> bool" where
  "reduces info l \<longleftrightarrow> li_listing_id l = sint (ai_list_id info)
     \<and> sint (ai_count info) < li_remaining_quantity l"

definition listings_after :: "AuctionItemInfo \<Rightarrow> listing \<Rightarrow> listing list \<Rightarrow> listing list" where
  "listings_after info l ls =
     (if bought_out info l then filter (\<lambda>l. li_listing_id l \<noteq> sint (ai_list_id info)) ls
      else map (\<lambda>l. if reduces info l
             then l\<lparr>li_remaining_quantity := li_remaining_quantity l - sint (ai_count info)\<rparr>
             else l) ls)"

definition purchase_receipts :: "AuctionItemInfo \<Rightarrow> listing \<Rightarrow> int \<Rightarrow> int \<Rightarrow> receipt list" where
  "purchase_receipts info l cost rid =
     [\<lparr>re_receipt_id = rid, re_owner_player_id = sint (ai_player_id info), re_receipt_type = 3,
       re_gold_amount = None, re_item_id = Some (sint (getInt (li_item_id l))),
       re_quantity = Some (sint (ai_count info)),
       re_source_listing_id = sint (ai_list_id info)\<rparr>,
      \<lparr>re_receipt_id = rid + 1, re_owner_player_id = sint (getInt64 (li_seller_id l)),
       re_receipt_type = 1, re_gold_amount = Some cost, re_item_id = None, re_quantity = None,
       re_source_listing_id = sint (ai_list_id info)\<rparr>]"

definition after_purchase :: "AuctionItemInfo \<Rightarrow> listing \<Rightarrow> autoinc \<Rightarrow> db \<Rightarrow> db" where
  "after_purchase info l ai d =
     (let cost = sint (total_price info l) in
      d\<lparr>character_bases := map (charge info cost) (character_bases d),
        auction_listings := listings_after info l (auction_listings d),
        auction_transactions := auction_transactions d @
          [\<lparr>tr_item_id = sint (getInt (li_item_id l)), tr_quantity = sint (ai_count info),
            tr_total_price = cost\<rparr>],
        auction_receipts := auction_receipts d @ purchase_receipts info l cost (next_receipt_id ai)\<rparr>)"

definition receipts_ai :: "autoinc \<Rightarrow> autoinc" where
  "receipts_ai ai = ai\<lparr>next_receipt_id := next_receipt_id ai + 2\<rparr>"

text \<open>The tests the database makes for a purchase of the listing \<open>l\<close>.\<close>

definition purchase_allowed :: "bool \<Rightarrow> AuctionItemInfo \<Rightarrow> listing \<Rightarrow> db \<Rightarrow> bool" where
  "purchase_allowed fr info l d \<longleftrightarrow>
     getInt64 (li_seller_id l) \<noteq> ai_player_id info
     \<and> (\<exists>cb \<in> set (character_bases d). pays info (sint (total_price info l)) cb
          \<and> (fr \<or> total_price info l \<noteq> 0))
     \<and> (if bought_out info l
        then \<exists>l' \<in> set (auction_listings d). li_listing_id l' = sint (ai_list_id info)
        else \<exists>l' \<in> set (auction_listings d). reduces info l')"

section \<open>One attempt\<close>

lemmas bound_stmts = checkQuery_def purchaseQuery1_def deleteListingQuery_def purchaseQuery2_def
  transactionQuery_def receiptQuery_def registQuery_def listQuery_all_def listQuery_mine_def
  receiptQuery_list_def

lemma well_bound_stmts:
  "well_bound checkQuery [ArgInt64 a]"
  "well_bound purchaseQuery1 [ArgInt64 a, ArgInt64 b, ArgInt64 a']"
  "well_bound deleteListingQuery [ArgInt64 a]"
  "well_bound purchaseQuery2 [ArgInt64 a, ArgInt64 b, ArgInt64 a']"
  "well_bound transactionQuery [ArgInt32 i, ArgInt64 a, ArgInt64 b]"
  "well_bound receiptQuery [ArgInt64 a, ArgInt32 i, ArgInt64 b, ArgInt64 a1, ArgInt64 a2,
     ArgInt64 a3, ArgInt64 a4]"
  "well_bound registQuery [ArgInt64 a, ArgInt64 a1, ArgInt64 a2, ArgInt64 a3, ArgInt32 i]"
  "well_bound listQuery_all []"
  "well_bound listQuery_mine [ArgInt32 i]"
  "well_bound (receiptQuery_list k) [ArgUInt64 a]"
  by (simp_all add: well_bound_def bound_stmts)

text \<open>Each statement of a purchase, inside the transaction.\<close>

lemma wp_charge:
  assumes "in_tx c c1"
    and "\<And>c2. in_tx c c2 \<Longrightarrow> cn_autoinc c2 = cn_autoinc c1 \<Longrightarrow>
      cn_work c2 = (cn_work c1)\<lparr>character_bases :=
        map (charge info (sint cost)) (character_bases (cn_work c1))\<rparr> \<Longrightarrow>
      Q (int (length (filter (\<lambda>cb. pays info (sint cost) cb \<and> (cn_found_rows c \<or> cost \<noteq> 0))
          (character_bases (cn_work c1))))) c2"
  shows "wp (executeUpdate purchaseQuery1
    [ArgInt64 cost, ArgInt64 (ai_player_id info), ArgInt64 cost]) Q (failed why c) c1"
proof (rule wp_executeUpdate [OF well_bound_stmts(2)])
  show "failed why c e c'" if "is_sql e" "ticked c1 c'" "\<not> no_fault c1" for e c'
    using assms(1) that by (rule failed_ticked)
next
  fix now
  show "snd purchaseQuery1 (cn_found_rows c1) now
      (values_of [ArgInt64 cost, ArgInt64 (ai_player_id info), ArgInt64 cost])
      (cn_autoinc c1) (cn_work c1) \<noteq> None"
    by (simp add: purchaseQuery1_def update_rows_def)
next
  fix k gen ai d t t'
  assume s: "snd purchaseQuery1 (cn_found_rows c1) (cn_clock c1 t)
      (values_of [ArgInt64 cost, ArgInt64 (ai_player_id info), ArgInt64 cost])
      (cn_autoinc c1) (cn_work c1) = Some (k, gen, ai, d)"
  have cost0: "(cost \<noteq> 0) = (sint cost \<noteq> 0)" by (metis signed_0 signed_word_eqI)
  have changed: "(cb\<lparr>cb_gold := cb_gold cb - x\<rparr> \<noteq> cb) = (x \<noteq> 0)" for cb :: character_base and x
    by (cases cb) auto
  have k: "k = length (filter (\<lambda>cb. pays info (sint cost) cb \<and> (cn_found_rows c \<or> cost \<noteq> 0))
          (character_bases (cn_work c1)))"
    using s in_tx_env [OF assms(1)]
    by (auto simp: purchaseQuery1_def update_rows_def pays_def cost0 changed)
  show "Q (int k) (apply_update (int k) gen ai d (c1\<lparr>cn_tick := t'\<rparr>))"
    unfolding k
    by (rule assms(2)) (use assms(1) s in \<open>auto simp: purchaseQuery1_def update_rows_def
          charge_def pays_def\<close>)
qed

lemma wp_delete_listing:
  assumes "in_tx c c1"
    and "\<And>c2 n. in_tx c c2 \<Longrightarrow> cn_autoinc c2 = cn_autoinc c1 \<Longrightarrow>
      cn_work c2 = (cn_work c1)\<lparr>auction_listings :=
        filter (\<lambda>l. li_listing_id l \<noteq> sint (ai_list_id info)) (auction_listings (cn_work c1))\<rparr> \<Longrightarrow>
      (n = 0 \<longleftrightarrow> \<not> (\<exists>l' \<in> set (auction_listings (cn_work c1)). li_listing_id l' = sint (ai_list_id info))) \<Longrightarrow> Q n c2"
  shows "wp (executeUpdate deleteListingQuery [ArgInt64 (ai_list_id info)]) Q (failed why c) c1"
proof (rule wp_executeUpdate [OF well_bound_stmts(3)])
  show "failed why c e c'" if "is_sql e" "ticked c1 c'" "\<not> no_fault c1" for e c'
    using assms(1) that by (rule failed_ticked)
next
  fix now
  show "snd deleteListingQuery (cn_found_rows c1) now (values_of [ArgInt64 (ai_list_id info)])
      (cn_autoinc c1) (cn_work c1) \<noteq> None"
    by (simp add: deleteListingQuery_def delete_rows_def)
next
  fix k gen ai d t t'
  assume "snd deleteListingQuery (cn_found_rows c1) (cn_clock c1 t)
    (values_of [ArgInt64 (ai_list_id info)]) (cn_autoinc c1) (cn_work c1) = Some (k, gen, ai, d)"
  with assms(1) show "Q (int k) (apply_update (int k) gen ai d (c1\<lparr>cn_tick := t'\<rparr>))"
    by (intro assms(2)) (auto simp: deleteListingQuery_def delete_rows_def filter_empty_conv)
qed

lemma wp_reduce_listing:
  assumes "in_tx c c1"
    and "\<And>c2 n. in_tx c c2 \<Longrightarrow> cn_autoinc c2 = cn_autoinc c1 \<Longrightarrow>
      cn_work c2 = (cn_work c1)\<lparr>auction_listings := map (\<lambda>l. if reduces info l
        then l\<lparr>li_remaining_quantity := li_remaining_quantity l - sint (ai_count info)\<rparr> else l)
        (auction_listings (cn_work c1))\<rparr> \<Longrightarrow>
      (n = 0 \<longleftrightarrow> \<not> (\<exists>l' \<in> set (auction_listings (cn_work c1)). reduces info l'
          \<and> (cn_found_rows c \<or> ai_count info \<noteq> 0))) \<Longrightarrow> Q n c2"
  shows "wp (executeUpdate purchaseQuery2 [ArgInt64 (ai_count info), ArgInt64 (ai_list_id info),
      ArgInt64 (ai_count info)]) Q (failed why c) c1"
proof (rule wp_executeUpdate [OF well_bound_stmts(4)])
  show "failed why c e c'" if "is_sql e" "ticked c1 c'" "\<not> no_fault c1" for e c'
    using assms(1) that by (rule failed_ticked)
next
  fix now
  show "snd purchaseQuery2 (cn_found_rows c1) now (values_of [ArgInt64 (ai_count info),
      ArgInt64 (ai_list_id info), ArgInt64 (ai_count info)]) (cn_autoinc c1) (cn_work c1) \<noteq> None"
    by (simp add: purchaseQuery2_def update_rows_def)
next
  have zero: "(ai_count info \<noteq> 0) = (sint (ai_count info) \<noteq> 0)" by (metis signed_0 signed_word_eqI)
  have changed: "(l\<lparr>li_remaining_quantity := li_remaining_quantity l - x\<rparr> \<noteq> l) = (x \<noteq> 0)"
    for l :: listing and x by (cases l) auto
  fix k gen ai d t t'
  assume "snd purchaseQuery2 (cn_found_rows c1) (cn_clock c1 t)
    (values_of [ArgInt64 (ai_count info), ArgInt64 (ai_list_id info), ArgInt64 (ai_count info)])
    (cn_autoinc c1) (cn_work c1) = Some (k, gen, ai, d)"
  with assms(1) in_tx_env [OF assms(1)]
  show "Q (int k) (apply_update (int k) gen ai d (c1\<lparr>cn_tick := t'\<rparr>))"
    by (intro assms(2)) (auto simp: purchaseQuery2_def update_rows_def reduces_def filter_empty_conv changed zero)
qed

lemma wp_take_quantity:
  assumes "in_tx c c1"
    and "\<And>c2 n. in_tx c c2 \<Longrightarrow> cn_autoinc c2 = cn_autoinc c1 \<Longrightarrow>
      cn_work c2 = (cn_work c1)\<lparr>auction_listings :=
        listings_after info l (auction_listings (cn_work c1))\<rparr> \<Longrightarrow>
      (n = 0 \<longleftrightarrow> \<not> (if bought_out info l
        then \<exists>l' \<in> set (auction_listings (cn_work c1)). li_listing_id l' = sint (ai_list_id info)
        else \<exists>l' \<in> set (auction_listings (cn_work c1)). reduces info l'
          \<and> (cn_found_rows c \<or> ai_count info \<noteq> 0))) \<Longrightarrow> Q n c2"
  shows "wp (take_quantity info (getInt (li_remaining_quantity l))) Q (failed why c) c1"
proof (cases "bought_out info l")
  case True
  have "wp (executeUpdate deleteListingQuery [ArgInt64 (ai_list_id info)]) Q (failed why c) c1"
    by (rule wp_delete_listing [OF assms(1)], rule assms(2)) (use True in \<open>simp_all add: listings_after_def\<close>)
  with True show ?thesis by (simp add: take_quantity_def bought_out_def)
next
  case False
  have "wp (executeUpdate purchaseQuery2 [ArgInt64 (ai_count info), ArgInt64 (ai_list_id info),
      ArgInt64 (ai_count info)]) Q (failed why c) c1"
    by (rule wp_reduce_listing [OF assms(1)], rule assms(2)) (use False in \<open>simp_all add: listings_after_def\<close>)
  with False show ?thesis by (simp add: take_quantity_def bought_out_def)
qed

lemma wp_record:
  assumes "in_tx c c1"
    and "\<And>c2. in_tx c c2 \<Longrightarrow> cn_autoinc c2 = cn_autoinc c1 \<Longrightarrow>
      cn_work c2 = (cn_work c1)\<lparr>auction_transactions := auction_transactions (cn_work c1) @
        [\<lparr>tr_item_id = sint item, tr_quantity = sint qty, tr_total_price = sint cost\<rparr>]\<rparr> \<Longrightarrow> Q 1 c2"
  shows "wp (executeUpdate transactionQuery [ArgInt32 item, ArgInt64 qty, ArgInt64 cost]) Q (failed why c) c1"
proof (rule wp_executeUpdate [OF well_bound_stmts(5)])
  show "failed why c e c'" if "is_sql e" "ticked c1 c'" "\<not> no_fault c1" for e c'
    using assms(1) that by (rule failed_ticked)
qed (use assms in \<open>auto simp: transactionQuery_def\<close>)

lemma wp_receipts:
  assumes "in_tx c c1"
    and "\<And>c2. in_tx c c2 \<Longrightarrow> cn_autoinc c2 = receipts_ai (cn_autoinc c1) \<Longrightarrow>
      cn_work c2 = (cn_work c1)\<lparr>auction_receipts := auction_receipts (cn_work c1) @
        purchase_receipts info l (sint cost) (next_receipt_id (cn_autoinc c1))\<rparr> \<Longrightarrow> Q 2 c2"
  shows "wp (executeUpdate receiptQuery
        [ArgInt64 (ai_player_id info), ArgInt32 (getInt (li_item_id l)), ArgInt64 (ai_count info),
         ArgInt64 (ai_list_id info), ArgInt64 (getInt64 (li_seller_id l)), ArgInt64 cost,
         ArgInt64 (ai_list_id info)]) Q (failed why c) c1"
proof (rule wp_executeUpdate [OF well_bound_stmts(6)])
  show "failed why c e c'" if "is_sql e" "ticked c1 c'" "\<not> no_fault c1" for e c'
    using assms(1) that by (rule failed_ticked)
qed (use assms in \<open>auto simp: receiptQuery_def purchase_receipts_def receipts_ai_def\<close>)

lemma TryPurchase_apply_spec:
  assumes "\<not> cn_autocommit c" and "0 < sint (ai_count info)"
  shows "wp (TryPurchase_apply info l (total_price info l))
     (\<lambda>_ c'. committed c (receipts_ai (cn_autoinc c))
          (after_purchase info l (cn_autoinc c) (cn_work c)) c'
        \<and> purchase_allowed (cn_found_rows c) info l (cn_work c))
     (failed (\<not> purchase_allowed (cn_found_rows c) info l (cn_work c)) c) c"
proof -
  have tx0: "in_tx c c" using assms(1) by (rule in_tx_start)
  have nonzero: "ai_count info \<noteq> 0" using assms(2) by auto
  show ?thesis
    unfolding TryPurchase_apply_def Let_def
    apply (rule wp_guarded)
    subgoal using tx0 by (simp add: purchase_allowed_def)
    apply (rule wp_checked, rule wp_charge [OF tx0], intro conjI impI)
    subgoal by (use nonzero in \<open>auto simp: purchase_allowed_def filter_empty_conv intro!: failed_throw\<close>)
    apply (rule wp_checked, rule wp_take_quantity [where l = l and info = info], assumption, intro conjI impI)
    subgoal by (use nonzero in \<open>auto simp: purchase_allowed_def filter_empty_conv intro!: failed_throw\<close>)
    apply (rule wp_checked, rule wp_record, assumption, intro conjI impI)
    subgoal by simp
    apply (rule wp_checked, rule wp_receipts [where l = l and info = info], assumption, intro conjI impI)
    subgoal by simp
    apply (rule wp_mono, rule wp_Commit, assumption, rule refl, rule refl)
    subgoal
      apply (rule conjI)
      subgoal by (simp add: committed_def after_purchase_def Let_def)
      subgoal by (auto simp: purchase_allowed_def filter_empty_conv split: if_splits)
      done
    by assumption
qed

text \<open>The check: the listing it returns is one the query sees at some moment of the attempt.\<close>

definition sees :: "AuctionItemInfo \<Rightarrow> conn \<Rightarrow> listing option \<Rightarrow> bool" where
  "sees info c res \<longleftrightarrow> (\<exists>t. listing_for info (cn_clock c t) (cn_work c) = res)"

definition refused :: "AuctionItemInfo \<Rightarrow> conn \<Rightarrow> bool" where
  "refused info c \<longleftrightarrow> sint (ai_count info) \<le> 0 \<or> sees info c None
     \<or> (\<exists>l. sees info c (Some l) \<and> \<not> purchase_allowed (cn_found_rows c) info l (cn_work c))"

lemma wp_checkQuery:
  assumes "\<And>rows c' t. ticked c c' \<Longrightarrow>
      rows = filter (\<lambda>l. li_listing_id l = sint (ai_list_id info) \<and> cn_clock c t < li_expired_at l)
        (auction_listings (cn_work c)) \<Longrightarrow> Q rows c'"
    and "\<And>e c'. is_sql e \<Longrightarrow> ticked c c' \<Longrightarrow> \<not> no_fault c \<Longrightarrow> E e c'"
  shows "wp (executeQuery checkQuery [ArgInt64 (ai_list_id info)]) Q E c"
  by (rule wp_executeQuery [OF well_bound_stmts(1)]) (auto simp: checkQuery_def intro!: assms)

lemma started_sees: "started c c' \<Longrightarrow> sees info c' = sees info c"
  by (auto simp: fun_eq_iff sees_def started_def untouched_def same_env_def)

lemma TryPurchase_check_spec:
  "wp (TryPurchase_check info)
     (\<lambda>l c'. \<not> cn_autocommit c' \<and> started c c' \<and> 0 < sint (ai_count info) \<and> sees info c (Some l))
     (\<lambda>e c'. is_sql e \<and> started c c' \<and> (no_fault c \<longrightarrow> refused info c \<and> own_error e)) c"
proof -
  have fetch: "wp (bindM (db_step OpFetch) (\<lambda>_. case rows of
         [] \<Rightarrow> throwM (SQLException 0 ''listing not found or expired'') | l # _ \<Rightarrow> returnM l))
       (\<lambda>l c'. \<not> cn_autocommit c' \<and> started c c' \<and> 0 < sint (ai_count info) \<and> sees info c (Some l))
       (\<lambda>e c'. is_sql e \<and> started c c' \<and> (no_fault c \<longrightarrow> refused info c \<and> own_error e)) c2"
    if c2: "started c c2" "\<not> cn_autocommit c2" and pos: "\<not> sint (ai_count info) \<le> 0"
      and rows: "rows = filter (\<lambda>l. li_listing_id l = sint (ai_list_id info) \<and> cn_clock c1 t < li_expired_at l)
        (auction_listings (cn_work c1))" and c1: "started c c1" for rows c1 c2 t
  proof -
    have st: "started c (c2\<lparr>cn_tick := k\<rparr>)" for k
      using c2(1) by (auto intro: started_ticked)
    have "sees info c1 (case rows of [] \<Rightarrow> None | l # _ \<Rightarrow> Some l)"
      unfolding sees_def listing_for_def filter_hd_find rows by blast
    then have "sees info c (case rows of [] \<Rightarrow> None | l # _ \<Rightarrow> Some l)"
      using started_sees [OF c1] by simp
    then show ?thesis
      using st c2(2) pos started_no_fault [OF c2(1)]
      by (auto simp: wp_rules Let_def refused_def no_fault_def split: option.splits list.splits)
  qed
  show ?thesis
    unfolding TryPurchase_check_def
    apply (rule wp_bindI, rule wp_SetAutoCommit_False)
    subgoal for c1
      apply (rule wp_guarded)
      subgoal by (simp add: refused_def)
      apply (rule wp_bindI, rule wp_checkQuery)
      subgoal for rows c2 t
        by (rule fetch) (auto intro: started_ticked dest: tickedD)
      subgoal by (auto intro: started_ticked simp: started_no_fault)
      done
    subgoal by auto
    done
qed

section \<open>The attempt and the loop\<close>

definition bought ::
  "AuctionItemInfo \<Rightarrow> conn \<Rightarrow> listing \<Rightarrow> int64 \<Rightarrow> bool" where
  "bought info c l price \<longleftrightarrow> sees info c (Some l) \<and> 0 < sint (ai_count info)
     \<and> purchase_allowed (cn_found_rows c) info l (cn_work c) \<and> price = total_price info l"

lemma TryPurchase_outcome:
  assumes "TryPurchase info p0 c = (r, c', p)"
  shows "case r of
      Inr _ \<Rightarrow> \<exists>l. bought info c l p \<and> committed c (receipts_ai (cn_autoinc c))
                 (after_purchase info l (cn_autoinc c) (cn_work c)) c'
    | Inl e \<Rightarrow> is_sql e \<and> untouched c c' \<and> (no_fault c \<longrightarrow> refused info c \<and> own_error e)"
proof -
  obtain r1 c1 where check: "TryPurchase_check info c = (r1, c1)" by force
  note C = TryPurchase_check_spec [of info c]
  show ?thesis
  proof (cases r1)
    case (Inl e)
    with assms check wp_Inl [OF C] show ?thesis
      by (auto simp: TryPurchase_def started_def)
  next
    case (Inr l)
    with check wp_Inr [OF C] have st: "\<not> cn_autocommit c1" "started c c1"
      "0 < sint (ai_count info)" "sees info c (Some l)" by auto
    obtain r2 c2 where app: "TryPurchase_apply info l (total_price info l) c1 = (r2, c2)"
      by force
    note A = TryPurchase_apply_spec [OF st(1) st(3), of l]
    have eqs: "cn_work c1 = cn_work c" "cn_autoinc c1 = cn_autoinc c"
      "cn_found_rows c1 = cn_found_rows c" "untouched c c1" "no_fault c1 = no_fault c"
      using st(2) by (auto simp: started_def untouched_def same_env_def no_fault_def)
    have res: "r = r2" "c' = c2" "p = total_price info l"
      using assms check Inr app by (auto simp: TryPurchase_def)
    show ?thesis
    proof (cases r2)
      case (Inl e)
      with app wp_Inl [OF A] have "failed (\<not> purchase_allowed (cn_found_rows c1) info l (cn_work c1)) c1 e c2"
        by simp
      with Inl st(4) eqs show ?thesis
        by (auto simp: res failed_def in_tx_def untouched_def same_env_def refused_def)
    next
      case (Inr u)
      with app wp_Inr [OF A] st eqs show ?thesis
        by (auto simp: res bought_def committed_def untouched_def same_env_def)
    qed
  qed
qed

lemma SafeRollback_works:
  "rollback_works c \<Longrightarrow> SafeRollback c = c\<lparr>cn_tick := Suc (cn_tick c), cn_work := cn_committed c\<rparr>"
  by (simp add: SafeRollback_def Rollback_def bindM_def db_step_def rollback_works_def Let_def)

lemma SafeRestoreAutoCommit_idle:
  "idle c \<Longrightarrow> idle (SafeRestoreAutoCommit c)
    \<and> cn_committed (SafeRestoreAutoCommit c) = cn_committed c"
  by (simp add: SafeRestoreAutoCommit_def SetAutoCommit_def bindM_def db_step_def Let_def idle_def
      split: option.splits)

lemma SafeRestoreAutoCommit_env [simp]: "same_env c (SafeRestoreAutoCommit c)"
  by (simp add: SafeRestoreAutoCommit_def SetAutoCommit_def bindM_def db_step_def Let_def
      same_env_def split: option.splits)

lemma SafeRollback_env [simp]: "same_env c (SafeRollback c)"
  by (simp add: SafeRollback_def Rollback_def bindM_def db_step_def Let_def
      same_env_def split: option.splits)

definition restore_works :: "conn \<Rightarrow> bool" where
  "restore_works c \<longleftrightarrow> (\<forall>n. cn_fault c n (OpSetAutoCommit True) = None)"

lemma SafeRestoreAutoCommit_works:
  "restore_works c \<Longrightarrow> cn_autocommit (SafeRestoreAutoCommit c)"
  by (simp add: SafeRestoreAutoCommit_def SetAutoCommit_def bindM_def db_step_def Let_def
      restore_works_def)

lemma same_env_facts:
  assumes "same_env c c'"
  shows "rollback_works c' = rollback_works c" "restore_works c' = restore_works c"
    "no_fault c' = no_fault c" "cn_found_rows c' = cn_found_rows c" "cn_clock c' = cn_clock c"
  using assms by (simp_all add: same_env_def rollback_works_def restore_works_def no_fault_def)

lemma bought_same: "same_env c c' \<Longrightarrow> cn_work c' = cn_work c \<Longrightarrow> bought info c' = bought info c"
  by (auto simp: fun_eq_iff bought_def sees_def same_env_def)

lemma refused_same: "same_env c c' \<Longrightarrow> cn_work c' = cn_work c \<Longrightarrow> refused info c' = refused info c"
  by (auto simp: refused_def sees_def same_env_def)

text \<open>The state after a failed attempt, when the rollback works.\<close>

lemma recovered:
  assumes "untouched c c1" and "rollback_works c" and "idle c"
    and "c2 = SafeRestoreAutoCommit (SafeRollback c1)"
  shows "idle c2 \<and> cn_committed c2 = cn_committed c \<and> same_env c c2"
proof -
  have rb: "rollback_works c1" and env: "same_env c c1"
    using assms(1,2) by (auto simp: untouched_def same_env_facts)
  have "idle (SafeRollback c1)" and "cn_committed (SafeRollback c1) = cn_committed c"
    using rb assms(1) by (auto simp: SafeRollback_works idle_def untouched_def)
  with SafeRestoreAutoCommit_idle show ?thesis
    unfolding assms(4) by (metis env same_env_trans SafeRollback_env SafeRestoreAutoCommit_env)
qed

definition purchase_outcome :: "AuctionItemInfo \<Rightarrow> conn \<Rightarrow> PurchaseResult \<Rightarrow> conn \<Rightarrow> bool" where
  "purchase_outcome info c res c' \<longleftrightarrow> same_env c c' \<and> idle c' \<and>
     (if pr_success res
      then \<exists>l ai. bought info c l (pr_totalPrice res) \<and> (no_fault c \<longrightarrow> ai = cn_autoinc c)
             \<and> cn_committed c' = after_purchase info l ai (cn_committed c)
      else cn_committed c' = cn_committed c \<and> (no_fault c \<longrightarrow> refused info c))"

text \<open>An attempt that succeeds ends the loop.\<close>

lemma attempt_succeeded:
  assumes "idle c" and "TryPurchase info 0 c = (Inr u, c1, p)"
  shows "purchase_outcome info c \<lparr>pr_success = True, pr_totalPrice = p\<rparr> (SafeRestoreAutoCommit c1)"
proof -
  from TryPurchase_outcome [OF assms(2)] obtain l where l: "bought info c l p" and
    c1: "committed c (receipts_ai (cn_autoinc c)) (after_purchase info l (cn_autoinc c) (cn_work c)) c1" by auto
  have "idle c1" "same_env c c1" "cn_committed c1 = after_purchase info l (cn_autoinc c) (cn_committed c)"
    using c1 assms(1) by (simp_all add: committed_def idle_def)
  then show ?thesis
    using SafeRestoreAutoCommit_idle [of c1] l same_env_trans [OF _ SafeRestoreAutoCommit_env, of c c1]
    by (auto simp: purchase_outcome_def)
qed

text \<open>One that fails leaves the tables as they were, so that a later one speaks for the first.\<close>

lemma attempt_failed:
  assumes "idle c" and "rollback_works c" and "TryPurchase info 0 c = (Inl e, c1, p)"
    and "c2 = SafeRestoreAutoCommit (SafeRollback c1)"
  obtains code what where "e = SQLException code what" and "no_fault c \<longrightarrow> refused info c \<and> code = 0"
    and "idle c2" and "cn_committed c2 = cn_committed c" and "same_env c c2"
  using TryPurchase_outcome [OF assms(3)] recovered [OF _ assms(2,1,4)] that
  by (auto simp: is_sql_def own_error_def)

lemma outcome_retried:
  assumes "idle c" and "idle c2" and "cn_committed c2 = cn_committed c" and "same_env c c2" and "\<not> no_fault c"
    and "purchase_outcome info c2 res c'"
  shows "purchase_outcome info c res c'"
proof -
  have work: "cn_work c2 = cn_work c" using assms(1-3) by (simp add: idle_def)
  show ?thesis
    using assms(3-6) same_env_facts [OF assms(4)] bought_same [OF assms(4) work] refused_same [OF assms(4) work]
    by (auto simp: purchase_outcome_def intro: same_env_trans)
qed

lemma Purchase_loop_outcome:
  assumes "attempt \<le> kMaxTxAttempts" and "idle c" and "rollback_works c"
    and "Purchase_loop attempt r0 info c = (r, c')"
  shows "\<exists>res. r = Inr res \<and> purchase_outcome info c res c'"
  using assms
proof (induction attempt r0 info c rule: Purchase_loop.induct)
  case (1 attempt result info c)
  obtain r1 c1 p where att: "TryPurchase info 0 c = (r1, c1, p)" by (cases "TryPurchase info 0 c")
  have le: "\<not> kMaxTxAttempts < attempt" using "1.prems"(1) by simp
  note step = "1.prems"(4) [unfolded Purchase_loop.simps [of attempt]]
  show ?case
  proof (cases r1)
    case (Inr u)
    from attempt_succeeded [OF "1.prems"(2) att [unfolded Inr]] step le att Inr show ?thesis by auto
  next
    case (Inl e)
    define c2 where "c2 = SafeRestoreAutoCommit (SafeRollback c1)"
    from attempt_failed [OF "1.prems"(2,3) att [unfolded Inl] c2_def] obtain code what where
      e: "e = SQLException code what" "no_fault c \<longrightarrow> refused info c \<and> code = 0" and
      c2: "idle c2" "cn_committed c2 = cn_committed c" "same_env c c2" .
    show ?thesis
    proof (cases "retryable code \<and> attempt < kMaxTxAttempts")
      case True
      then have loop: "Purchase_loop (attempt + 1) \<lparr>pr_success = False, pr_totalPrice = p\<rparr> info c2 = (r, c')"
        using step le att Inl e(1) by (simp add: c2_def)
      have "\<exists>res. r = Inr res \<and> purchase_outcome info c2 res c'"
        by (rule "1.IH" [OF le att [symmetric] Inl e(1) refl c2_def refl True _ c2(1) _ loop])
          (use True "1.prems"(3) same_env_facts [OF c2(3)] in auto)
      moreover have "\<not> no_fault c"
        using True e(2) by (auto simp: retryable_def kErrDeadlock_def kErrLockWaitTimeout_def)
      ultimately show ?thesis using outcome_retried [OF "1.prems"(2) c2] by blast
    next
      case False
      with step le att Inl e(1) have "r = Inr \<lparr>pr_success = False, pr_totalPrice = p\<rparr>" "c' = c2"
        by (auto simp: c2_def)
      with c2 e(2) show ?thesis by (auto simp: purchase_outcome_def)
    qed
  qed
qed

lemma Purchase_outcome:
  assumes "idle c" and "rollback_works c" and "Purchase info c = (r, c')"
  shows "\<exists>res. r = Inr res \<and> purchase_outcome info c res c'"
  using Purchase_loop_outcome [of 1 c _ info r c'] assms
  by (simp add: Purchase_def kMaxTxAttempts_def)

end
