(* ===== verification/AuctionSpec.thy ===== *)
theory AuctionSpec
  imports AuctionPurchase
begin

text \<open>
  The purchase on mathematical integers, what it preserves, and the refinement: on tables whose
  columns fit their types \<open>Purchase\<close> is \<open>purchase_spec\<close>.
\<close>

section \<open>The abstract purchase\<close>

text \<open>
  A table fits when every listing's columns are in the range the code reads them in, and
  \<open>listing_id\<close>, the primary key, is unique.
\<close>

definition fits :: "db \<Rightarrow> bool" where
  "fits d \<longleftrightarrow> distinct (map li_listing_id (auction_listings d))
     \<and> list_all (\<lambda>l. in_int32 (li_remaining_quantity l) \<and> 0 \<le> li_price l \<and> in_int32 (li_price l)
          \<and> in_int64 (li_seller_id l) \<and> in_int32 (li_item_id l)) (auction_listings d)"

definition purchase_update ::
  "int \<Rightarrow> int \<Rightarrow> int \<Rightarrow> listing \<Rightarrow> int \<Rightarrow> db \<Rightarrow> db" where
  "purchase_update buyer lid n l rid d =
     (let cost = li_price l * n in
      d\<lparr>character_bases := map (\<lambda>cb. if cb_account_id cb = buyer \<and> cost \<le> cb_gold cb
            then cb\<lparr>cb_gold := cb_gold cb - cost\<rparr> else cb) (character_bases d),
        auction_listings := (if n = li_remaining_quantity l
            then filter (\<lambda>l. li_listing_id l \<noteq> lid) (auction_listings d)
            else map (\<lambda>l. if li_listing_id l = lid
                   then l\<lparr>li_remaining_quantity := li_remaining_quantity l - n\<rparr> else l)
                 (auction_listings d)),
        auction_transactions := auction_transactions d @
          [\<lparr>tr_item_id = li_item_id l, tr_quantity = n, tr_total_price = cost\<rparr>],
        auction_receipts := auction_receipts d @
          [\<lparr>re_receipt_id = rid, re_owner_player_id = buyer, re_receipt_type = 3,
            re_gold_amount = None, re_item_id = Some (li_item_id l), re_quantity = Some n,
            re_source_listing_id = lid\<rparr>,
           \<lparr>re_receipt_id = rid + 1, re_owner_player_id = li_seller_id l, re_receipt_type = 1,
            re_gold_amount = Some cost, re_item_id = None, re_quantity = None,
            re_source_listing_id = lid\<rparr>]\<rparr>)"

definition purchasable :: "bool \<Rightarrow> int \<Rightarrow> int \<Rightarrow> listing \<Rightarrow> db \<Rightarrow> bool" where
  "purchasable fr buyer n l d \<longleftrightarrow> 0 < n \<and> n \<le> li_remaining_quantity l \<and> li_seller_id l \<noteq> buyer
     \<and> list_ex (\<lambda>cb. cb_account_id cb = buyer \<and> li_price l * n \<le> cb_gold cb) (character_bases d)
     \<and> (fr \<or> li_price l \<noteq> 0)"

definition find_listing :: "int \<Rightarrow> int \<Rightarrow> db \<Rightarrow> listing option" where
  "find_listing now lid d =
     find (\<lambda>l. li_listing_id l = lid \<and> now < li_expired_at l) (auction_listings d)"

definition purchase_spec ::
  "bool \<Rightarrow> int \<Rightarrow> int \<Rightarrow> int \<Rightarrow> int \<Rightarrow> int \<Rightarrow> db \<Rightarrow> (int \<times> db) option" where
  "purchase_spec fr now buyer lid n rid d =
     (case find_listing now lid d of
        None \<Rightarrow> None
      | Some l \<Rightarrow> if purchasable fr buyer n l d
                then Some (li_price l * n, purchase_update buyer lid n l rid d) else None)"

section \<open>The machine-integer purchase is the abstract one\<close>

lemma find_listing_unique:
  assumes "find_listing now lid d = Some l" and "fits d"
  shows "l \<in> set (auction_listings d)" and "li_listing_id l = lid"
    and "l' \<in> set (auction_listings d) \<Longrightarrow> li_listing_id l' = lid \<longleftrightarrow> l' = l"
  using find_SomeD [OF assms(1) [unfolded find_listing_def]] assms(2)
  by (auto simp: fits_def distinct_map dest: inj_onD)

text \<open>What the bounds give for the columns of one listing.\<close>

lemma fits_listing:
  assumes "fits d" and "l \<in> set (auction_listings d)"
  shows "sint (getInt (li_remaining_quantity l)) = li_remaining_quantity l"
    "sint (getInt64 (li_price l)) = li_price l"
    "sint (getInt64 (li_seller_id l)) = li_seller_id l"
    "sint (getInt (li_item_id l)) = li_item_id l"
    "0 \<le> li_price l" "li_price l < 2 ^ 31" "li_remaining_quantity l < 2 ^ 31"
  using assms
  by (auto simp: fits_def list_all_iff getInt_def getInt64_def in_int32_def in_int32_int64 int_casts)

lemma cost_fits:
  assumes "fits d" and "l \<in> set (auction_listings d)"
    and "0 < sint (ai_count info)" and "sint (ai_count info) < 2 ^ 31"
  shows "sint (total_price info l) = li_price l * sint (ai_count info)"
proof -
  note L = fits_listing [OF assms(1,2)]
  have "li_price l * sint (ai_count info) \<le> 2 ^ 31 * 2 ^ 31"
    by (rule mult_mono) (use L assms(3,4) in auto)
  moreover have "0 \<le> li_price l * sint (ai_count info)" using L assms(3) by simp
  ultimately have "in_int64 (li_price l * sint (ai_count info))" by (simp add: in_int64_def)
  moreover have "total_price info l = word_of_int (li_price l * sint (ai_count info))"
    by (simp add: total_price_def getInt64_def)
  ultimately show ?thesis by (metis sint_word_of_int64)
qed

lemma bought_out_iff:
  assumes "fits d" and "l \<in> set (auction_listings d)"
  shows "bought_out info l \<longleftrightarrow> sint (ai_count info) = li_remaining_quantity l"
  using fits_listing(1) [OF assms] by (auto simp: bought_out_def scast_eq_iff)

text \<open>A count above the stock is refused whatever the products are.\<close>

lemma allowed_count:
  assumes "fits d" and "find_listing now (sint (ai_list_id info)) d = Some l"
    and "purchase_allowed fr info l d"
  shows "sint (ai_count info) \<le> li_remaining_quantity l"
  using assms(3) bought_out_iff [OF assms(1), of l info] find_listing_unique [OF assms(2,1)]
  by (auto simp: purchase_allowed_def reduces_def split: if_splits)

lemma allowed_iff:
  assumes "fits d" and "find_listing now (sint (ai_list_id info)) d = Some l"
    and "0 < sint (ai_count info)"
  shows "purchase_allowed fr info l d \<longleftrightarrow> purchasable fr (sint (ai_player_id info)) (sint (ai_count info)) l d"
proof (cases "sint (ai_count info) \<le> li_remaining_quantity l")
  case True
  note U = find_listing_unique [OF assms(2,1)]
  note L = fits_listing [OF assms(1) U(1)]
  have n: "sint (ai_count info) < 2 ^ 31" using True L by simp
  note C = cost_fits [OF assms(1) U(1) assms(3) n]
  have seller: "getInt64 (li_seller_id l) = ai_player_id info \<longleftrightarrow> li_seller_id l = sint (ai_player_id info)"
    using L(3) by (metis signed_word_eqI)
  have zero: "total_price info l = 0 \<longleftrightarrow> li_price l = 0"
    using C assms(3) by (metis mult_eq_0_iff order_less_irrefl signed_0 signed_word_eqI)
  have stock: "if bought_out info l
        then \<exists>l' \<in> set (auction_listings d). li_listing_id l' = sint (ai_list_id info)
        else \<exists>l' \<in> set (auction_listings d). reduces info l'"
    using U True bought_out_iff [OF assms(1) U(1), of info] by (auto simp: reduces_def)
  show ?thesis
    unfolding purchase_allowed_def purchasable_def
    using stock seller zero True assms(3) by (auto simp: pays_def C list_ex_iff)
next
  case False
  then show ?thesis using allowed_count [OF assms(1,2)] by (auto simp: purchasable_def)
qed

lemma after_purchase_update:
  assumes "fits d" and "find_listing now (sint (ai_list_id info)) d = Some l"
    and "0 < sint (ai_count info)" and "purchase_allowed fr info l d"
  shows "after_purchase info l ai d =
    purchase_update (sint (ai_player_id info)) (sint (ai_list_id info)) (sint (ai_count info)) l
      (next_receipt_id ai) d"
proof -
  note U = find_listing_unique [OF assms(2,1)]
  note L = fits_listing [OF assms(1) U(1)]
  note le = allowed_count [OF assms(1,2,4)]
  have n: "sint (ai_count info) < 2 ^ 31" using le L by simp
  note C = cost_fits [OF assms(1) U(1) assms(3) n]
  have out: "bought_out info l \<longleftrightarrow> sint (ai_count info) = li_remaining_quantity l"
    by (rule bought_out_iff [OF assms(1) U(1)])
  have listings: "listings_after info l (auction_listings d) =
      (if sint (ai_count info) = li_remaining_quantity l
       then filter (\<lambda>l. li_listing_id l \<noteq> sint (ai_list_id info)) (auction_listings d)
       else map (\<lambda>l'. if li_listing_id l' = sint (ai_list_id info)
              then l'\<lparr>li_remaining_quantity := li_remaining_quantity l' - sint (ai_count info)\<rparr> else l')
            (auction_listings d))"
    using le U by (auto simp: listings_after_def out reduces_def)
  show ?thesis
    unfolding after_purchase_def purchase_update_def Let_def
    by (simp add: C L purchase_receipts_def listings)
      (auto simp: charge_def pays_def fun_eq_iff)
qed

text \<open>With a fixed clock a connection sees one answer.\<close>

lemma sees_now:
  "cn_clock c = (\<lambda>_. now) \<Longrightarrow>
   sees info c res \<longleftrightarrow> find_listing now (sint (ai_list_id info)) (cn_work c) = res"
  by (auto simp: sees_def listing_for_def find_listing_def)

lemma bought_spec:
  assumes "cn_clock c = (\<lambda>_. now)" and "idle c" and "fits (cn_committed c)"
    and "bought info c l p"
  shows "purchase_spec (cn_found_rows c) now (sint (ai_player_id info)) (sint (ai_list_id info))
      (sint (ai_count info)) (next_receipt_id ai) (cn_committed c)
    = Some (sint p, after_purchase info l ai (cn_committed c))"
proof -
  have b: "find_listing now (sint (ai_list_id info)) (cn_committed c) = Some l"
    "0 < sint (ai_count info)" "purchase_allowed (cn_found_rows c) info l (cn_committed c)"
    "p = total_price info l"
    using assms by (simp_all add: bought_def sees_now idle_def)
  note U = find_listing_unique [OF b(1) assms(3)]
  have "sint (ai_count info) < 2 ^ 31"
    using allowed_count [OF assms(3) b(1,3)] fits_listing [OF assms(3) U(1)] by simp
  note C = cost_fits [OF assms(3) U(1) b(2) this]
  show ?thesis
    using b C allowed_iff [OF assms(3) b(1,2)] after_purchase_update [OF assms(3) b(1,2,3)]
    by (simp add: purchase_spec_def)
qed

lemma refused_spec:
  assumes "cn_clock c = (\<lambda>_. now)" and "idle c" and "fits (cn_committed c)" and "refused info c"
  shows "purchase_spec (cn_found_rows c) now (sint (ai_player_id info)) (sint (ai_list_id info))
      (sint (ai_count info)) rid (cn_committed c) = None"
proof (cases "0 < sint (ai_count info)")
  case True
  then show ?thesis
    using assms allowed_iff [OF assms(3) _ True]
    by (auto simp: refused_def sees_now idle_def purchase_spec_def split: option.splits)
next
  case False
  then show ?thesis by (auto simp: purchase_spec_def purchasable_def split: option.splits)
qed

section \<open>What a purchase preserves\<close>



definition shop_inv :: "db \<Rightarrow> bool" where
  "shop_inv d \<longleftrightarrow> fits d
     \<and> list_all (\<lambda>l. 0 < li_remaining_quantity l) (auction_listings d)
     \<and> list_all (\<lambda>cb. 0 \<le> cb_gold cb) (character_bases d)"

lemma shop_inv_fits: "shop_inv d \<Longrightarrow> fits d"
  by (simp add: shop_inv_def)

lemma fits_after:
  assumes "fits d" and "find_listing now (sint (ai_list_id info)) d = Some l"
    and "0 < sint (ai_count info)" and "purchase_allowed fr info l d"
  shows "fits (after_purchase info l ai d)"
proof -
  note U = find_listing_unique [OF assms(2,1)]
  note L = fits_listing [OF assms(1) U(1)]
  have le: "sint (ai_count info) \<le> li_remaining_quantity l"
    by (rule allowed_count [OF assms(1,2,4)])
  have ids: "map li_listing_id (map (\<lambda>l'. if P l' then l'\<lparr>li_remaining_quantity := f l'\<rparr> else l') ls)
      = map li_listing_id ls" for P f and ls :: "listing list" by simp
  have "distinct (map li_listing_id (auction_listings (after_purchase info l ai d)))"
    using assms(1) by (auto simp: fits_def after_purchase_update [OF assms]
        purchase_update_def Let_def ids distinct_map_filter simp del: map_map)
  moreover have "in_int32 (li_remaining_quantity l - sint (ai_count info))"
    using le assms(3) L by (simp add: in_int32_def)
  ultimately show ?thesis
    using assms(1) U
    by (auto simp: fits_def after_purchase_update [OF assms] purchase_update_def Let_def
        list_all_iff)
qed

lemma shop_inv_after:
  assumes "shop_inv d" and "find_listing now (sint (ai_list_id info)) d = Some l"
    and "0 < sint (ai_count info)" and "purchase_allowed fr info l d"
  shows "shop_inv (after_purchase info l ai d)"
proof -
  note fits = shop_inv_fits [OF assms(1)]
  note U = find_listing_unique [OF assms(2) fits]
  have le: "sint (ai_count info) \<le> li_remaining_quantity l"
    by (rule allowed_count [OF fits assms(2,4)])
  show ?thesis
    unfolding shop_inv_def
    using assms(1) U le fits_after [OF fits assms(2-4), of ai]
    by (auto simp: shop_inv_def after_purchase_update [OF fits assms(2-4)] purchase_update_def
        Let_def list_all_iff)
qed





section \<open>The purchase\<close>

lemma purchase_outcome_cases:
  assumes "purchase_outcome info c res c'" and "idle c"
  obtains (success) l ai t where "pr_success res" "idle c'"
      "listing_for info (cn_clock c t) (cn_committed c) = Some l" "0 < sint (ai_count info)"
      "purchase_allowed (cn_found_rows c) info l (cn_committed c)"
      "pr_totalPrice res = total_price info l"
      "cn_committed c' = after_purchase info l ai (cn_committed c)"
      "no_fault c \<longrightarrow> ai = cn_autoinc c"
    | (failure) "\<not> pr_success res" "idle c'" "cn_committed c' = cn_committed c"
      "no_fault c \<longrightarrow> refused info c"
  using assms by (auto simp: purchase_outcome_def bought_def sees_def idle_def split: if_splits)

lemma listing_for_find: "listing_for info now d = find_listing now (sint (ai_list_id info)) d"
  by (simp add: listing_for_def find_listing_def)

text \<open>
  C1: a purchase is atomic.  Whatever call of the connector fails, and whichever attempt it
  fails in, \<open>Purchase\<close> returns a result and leaves no open change; it reports success exactly
  when the committed tables are those after the whole purchase of a listing that was on sale
  and allowed, and otherwise the committed tables are as before.  The connector's \<open>rollback\<close>
  must not throw.
\<close>

theorem Purchase_atomic:
  assumes "idle c" and "rollback_works c"
  shows "\<exists>res c'. Purchase info c = (Inr res, c') \<and> idle c' \<and>
    (if pr_success res
     then \<exists>t l ai. listing_for info (cn_clock c t) (cn_committed c) = Some l
            \<and> 0 < sint (ai_count info)
            \<and> purchase_allowed (cn_found_rows c) info l (cn_committed c)
            \<and> pr_totalPrice res = total_price info l
            \<and> cn_committed c' = after_purchase info l ai (cn_committed c)
     else cn_committed c' = cn_committed c)"
proof -
  obtain r c' where run: "Purchase info c = (r, c')" by force
  from Purchase_outcome [OF assms run] obtain res where r: "r = Inr res"
    and out: "purchase_outcome info c res c'" by blast
  from out assms(1) show ?thesis
    by (cases rule: purchase_outcome_cases) (auto simp: run r)
qed

text \<open>The machine-integer purchase against the specification.\<close>

lemma Purchase_meets_spec:
  assumes "idle c" and "no_fault c" and "cn_clock c = (\<lambda>_. now)" and "fits (cn_committed c)"
  shows "\<exists>res c'. Purchase info c = (Inr res, c') \<and>
    (case purchase_spec (cn_found_rows c) now (sint (ai_player_id info)) (sint (ai_list_id info))
         (sint (ai_count info)) (next_receipt_id (cn_autoinc c)) (cn_committed c) of
       None \<Rightarrow> \<not> pr_success res \<and> cn_committed c' = cn_committed c
     | Some (cost, d) \<Rightarrow> pr_success res \<and> sint (pr_totalPrice res) = cost \<and> cn_committed c' = d)"
proof -
  have rb: "rollback_works c" using assms(2) by (simp add: rollback_works_def no_fault_def)
  obtain r c' where run: "Purchase info c = (r, c')" by force
  from Purchase_outcome [OF assms(1) rb run] obtain res where r: "r = Inr res"
    and out: "purchase_outcome info c res c'" by blast
  show ?thesis
  proof (cases "pr_success res")
    case True
    with out assms(2) obtain l where "bought info c l (pr_totalPrice res)"
      "cn_committed c' = after_purchase info l (cn_autoinc c) (cn_committed c)"
      by (auto simp: purchase_outcome_def)
    with bought_spec [OF assms(3,1,4)] True show ?thesis by (simp add: run r)
  next
    case False
    with out assms(2) have "refused info c" "cn_committed c' = cn_committed c"
      by (simp_all add: purchase_outcome_def)
    with refused_spec [OF assms(3,1,4)] False show ?thesis by (simp add: run r)
  qed
qed

text \<open>
  C2: \<open>Purchase\<close> refines the purchase on mathematical integers.  On tables whose columns fit
  their types, with no failing call and the clock standing still, it succeeds exactly when the
  specification allows the purchase, charges exactly the specification's price (the 64-bit
  product does not wrap) and commits exactly its tables.
\<close>

theorem Purchase_refines_spec:
  assumes "idle c" and "no_fault c" and "cn_clock c = (\<lambda>_. now)" and "fits (cn_committed c)"
  shows "\<exists>res c'. Purchase info c = (Inr res, c') \<and>
    (case purchase_spec (cn_found_rows c) now (sint (ai_player_id info)) (sint (ai_list_id info))
         (sint (ai_count info)) (next_receipt_id (cn_autoinc c)) (cn_committed c) of
       None \<Rightarrow> \<not> pr_success res \<and> cn_committed c' = cn_committed c
     | Some (cost, d) \<Rightarrow> pr_success res \<and> sint (pr_totalPrice res) = cost \<and> cn_committed c' = d)"
  using Purchase_meets_spec [OF assms] .



text \<open>
  The shop's invariant.  Listing ids stay unique, every listing keeps a positive quantity
  that fits its column (nothing is oversold), and no character's gold becomes negative.
\<close>

theorem Purchase_shop_inv:
  assumes "idle c" and "rollback_works c" and "shop_inv (cn_committed c)"
  shows "shop_inv (cn_committed (snd (Purchase info c)))"
proof -
  obtain r c' where run: "Purchase info c = (r, c')" by force
  from Purchase_outcome [OF assms(1,2) run] obtain res where "purchase_outcome info c res c'"
    by blast
  then show ?thesis using assms(1)
    by (cases rule: purchase_outcome_cases)
      (use assms(3) in \<open>auto simp: run listing_for_find intro: shop_inv_after\<close>)
qed

lemma Purchase_loop_autocommit:
  assumes "attempt \<le> kMaxTxAttempts" and "restore_works c"
    and "Purchase_loop attempt r0 info c = (r, c')"
  shows "\<exists>res. r = Inr res \<and> cn_autocommit c'"
  using assms
proof (induction attempt r0 info c rule: Purchase_loop.induct)
  case (1 attempt result info c)
  obtain r1 c1 p where att: "TryPurchase info 0 c = (r1, c1, p)" by (cases "TryPurchase info 0 c")
  have le: "\<not> kMaxTxAttempts < attempt" using "1.prems"(1) by simp
  note out = TryPurchase_outcome [OF att]
  note step = "1.prems"(3) [unfolded Purchase_loop.simps [of attempt]]
  have env: "same_env c c1"
    using out by (auto simp: committed_def untouched_def split: sum.splits)
  then have "restore_works c1" "restore_works (SafeRollback c1)"
    using "1.prems"(2) same_env_facts(2) [OF env] same_env_facts(2) [OF SafeRollback_env, of c1] by auto
  note auto_on = this [THEN SafeRestoreAutoCommit_works]
  show ?case
  proof (cases r1)
    case (Inr u)
    then show ?thesis using step le att auto_on by auto
  next
    case (Inl e)
    with out obtain code what where e: "e = SQLException code what" by (auto simp: is_sql_def)
    define c2 where "c2 = SafeRestoreAutoCommit (SafeRollback c1)"
    show ?thesis
    proof (cases "retryable code \<and> attempt < kMaxTxAttempts")
      case True
      have "same_env c c2"
        unfolding c2_def by (metis env same_env_trans SafeRollback_env SafeRestoreAutoCommit_env)
      with "1.prems"(2) have "restore_works c2" by (simp add: same_env_facts)
      moreover have "Purchase_loop (attempt + 1) \<lparr>pr_success = False, pr_totalPrice = p\<rparr> info c2 = (r, c')"
        using step le att Inl e True by (simp add: c2_def)
      ultimately show ?thesis
        by (intro "1.IH" [OF le att [symmetric] Inl e refl c2_def refl True]) (use True in auto)
    next
      case False
      then show ?thesis using step le att Inl e auto_on by (auto simp: c2_def)
    qed
  qed
qed

text \<open>
  Whatever fails during a purchase, rollback included, the connection goes back with
  autocommit on (unless turning it on is what fails), so the next request that borrows it does
  not run inside a stale transaction.
\<close>

theorem Purchase_restores_autocommit:
  assumes "restore_works c"
  shows "\<exists>res c'. Purchase info c = (Inr res, c') \<and> cn_autocommit c'"
proof -
  obtain r c' where run: "Purchase info c = (r, c')" by force
  then show ?thesis
    using Purchase_loop_autocommit [of 1 c _ info r c'] assms
    by (auto simp: Purchase_def kMaxTxAttempts_def)
qed

section \<open>Witnesses\<close>

text \<open>One listing of five of item 7 at price 100, a buyer with 1000 gold, a seller with none.\<close>

definition demo_db :: db where
  "demo_db = \<lparr>auction_listings = [\<lparr>li_listing_id = 1, li_seller_id = 20, li_item_id = 7,
       li_remaining_quantity = 5, li_price = 100, li_expired_at = 9000\<rparr>],
     auction_transactions = [], auction_receipts = [],
     character_bases =
       [\<lparr>cb_character_id = 1, cb_account_id = 10, cb_slot_index = 0, cb_nickname = ''b'',
         cb_class_type = 0, cb_level = 1, cb_gold = 1000\<rparr>,
        \<lparr>cb_character_id = 2, cb_account_id = 20, cb_slot_index = 0, cb_nickname = ''s'',
         cb_class_type = 0, cb_level = 1, cb_gold = 0\<rparr>],
     character_combats = [], character_skins = [], character_inventories = [], accounts = [],
     sessions = []\<rparr>"

definition demo_conn :: "(nat \<Rightarrow> dbop \<Rightarrow> int option) \<Rightarrow> conn" where
  "demo_conn f = \<lparr>cn_autocommit = True, cn_committed = demo_db, cn_work = demo_db,
     cn_autoinc = \<lparr>next_listing_id = 2, next_receipt_id = 1, next_character_id = 3,
       next_account_id = 21\<rparr>,
     cn_last_id = 0, cn_tick = 0, cn_fault = f, cn_clock = (\<lambda>_. 500), cn_found_rows = False\<rparr>"

definition demo_info :: AuctionItemInfo where
  "demo_info = AuctionItemInfo_default\<lparr>ai_list_id := 1, ai_player_id := 10, ai_count := 3\<rparr>"

definition deadlock_first :: "nat \<Rightarrow> dbop \<Rightarrow> int option" where
  "deadlock_first n op = (if op = OpExecute \<and> n < 6 then Some 1213 else None)"

lemma demo_facts:
  "idle (demo_conn f)" "cn_committed (demo_conn f) = demo_db" "cn_clock (demo_conn f) = (\<lambda>_. 500)"
  "cn_fault (demo_conn f) = f" "cn_found_rows (demo_conn f) = False"
  "cn_autocommit (demo_conn f)" "cn_work (demo_conn f) = demo_db"
  "cn_autoinc (demo_conn f) = \<lparr>next_listing_id = 2, next_receipt_id = 1, next_character_id = 3,
       next_account_id = 21\<rparr>"
  by (simp_all add: demo_conn_def idle_def)

lemma demo_deadlock_first:
  "rollback_works (demo_conn deadlock_first)" "restore_works (demo_conn deadlock_first)"
  by (simp_all add: rollback_works_def restore_works_def demo_facts deadlock_first_def)

lemma demo_no_fault: "no_fault (demo_conn (\<lambda>_ _. None))"
  by (simp add: no_fault_def demo_facts)

lemma demo_fits: "fits demo_db" and demo_shop_inv: "shop_inv demo_db"
  by (simp_all add: fits_def shop_inv_def demo_db_def in_int32_def in_int64_def)

lemma demo_run: "Purchase demo_info (demo_conn deadlock_first)
   = (Inr \<lparr>pr_success = True, pr_totalPrice = 300\<rparr>, snd (Purchase demo_info (demo_conn deadlock_first)))"
proof -
  have "fst (Purchase demo_info (demo_conn deadlock_first)) = Inr \<lparr>pr_success = True, pr_totalPrice = 300\<rparr>"
    by code_simp
  then show ?thesis by (metis prod.collapse)
qed

theorem Purchase_atomic_witness:
  "\<exists>res c'. Purchase demo_info (demo_conn deadlock_first) = (Inr res, c') \<and> pr_success res \<and> idle c'"
  using Purchase_atomic [OF demo_facts(1) demo_deadlock_first(1), of demo_info] demo_run by auto

theorem Purchase_refines_spec_witness:
  "\<exists>res c'. Purchase demo_info (demo_conn (\<lambda>_ _. None)) = (Inr res, c')
     \<and> pr_success res \<and> sint (pr_totalPrice res) = 300"
proof -
  have "\<exists>d. purchase_spec False 500 10 1 3 1 demo_db = Some (300, d)"
    by (simp add: purchase_spec_def find_listing_def purchasable_def demo_db_def)
  with Purchase_refines_spec [OF demo_facts(1) demo_no_fault demo_facts(3), of demo_info]
  show ?thesis by (auto simp: demo_facts demo_fits demo_info_def)
qed



theorem Purchase_shop_inv_witness:
  "shop_inv (cn_committed (snd (Purchase demo_info (demo_conn deadlock_first))))"
  using Purchase_shop_inv [OF demo_facts(1) demo_deadlock_first(1)] demo_shop_inv
  by (simp add: demo_facts)

theorem Purchase_restores_autocommit_witness:
  "\<exists>res c'. Purchase demo_info (demo_conn deadlock_first) = (Inr res, c') \<and> cn_autocommit c'"
  using Purchase_restores_autocommit [OF demo_deadlock_first(2), of demo_info] .

section \<open>A rollback that fails\<close>



section \<open>Registering and listing\<close>

lemma idle_autocommit_update:
  "cn_autocommit c \<Longrightarrow> idle (apply_update k gen ai d c) \<and> cn_committed (apply_update k gen ai d c) = d"
  by (simp add: idle_def apply_update_def)

definition new_listing :: "AuctionItemInfo \<Rightarrow> int \<Rightarrow> int \<Rightarrow> listing" where
  "new_listing info lid now = \<lparr>li_listing_id = lid, li_seller_id = sint (ai_player_id info),
     li_item_id = sint (ai_item_id info), li_remaining_quantity = sint (ai_count info),
     li_price = sint (ai_price info),
     li_expired_at = now + 3600 * (if ai_expired_at info = ''24'' then 24 else 48)\<rparr>"

lemma wp_registQuery:
  assumes "cn_autocommit c" and "idle c"
  shows "wp (Regist info)
    (\<lambda>ok c'. ok \<and> idle c' \<and> (\<exists>t. cn_committed c' = (cn_committed c)\<lparr>auction_listings :=
        auction_listings (cn_committed c)
        @ [new_listing info (next_listing_id (cn_autoinc c)) (cn_clock c t)]\<rparr>))
    (\<lambda>e c'. is_sql e \<and> cn_committed c' = cn_committed c \<and> idle c' \<and> \<not> no_fault c) c"
  unfolding Regist_def
  apply (rule wp_bindI, rule wp_executeUpdate [OF well_bound_stmts(7)])
  subgoal using assms(2) by (auto simp: idle_def ticked_def)
  subgoal by (simp add: registQuery_def)
  subgoal for k gen ai d t t'
    using assms idle_autocommit_update [of "c\<lparr>cn_tick := t'\<rparr>" "int k" gen ai d]
    by (auto simp: wp_rules registQuery_def new_listing_def expiredTime_def idle_def)
  done

text \<open>
  Registering.  \<open>Regist\<close> adds one listing with a fresh id, the fields of the request as they
  are (neither the price nor the count is checked) and an expiry 24 or 48 hours ahead, and
  reports success; if it throws, a call of the connector failed and the tables are unchanged.
\<close>

lemma Regist_inserts:
  assumes "cn_autocommit c" and "idle c" and "Regist info c = (r, c')"
  shows "(r = Inr True \<and> (\<exists>t. cn_committed c' = (cn_committed c)\<lparr>auction_listings :=
        auction_listings (cn_committed c)
        @ [new_listing info (next_listing_id (cn_autoinc c)) (cn_clock c t)]\<rparr>))
    \<or> (\<exists>e. r = Inl e \<and> cn_committed c' = cn_committed c \<and> \<not> no_fault c)"
proof (cases r)
  case (Inl e)
  with wp_Inl [OF wp_registQuery [OF assms(1,2)], of info e c'] assms(3) show ?thesis by auto
next
  case (Inr ok)
  with wp_Inr [OF wp_registQuery [OF assms(1,2)], of info ok c'] assms(3) show ?thesis by auto
qed

definition demo_regist :: AuctionItemInfo where
  "demo_regist = AuctionItemInfo_default\<lparr>ai_player_id := 20, ai_item_id := 9, ai_count := 1,
     ai_price := -50, ai_expired_at := ''24''\<rparr>"

lemma Regist_inserts_witness:
  "fst (Regist demo_regist (demo_conn (\<lambda>_ _. None))) = Inr True
   \<and> map li_price (auction_listings (cn_committed (snd (Regist demo_regist (demo_conn (\<lambda>_ _. None)))))) = [100, -50]"
proof -
  obtain r c' where run: "Regist demo_regist (demo_conn (\<lambda>_ _. None)) = (r, c')" by force
  from Regist_inserts [OF demo_facts(6,1) run] demo_no_fault obtain t where "r = Inr True"
    "auction_listings (cn_committed c') = auction_listings demo_db @ [new_listing demo_regist 2 500]"
    by (auto simp: demo_facts)
  then show ?thesis by (simp add: run demo_db_def new_listing_def) (simp add: demo_regist_def)
qed

lemma GetListings_rows:
  assumes "GetListings datetime False player c = (Inr items, c')"
  shows "\<exists>t. items = map (listing_item datetime) (take 100 (sort_key li_listing_id
      (filter (\<lambda>l. cn_clock c t < li_expired_at l) (auction_listings (cn_work c)))))"
proof -
  have "wp (GetListings datetime False player) (\<lambda>items c'. \<exists>t. items =
      map (listing_item datetime) (take 100 (sort_key li_listing_id
      (filter (\<lambda>l. cn_clock c t < li_expired_at l) (auction_listings (cn_work c))))))
      (\<lambda>_ _. True) c"
    unfolding GetListings_def fetch_all_def
    apply (simp, rule wp_bindI, rule wp_executeQuery [OF well_bound_stmts(8)])
    apply (auto simp: listQuery_all_def wp_rules Let_def split: option.splits)
    done
  from wp_Inr [OF this assms] show ?thesis .
qed

text \<open>
  The list sent to the clients.  At most 100 items, in ascending order of listing id, each
  an unexpired row of the table with its own seller, item, count and price; and every unexpired
  row is there when there are at most 100.  (Columns must fit the 32-bit getters.)
\<close>

lemma GetListings_correct:
  assumes "GetListings datetime False player c = (Inr items, c')"
    and "list_all (\<lambda>l. in_int32 (li_listing_id l) \<and> in_int32 (li_seller_id l)) (auction_listings (cn_work c))"
    and "fits (cn_work c)"
  shows "length items \<le> 100 \<and> sorted (map (\<lambda>i. sint (ai_list_id i)) items)
    \<and> (\<exists>t. let live = filter (\<lambda>l. cn_clock c t < li_expired_at l) (auction_listings (cn_work c)) in
        (\<forall>i \<in> set items. \<exists>l \<in> set live. sint (ai_list_id i) = li_listing_id l
           \<and> sint (ai_player_id i) = li_seller_id l \<and> sint (ai_item_id i) = li_item_id l
           \<and> sint (ai_count i) = li_remaining_quantity l \<and> sint (ai_price i) = li_price l)
        \<and> (length live \<le> 100 \<longrightarrow> (\<forall>l \<in> set live. \<exists>i \<in> set items. sint (ai_list_id i) = li_listing_id l)))"
proof -
  from GetListings_rows [OF assms(1)] obtain t where items: "items = map (listing_item datetime)
      (take 100 (sort_key li_listing_id
      (filter (\<lambda>l. cn_clock c t < li_expired_at l) (auction_listings (cn_work c)))))" by blast
  define live where "live = filter (\<lambda>l. cn_clock c t < li_expired_at l) (auction_listings (cn_work c))"
  let ?rows = "take 100 (sort_key li_listing_id live)"
  have sub: "set ?rows \<subseteq> set live" by (metis set_sort set_take_subset)
  have fields: "sint (ai_list_id (listing_item datetime l)) = li_listing_id l
      \<and> sint (ai_player_id (listing_item datetime l)) = li_seller_id l
      \<and> sint (ai_item_id (listing_item datetime l)) = li_item_id l
      \<and> sint (ai_count (listing_item datetime l)) = li_remaining_quantity l
      \<and> sint (ai_price (listing_item datetime l)) = li_price l" if "l \<in> set live" for l
    using that assms(2,3)
    by (auto simp: live_def listing_item_def list_all_iff fits_def getInt_def int_casts)
  have ids: "map (\<lambda>i. sint (ai_list_id i)) items = map li_listing_id ?rows"
    unfolding items live_def [symmetric] using sub fields by auto
  have sorted: "sorted (map li_listing_id ?rows)"
    by (simp add: take_map [symmetric] sorted_wrt_take)
  have all: "\<exists>i \<in> set items. sint (ai_list_id i) = li_listing_id l"
    if "length live \<le> 100" "l \<in> set live" for l
    unfolding items live_def [symmetric] using that fields by auto
  have each: "\<exists>l \<in> set live. sint (ai_list_id i) = li_listing_id l
           \<and> sint (ai_player_id i) = li_seller_id l \<and> sint (ai_item_id i) = li_item_id l
           \<and> sint (ai_count i) = li_remaining_quantity l \<and> sint (ai_price i) = li_price l"
    if i: "i \<in> set items" for i
  proof -
    from i obtain l where l: "l \<in> set ?rows" "i = listing_item datetime l"
      unfolding items live_def [symmetric] by auto
    with sub fields [of l] show ?thesis by auto
  qed
  have len: "length items \<le> 100" by (simp add: items)
  show ?thesis
    unfolding Let_def using len sorted ids each all by (auto simp: live_def)
qed

lemma GetListings_correct_witness:
  "\<exists>items c'. GetListings (\<lambda>_. []) False 0 (demo_conn (\<lambda>_ _. None)) = (Inr items, c') \<and> length items \<le> 100
     \<and> items \<noteq> []"
proof -
  define run where "run = GetListings (\<lambda>_. []) False 0 (demo_conn (\<lambda>_ _. None))"
  have "case fst run of Inr items \<Rightarrow> items \<noteq> [] | Inl _ \<Rightarrow> False"
    unfolding run_def by code_simp
  then obtain items c' where r: "run = (Inr items, c')" "items \<noteq> []"
    by (cases run) (auto split: sum.splits)
  have "list_all (\<lambda>l. in_int32 (li_listing_id l) \<and> in_int32 (li_seller_id l))
      (auction_listings (cn_work (demo_conn (\<lambda>_ _. None))))"
    by (simp add: demo_facts demo_db_def in_int32_def)
  with GetListings_correct [OF r(1) [unfolded run_def]] r show ?thesis
    by (auto simp: demo_facts demo_fits run_def)
qed

end
