(* ===== verification/CacheSound.thy ===== *)
theory CacheSound
  imports Cache AuctionSpec
begin

text \<open>
  The game server's cache against the auction server's tables.  The cache may reject a purchase
  without asking: this theory shows that such a purchase could not have succeeded, on any later
  state of the tables.
\<close>

section \<open>How the tables evolve\<close>

text \<open>
  The changes the auction service commits (\<open>Regist_shop_step\<close> and \<open>Purchase_shop_steps\<close> below), and the
  other servers' changes, which leave the listings alone.
\<close>

inductive shop_step :: "db \<times> autoinc \<Rightarrow> db \<times> autoinc \<Rightarrow> bool" where
  regist: "shop_step (d, ai)
     (d\<lparr>auction_listings := auction_listings d @ [new_listing info (next_listing_id ai) now]\<rparr>,
      ai\<lparr>next_listing_id := next_listing_id ai + 1\<rparr>)"
| purchase: "listing_for info now d = Some l \<Longrightarrow> 0 < sint (ai_count info) \<Longrightarrow>
     purchase_allowed fr info l d \<Longrightarrow> next_listing_id ai' = next_listing_id ai \<Longrightarrow>
     shop_step (d, ai) (after_purchase info l ai d, ai')"
| other: "auction_listings d' = auction_listings d \<Longrightarrow> next_listing_id ai' = next_listing_id ai \<Longrightarrow>
     shop_step (d, ai) (d', ai')"

text \<open>What a listing of a later state can be: a new one, or an old one with no more left.\<close>

definition descends :: "db \<times> autoinc \<Rightarrow> db \<times> autoinc \<Rightarrow> bool" where
  "descends s0 s1 \<longleftrightarrow> next_listing_id (snd s0) \<le> next_listing_id (snd s1) \<and>
     (\<forall>l \<in> set (auction_listings (fst s1)).
        next_listing_id (snd s0) \<le> li_listing_id l
        \<or> (\<exists>l0 \<in> set (auction_listings (fst s0)). li_listing_id l = li_listing_id l0
             \<and> li_seller_id l = li_seller_id l0 \<and> li_expired_at l = li_expired_at l0
             \<and> li_remaining_quantity l \<le> li_remaining_quantity l0))"

lemma descends_refl: "descends s s"
  by (auto simp: descends_def)

lemma descends_trans:
  assumes "descends a b" "descends b c"
  shows "descends a c"
  unfolding descends_def
proof (intro conjI ballI)
  show "next_listing_id (snd a) \<le> next_listing_id (snd c)"
    using assms by (simp add: descends_def)
  fix l assume l: "l \<in> set (auction_listings (fst c))"
  show "next_listing_id (snd a) \<le> li_listing_id l
      \<or> (\<exists>l0 \<in> set (auction_listings (fst a)). li_listing_id l = li_listing_id l0
             \<and> li_seller_id l = li_seller_id l0 \<and> li_expired_at l = li_expired_at l0
             \<and> li_remaining_quantity l \<le> li_remaining_quantity l0)"
  proof (cases "next_listing_id (snd b) \<le> li_listing_id l")
    case True
    then show ?thesis using assms(1) by (auto simp: descends_def)
  next
    case False
    with assms(2) l obtain l1 where "l1 \<in> set (auction_listings (fst b))"
      "li_listing_id l = li_listing_id l1" "li_seller_id l = li_seller_id l1"
      "li_expired_at l = li_expired_at l1" "li_remaining_quantity l \<le> li_remaining_quantity l1"
      by (auto simp: descends_def)
    with assms(1) show ?thesis unfolding descends_def by (metis order_trans)
  qed
qed

lemma listings_after_descend:
  assumes "0 < sint (ai_count info)" and "l' \<in> set (listings_after info l ls)"
  shows "\<exists>l0 \<in> set ls. li_listing_id l' = li_listing_id l0 \<and> li_seller_id l' = li_seller_id l0
    \<and> li_expired_at l' = li_expired_at l0 \<and> li_remaining_quantity l' \<le> li_remaining_quantity l0"
  using assms by (auto simp: listings_after_def split: if_splits)

lemma shop_step_descends: "shop_step s t \<Longrightarrow> descends s t"
proof (induction rule: shop_step.induct)
  case (regist d ai info now)
  then show ?case by (auto simp: descends_def new_listing_def)
next
  case (purchase info now d l fr ai' ai)
  then show ?case
    using listings_after_descend [OF purchase(2), of _ l "auction_listings d"]
    by (auto simp: descends_def after_purchase_def Let_def)
next
  case (other d' d ai' ai)
  then show ?case by (auto simp: descends_def)
qed

lemma shop_steps_descend: "shop_step\<^sup>*\<^sup>* s t \<Longrightarrow> descends s t"
  by (induction rule: rtranclp_induct) (auto intro: descends_refl descends_trans shop_step_descends)

text \<open>What the auction service's own operations commit are such steps.\<close>

lemma Purchase_shop_steps:
  assumes "idle c" and "rollback_works c" and "Purchase info c = (r, c')"
  shows "\<exists>ai'. next_listing_id ai' = next_listing_id ai
    \<and> shop_step\<^sup>*\<^sup>* (cn_committed c, ai) (cn_committed c', ai')"
proof -
  from Purchase_outcome [OF assms] obtain res where out: "purchase_outcome info c res c'" by blast
  show ?thesis
  proof (cases "pr_success res")
    case True
    with out obtain l ai0 where b: "bought info c l (pr_totalPrice res)"
      and c': "cn_committed c' = after_purchase info l ai0 (cn_committed c)"
      by (auto simp: purchase_outcome_def)
    let ?ai = "ai\<lparr>next_receipt_id := next_receipt_id ai0\<rparr>"
    have "shop_step (cn_committed c, ai) (cn_committed c, ?ai)" by (rule shop_step.other) simp_all
    moreover have "shop_step (cn_committed c, ?ai) (after_purchase info l ?ai (cn_committed c), ?ai)"
      using b assms(1) by (auto simp: bought_def sees_def idle_def intro: shop_step.purchase)
    moreover have "after_purchase info l ?ai (cn_committed c) = cn_committed c'"
      by (simp add: c' after_purchase_def)
    ultimately show ?thesis by (intro exI [of _ ?ai]) (simp add: converse_rtranclp_into_rtranclp)
  next
    case False
    with out show ?thesis by (auto simp: purchase_outcome_def)
  qed
qed

lemma Regist_shop_step:
  assumes "cn_autocommit c" and "idle c" and "Regist info c = (r, c')"
  shows "cn_committed c' = cn_committed c
    \<or> shop_step (cn_committed c, cn_autoinc c)
        (cn_committed c', (cn_autoinc c)\<lparr>next_listing_id := next_listing_id (cn_autoinc c) + 1\<rparr>)"
  using Regist_inserts [OF assms] by (auto intro: shop_step.regist)

section \<open>What the cache knows\<close>

definition live_rows :: "int \<Rightarrow> db \<Rightarrow> listing list" where
  "live_rows t d = take 100 (sort_key li_listing_id (filter (\<lambda>l. t < li_expired_at l) (auction_listings d)))"

text \<open>The columns the list is made of fit the 32-bit getters, and ids are handed out from 1.\<close>

definition list_fits :: "db \<Rightarrow> autoinc \<Rightarrow> bool" where
  "list_fits d ai \<longleftrightarrow> fits d \<and> 1 \<le> next_listing_id ai \<and>
     list_all (\<lambda>l. in_int32 (li_listing_id l) \<and> in_int32 (li_seller_id l)
       \<and> 1 \<le> li_listing_id l \<and> li_listing_id l < next_listing_id ai) (auction_listings d)"

lemma live_rows_sub: "set (live_rows t d) \<subseteq> {l \<in> set (auction_listings d). t < li_expired_at l}"
  unfolding live_rows_def using set_take_subset by fastforce

lemma listing_item_fields:
  assumes "list_fits d ai" and "l \<in> set (auction_listings d)"
  shows "sint (ai_list_id (listing_item datetime l)) = li_listing_id l"
    "sint (ai_player_id (listing_item datetime l)) = li_seller_id l"
    "sint (ai_count (listing_item datetime l)) = li_remaining_quantity l"
  using assms
  by (auto simp: list_fits_def fits_def list_all_iff listing_item_def getInt_def int_casts)

text \<open>A live listing whose id is at most that of some cached listing is cached.\<close>

lemma live_rows_complete:
  assumes "fits d" and "l \<in> set (auction_listings d)" and "t < li_expired_at l"
    and "l' \<in> set (live_rows t d)" and "li_listing_id l \<le> li_listing_id l'"
  shows "l \<in> set (live_rows t d)"
proof (rule ccontr)
  let ?all = "sort_key li_listing_id (filter (\<lambda>l. t < li_expired_at l) (auction_listings d))"
  assume out: "l \<notin> set (live_rows t d)"
  have "l \<in> set ?all" using assms(2,3) by simp
  moreover have "set ?all = set (take 100 ?all) \<union> set (drop 100 ?all)"
    by (metis append_take_drop_id set_append)
  ultimately have drop: "l \<in> set (drop 100 ?all)" using out unfolding live_rows_def by blast
  have "sorted (map li_listing_id (take 100 ?all @ drop 100 ?all))" by simp
  then have "li_listing_id l' \<le> li_listing_id l"
    using assms(4) drop by (auto simp: sorted_append live_rows_def simp del: append_take_drop_id)
  with assms(5) have "li_listing_id l = li_listing_id l'" by simp
  moreover have "l' \<in> set (auction_listings d)" using assms(4) live_rows_sub by auto
  ultimately have "l = l'" using assms(1,2) by (auto simp: fits_def distinct_map dest: inj_onD)
  with out assms(4) show False by simp
qed

section \<open>What a rejection means\<close>

text \<open>The list the auction server reads at \<open>t0\<close>, as the snapshot keeps it.\<close>

abbreviation list_snapshot ::
  "(bool \<times> AuctionItemInfo list) msg_class \<Rightarrow> int \<Rightarrow> (int \<Rightarrow> string) \<Rightarrow> int \<Rightarrow> db \<Rightarrow> Snapshot" where
  "list_snapshot M tc datetime t0 d \<equiv> make_snapshot M tc (map (listing_item datetime) (live_rows t0 d))"

lemma live_row:
  assumes "list_fits d ai" and "r \<in> set (live_rows t0 d)"
  shows "r \<in> set (auction_listings d)" and "li_listing_id r < next_listing_id ai"
    and "sint (ai_list_id (listing_item datetime r)) = li_listing_id r"
  using assms live_rows_sub [of t0 d] listing_item_fields(1) [OF assms(1)]
  by (auto simp: list_fits_def list_all_iff)

text \<open>\<open>_maxListId\<close> is the id of a cached row, or zero.\<close>

lemma maxListId_row:
  assumes "list_fits d ai" and "\<not> sn_maxListId (list_snapshot M tc datetime t0 d) <s lid" and "1 \<le> sint lid"
  obtains r where "r \<in> set (live_rows t0 d)" and "sint lid \<le> li_listing_id r"
proof -
  have "\<exists>a \<in> set (live_rows t0 d). sint lid \<le> sint (ai_list_id (listing_item datetime a))"
    using assms(2,3) by (auto simp: word_sless_alt make_snapshot_fields fold_max_Max not_less)
  then show ?thesis using that live_row(3) [OF assms(1)] by auto
qed

lemma index_None: "list_fits d ai \<Longrightarrow> sn_index (list_snapshot M tc datetime t0 d) lid = None
    \<Longrightarrow> r \<in> set (live_rows t0 d) \<Longrightarrow> li_listing_id r \<noteq> sint lid"
  using live_row(3) signed_word_eqI by (fastforce simp: make_snapshot_fields lookup_list_id_None)

lemma index_Some:
  assumes "list_fits d ai" and "sn_index (list_snapshot M tc datetime t0 d) lid = Some i"
  shows "i < length (live_rows t0 d)" and "live_rows t0 d ! i \<in> set (auction_listings d)"
    and "li_listing_id (live_rows t0 d ! i) = sint lid"
proof -
  from assms(2) lookup_list_id_Some [of 0 "map (listing_item datetime) (live_rows t0 d)" lid i]
  have i: "i < length (live_rows t0 d)" "ai_list_id (map (listing_item datetime) (live_rows t0 d) ! i) = lid"
    by (auto simp: make_snapshot_fields)
  with live_row(1,3) [OF assms(1), of "live_rows t0 d ! i" t0]
  show "i < length (live_rows t0 d)" "live_rows t0 d ! i \<in> set (auction_listings d)"
    "li_listing_id (live_rows t0 d ! i) = sint lid" by auto
qed

text \<open>A listing that is not in the snapshot, and not newer than it, is not on sale any more.\<close>

lemma not_cached_not_live:
  assumes "list_fits d0 ai0" and "descends (d0, ai0) (d1, ai1)" and "t0 \<le> t1"
    and "sn_index (list_snapshot M tc datetime t0 d0) lid = None"
    and "\<not> sn_maxListId (list_snapshot M tc datetime t0 d0) <s lid"
  shows "find_listing t1 (sint lid) d1 = None"
proof (rule ccontr)
  assume "find_listing t1 (sint lid) d1 \<noteq> None"
  then obtain l where l: "l \<in> set (auction_listings d1)" "li_listing_id l = sint lid" "t1 < li_expired_at l"
    by (auto simp: find_listing_def dest: find_SomeD)
  have "1 \<le> sint lid" using assms(1,2) l by (fastforce simp: descends_def list_fits_def list_all_iff)
  from maxListId_row [OF assms(1,5) this] obtain r where r: "r \<in> set (live_rows t0 d0)" "sint lid \<le> li_listing_id r" .
  with live_row(2) [OF assms(1)] l(2) have "\<not> next_listing_id ai0 \<le> li_listing_id l" by fastforce
  with assms(2) l obtain l0 where l0: "l0 \<in> set (auction_listings d0)" "li_listing_id l0 = sint lid"
    "li_expired_at l0 = li_expired_at l" by (auto simp: descends_def)
  have "fits d0" using assms(1) by (simp add: list_fits_def)
  from live_rows_complete [OF this l0(1) _ r(1)] l0 l assms(3) r have "l0 \<in> set (live_rows t0 d0)" by auto
  from index_None [OF assms(1,4) this] l0(2) show False by simp
qed

text \<open>A listing on sale that the snapshot has descends from the cached row.\<close>

lemma cached_row_descends:
  assumes "list_fits d0 ai0" and "descends (d0, ai0) (d1, ai1)"
    and "sn_index (list_snapshot M tc datetime t0 d0) lid = Some i"
    and "l \<in> set (auction_listings d1)" and "li_listing_id l = sint lid"
  shows "li_seller_id l = li_seller_id (live_rows t0 d0 ! i)"
    and "li_remaining_quantity l \<le> li_remaining_quantity (live_rows t0 d0 ! i)"
proof -
  note row = index_Some [OF assms(1,3)]
  have "\<not> next_listing_id ai0 \<le> li_listing_id l"
    using row(2,3) assms(1,5) by (auto simp: list_fits_def list_all_iff)
  with assms(2,4) obtain l0 where l0: "l0 \<in> set (auction_listings d0)" "li_listing_id l0 = sint lid"
    "li_seller_id l = li_seller_id l0" "li_remaining_quantity l \<le> li_remaining_quantity l0"
    using assms(5) by (auto simp: descends_def)
  have "inj_on li_listing_id (set (auction_listings d0))"
    using assms(1) by (simp add: list_fits_def fits_def distinct_map)
  with l0 row(2,3) have "l0 = live_rows t0 d0 ! i" by (metis inj_onD)
  with l0 show "li_seller_id l = li_seller_id (live_rows t0 d0 ! i)"
    "li_remaining_quantity l \<le> li_remaining_quantity (live_rows t0 d0 ! i)" by simp_all
qed

text \<open>
  An early rejection is never wrong.  Let the cache hold a snapshot made from the rows the
  auction server read at time \<open>t0\<close>.  If \<open>ValidatePurchase\<close> rejects a purchase, for whatever
  reason, then on every state the tables can reach from there, at any later time, the purchase
  is refused by the auction server's specification too.
\<close>

lemma cache_rejection_sound:
  assumes "list_fits d0 ai0"
    and "ca_snapshot c = Some (make_snapshot M tc (map (listing_item datetime) (live_rows t0 d0)))"
    and "ValidatePurchase now lid count buyer c = (v, c')" and "v \<notin> {Pass, Unknown}"
    and "shop_step\<^sup>*\<^sup>* (d0, ai0) (d1, ai1)" and "t0 \<le> t1"
  shows "purchase_spec fr t1 (sint buyer) (sint lid) (sint count) rid d1 = None"
proof (cases "find_listing t1 (sint lid) d1")
  case None
  then show ?thesis by (simp add: purchase_spec_def)
next
  case (Some l)
  then have l: "l \<in> set (auction_listings d1)" "li_listing_id l = sint lid"
    by (auto simp: find_listing_def dest: find_SomeD)
  note desc = shop_steps_descend [OF assms(5)]
  show ?thesis
  proof (cases "sn_index (list_snapshot M tc datetime t0 d0) lid")
    case None
    then have "\<not> sn_maxListId (list_snapshot M tc datetime t0 d0) <s lid"
      using assms(2-4) by (auto simp: ValidatePurchase_def Let_def split: if_splits)
    from not_cached_not_live [OF assms(1) desc assms(6) None this] Some show ?thesis by simp
  next
    case (Some i)
    note row = index_Some [OF assms(1) Some] and d = cached_row_descends [OF assms(1) desc Some l]
    have "count \<le>s 0 \<or> ai_count (listing_item datetime (live_rows t0 d0 ! i)) <s count
        \<or> ai_player_id (listing_item datetime (live_rows t0 d0 ! i)) = buyer"
      using assms(2-4) Some row(1)
      by (auto simp: ValidatePurchase_def Let_def make_snapshot_fields split: if_splits)
    then have "\<not> purchasable fr (sint buyer) (sint count) l d1"
      using d listing_item_fields [OF assms(1) row(2), of datetime]
      by (auto simp: purchasable_def word_sle_eq word_sless_alt)
    then show ?thesis using \<open>find_listing t1 (sint lid) d1 = Some l\<close> by (simp add: purchase_spec_def)
  qed
qed

end
