(* ===== verification/SessionManager.thy ===== *)
theory SessionManager
  imports J1_Prelude "HOL-Library.AList"
begin

text \<open>
  \<^verbatim>\<open>GameServer/Utils/GameSessionManager.cpp\<close> and \<^verbatim>\<open>GameSession::Close\<close>: the table from
  session ids to client sessions.

  The table holds weak pointers: a session object is a number, \<open>sm_heap\<close> the objects that still
  live, and a weak pointer to an object no longer there locks to null.  The table is an
  association list, as \<^verbatim>\<open>std::unordered_map\<close> with \<open>operator[]\<close> and \<open>erase\<close>.  Each operation
  is one critical section of the mutex.
\<close>

section \<open>State and operations\<close>

record game_session =
  gsn_session_id :: uint64
  gsn_closed :: bool

record session_manager =
  sm_sessions :: "(uint64 \<times> nat) list"
  sm_nextId :: uint64
  sm_heap :: "nat \<Rightarrow> game_session option"

definition GameSessionManager :: session_manager where
  "GameSessionManager = \<lparr>sm_sessions = [], sm_nextId = 1, sm_heap = Map.empty\<rparr>"

definition Register :: "nat \<Rightarrow> session_manager \<Rightarrow> uint64 \<times> session_manager" where
  "Register obj m =
     (let id = sm_nextId m in
      (id, m\<lparr>sm_nextId := id + 1, sm_sessions := AList.update id obj (sm_sessions m),
        sm_heap := (sm_heap m)(obj := map_option (gsn_session_id_update (\<lambda>_. id)) (sm_heap m obj))\<rparr>))"

definition Find :: "uint64 \<Rightarrow> session_manager \<Rightarrow> nat option" where
  "Find sessionId m =
     (case map_of (sm_sessions m) sessionId of
        None \<Rightarrow> None
      | Some obj \<Rightarrow> if sm_heap m obj = None then None else Some obj)"

definition Unregister :: "uint64 \<Rightarrow> session_manager \<Rightarrow> session_manager" where
  "Unregister sessionId m = m\<lparr>sm_sessions := AList.delete sessionId (sm_sessions m)\<rparr>"

definition Count :: "session_manager \<Rightarrow> nat" where
  "Count m = length (sm_sessions m)"

text \<open>\<open>GameSession::Close\<close>: only the call that closes the session unregisters it.\<close>

definition GameSession_Close :: "nat \<Rightarrow> session_manager \<Rightarrow> bool \<times> session_manager" where
  "GameSession_Close obj m =
     (case sm_heap m obj of
        None \<Rightarrow> (False, m)
      | Some s \<Rightarrow>
          if gsn_closed s then (False, m)
          else (True, Unregister (gsn_session_id s)
                 (m\<lparr>sm_heap := (sm_heap m)(obj \<mapsto> s\<lparr>gsn_closed := True\<rparr>)\<rparr>)))"

section \<open>Histories\<close>

text \<open>
  The server accepts a connection (a new object is registered), closes a session, or the last
  strong pointer of an object goes away.  An object accepted is one that never existed before.
\<close>

datatype sm_event = Accept nat | CloseSession nat | Destroy nat

fun sm_step :: "sm_event \<Rightarrow> session_manager \<Rightarrow> session_manager" where
  "sm_step (Accept obj) m =
     snd (Register obj (m\<lparr>sm_heap := (sm_heap m)(obj \<mapsto> \<lparr>gsn_session_id = 0, gsn_closed = False\<rparr>)\<rparr>))"
| "sm_step (CloseSession obj) m = snd (GameSession_Close obj m)"
| "sm_step (Destroy obj) m = m\<lparr>sm_heap := (sm_heap m)(obj := None)\<rparr>"

fun accepted :: "sm_event list \<Rightarrow> nat list" where
  "accepted [] = []"
| "accepted (Accept obj # evs) = obj # accepted evs"
| "accepted (_ # evs) = accepted evs"

definition sm_run :: "sm_event list \<Rightarrow> session_manager" where
  "sm_run evs = fold sm_step evs GameSessionManager"

text \<open>The id of the \<open>i\<close>-th connection, counting from 0.\<close>

definition sid_of :: "nat \<Rightarrow> uint64" where
  "sid_of i = word_of_nat (Suc i)"

lemma sid_of_inj: "Suc i < 2 ^ 64 \<Longrightarrow> Suc j < 2 ^ 64 \<Longrightarrow> sid_of i = sid_of j \<longleftrightarrow> i = j"
  unfolding sid_of_def by (simp add: word_of_nat_eq_iff take_bit_nat_eq_self del: of_nat_Suc)

lemma unat_sid_of: "Suc i < 2 ^ 64 \<Longrightarrow> unat (sid_of i) = Suc i"
  unfolding sid_of_def by (simp add: unat_of_nat take_bit_nat_eq_self del: of_nat_Suc)

lemma sid_of_next: "sid_of n + 1 = sid_of (Suc n)" "sid_of 0 = 1"
  by (simp_all add: sid_of_def)

text \<open>\<open>issued objs sid obj\<close>: \<open>obj\<close> was the connection that was given the id \<open>sid\<close>.\<close>

definition issued :: "nat list \<Rightarrow> uint64 \<Rightarrow> nat \<Rightarrow> bool" where
  "issued objs sid obj \<longleftrightarrow> (\<exists>i < length objs. sid = sid_of i \<and> objs ! i = obj)"

text \<open>
  The ids handed out are 1, 2, ..., a live object carries the id it was given, and it is in the
  table under that id exactly as long as it is open.
\<close>

definition sm_inv :: "nat list \<Rightarrow> session_manager \<Rightarrow> bool" where
  "sm_inv objs m \<longleftrightarrow>
     sm_nextId m = sid_of (length objs)
     \<and> distinct (map fst (sm_sessions m))
     \<and> (\<forall>sid obj. map_of (sm_sessions m) sid = Some obj \<longrightarrow> issued objs sid obj)
     \<and> (\<forall>obj s. sm_heap m obj = Some s \<longrightarrow> issued objs (gsn_session_id s) obj
          \<and> map_of (sm_sessions m) (gsn_session_id s) = (if gsn_closed s then None else Some obj))"

lemma issued_append: "issued objs sid obj \<Longrightarrow> issued (objs @ [x]) sid obj"
  by (force simp: issued_def nth_append)

lemma issued_last: "issued (objs @ [x]) (sid_of (length objs)) x"
  by (force simp: issued_def)

lemma issued_old:
  assumes "issued objs sid obj" and "Suc (length objs) < 2 ^ 64"
  shows "sid \<noteq> sid_of (length objs)"
proof -
  from assms(1) obtain i where "i < length objs" "sid = sid_of i" by (auto simp: issued_def)
  with assms(2) sid_of_inj [of i "length objs"] show ?thesis by auto
qed

lemma issued_nonzero: "issued objs sid obj \<Longrightarrow> Suc (length objs) < 2 ^ 64 \<Longrightarrow> sid \<noteq> 0"
proof -
  assume "issued objs sid obj" and "Suc (length objs) < 2 ^ 64"
  then obtain i where "i < length objs" "sid = sid_of i" "Suc (length objs) < 2 ^ 64"
    by (auto simp: issued_def)
  with unat_sid_of [of i] show ?thesis by auto
qed

lemma issued_unique:
  assumes "issued objs sid obj" "issued objs sid obj'" "Suc (length objs) < 2 ^ 64"
  shows "obj = obj'"
proof -
  from assms(1,2) obtain i j where ij: "i < length objs" "j < length objs"
    "sid_of i = sid_of j" "objs ! i = obj" "objs ! j = obj'"
    by (auto simp: issued_def)
  with assms(3) sid_of_inj [of i j] show ?thesis by auto
qed

lemma issued_mem: "issued objs sid obj \<Longrightarrow> obj \<in> set objs"
  by (auto simp: issued_def)

lemma sm_inv_init: "sm_inv [] GameSessionManager"
  by (simp add: sm_inv_def GameSessionManager_def sid_of_next)

lemma sm_inv_accept:
  assumes inv: "sm_inv objs m" and "Suc (length objs) < 2 ^ 64"
  shows "sm_inv (objs @ [obj]) (sm_step (Accept obj) m)"
proof -
  let ?id = "sid_of (length objs)"
  let ?m = "sm_step (Accept obj) m"
  have "sm_nextId m = ?id" using inv by (simp add: sm_inv_def)
  then have step: "?m = m\<lparr>sm_nextId := ?id + 1, sm_sessions := AList.update ?id obj (sm_sessions m),
      sm_heap := (sm_heap m)(obj \<mapsto> \<lparr>gsn_session_id = ?id, gsn_closed = False\<rparr>)\<rparr>"
    by (simp add: Register_def Let_def)
  have m: "sm_nextId ?m = sid_of (length (objs @ [obj]))"
    "sm_sessions ?m = AList.update ?id obj (sm_sessions m)"
    "sm_heap ?m = (sm_heap m)(obj \<mapsto> \<lparr>gsn_session_id = ?id, gsn_closed = False\<rparr>)"
    unfolding step by (simp_all add: sid_of_next)
  have old: "sid \<noteq> ?id" if "issued objs sid x" for sid x
    using issued_old [OF that assms(2)] .
  have heap: "issued (objs @ [obj]) (gsn_session_id s) o'
      \<and> map_of (sm_sessions ?m) (gsn_session_id s) = (if gsn_closed s then None else Some o')"
    if s: "sm_heap ?m o' = Some s" for o' s
  proof (cases "o' = obj")
    case True
    with s have "s = \<lparr>gsn_session_id = ?id, gsn_closed = False\<rparr>" unfolding m by simp
    with True show ?thesis unfolding m by (simp add: issued_last update_conv')
  next
    case False
    with s have "sm_heap m o' = Some s" unfolding m by simp
    with inv have "issued objs (gsn_session_id s) o'"
      "map_of (sm_sessions m) (gsn_session_id s) = (if gsn_closed s then None else Some o')"
      by (auto simp: sm_inv_def)
    with old show ?thesis unfolding m by (auto simp: update_conv' issued_append)
  qed
  have tab: "issued (objs @ [obj]) sid o'" if "map_of (sm_sessions ?m) sid = Some o'" for sid o'
    using that inv issued_last issued_append unfolding m
    by (auto simp: update_conv' sm_inv_def split: if_splits)
  have "distinct (map fst (sm_sessions ?m))"
    using inv unfolding m by (simp add: sm_inv_def distinct_update)
  with m(1) heap tab show ?thesis unfolding sm_inv_def by blast
qed

lemma sm_inv_close:
  assumes inv: "sm_inv objs m" and len: "Suc (length objs) < 2 ^ 64" and "distinct objs"
  shows "sm_inv objs (sm_step (CloseSession obj) m)"
proof (cases "\<exists>s. sm_heap m obj = Some s \<and> \<not> gsn_closed s")
  case False
  then show ?thesis using inv by (auto simp: GameSession_Close_def split: option.splits)
next
  case True
  then obtain s where s: "sm_heap m obj = Some s" "\<not> gsn_closed s" by blast
  let ?m = "m\<lparr>sm_heap := (sm_heap m)(obj \<mapsto> s\<lparr>gsn_closed := True\<rparr>),
    sm_sessions := AList.delete (gsn_session_id s) (sm_sessions m)\<rparr>"
  have eq: "sm_step (CloseSession obj) m = ?m"
    using s by (simp add: GameSession_Close_def Unregister_def)
  have iss: "issued objs (gsn_session_id s) obj" using inv s(1) by (auto simp: sm_inv_def)
  have other: "gsn_session_id s' \<noteq> gsn_session_id s" if "sm_heap m o' = Some s'" "o' \<noteq> obj" for o' s'
  proof
    assume "gsn_session_id s' = gsn_session_id s"
    moreover have "issued objs (gsn_session_id s') o'" using inv that(1) by (simp add: sm_inv_def)
    ultimately have "o' = obj" using issued_unique [OF _ iss len] by simp
    with that(2) show False ..
  qed
  show ?thesis unfolding eq
    unfolding sm_inv_def
  proof (intro conjI allI impI)
    show "sm_nextId ?m = sid_of (length objs)" "distinct (map fst (sm_sessions ?m))"
      using inv by (simp_all add: sm_inv_def distinct_delete)
    show "issued objs sid o'" if "map_of (sm_sessions ?m) sid = Some o'" for sid o'
      using that inv by (auto simp: sm_inv_def delete_conv' split: if_splits)
    fix o' s' assume s': "sm_heap ?m o' = Some s'"
    show "issued objs (gsn_session_id s') o'"
    proof (cases "o' = obj")
      case True
      with s' iss show ?thesis by auto
    next
      case False
      with s' inv show ?thesis by (simp add: sm_inv_def)
    qed
    show "map_of (sm_sessions ?m) (gsn_session_id s') = (if gsn_closed s' then None else Some o')"
    proof (cases "o' = obj")
      case True
      with s' show ?thesis by (auto simp: delete_conv')
    next
      case False
      with s' have h: "sm_heap m o' = Some s'" by simp
      with inv other [OF h False] show ?thesis by (simp add: sm_inv_def delete_conv')
    qed
  qed
qed

lemma sm_inv_destroy: "sm_inv objs m \<Longrightarrow> sm_inv objs (sm_step (Destroy obj) m)"
  by (auto simp: sm_inv_def)

lemma sm_inv_run:
  "sm_inv objs m \<Longrightarrow> distinct (objs @ accepted evs) \<Longrightarrow> Suc (length objs + length (accepted evs)) < 2 ^ 64 \<Longrightarrow>
   sm_inv (objs @ accepted evs) (fold sm_step evs m)"
proof (induction evs arbitrary: objs m)
  case Nil
  then show ?case by simp
next
  case (Cons ev evs)
  show ?case
  proof (cases ev)
    case (Accept obj)
    with Cons.IH [of "objs @ [obj]" "sm_step ev m"] Cons.prems sm_inv_accept [of objs m obj]
    show ?thesis by simp
  next
    case (CloseSession obj)
    with Cons.IH [of objs "sm_step ev m"] Cons.prems sm_inv_close [of objs m obj]
    show ?thesis by simp
  next
    case (Destroy obj)
    with Cons.IH [of objs "sm_step ev m"] Cons.prems sm_inv_destroy [of objs m obj]
    show ?thesis by simp
  qed
qed

lemma sm_inv_Find:
  assumes inv: "sm_inv objs m" and "distinct objs"
  shows "Find sid m = Some obj \<longleftrightarrow> (\<exists>s. sm_heap m obj = Some s \<and> \<not> gsn_closed s \<and> gsn_session_id s = sid)"
proof
  assume "Find sid m = Some obj"
  then have t: "map_of (sm_sessions m) sid = Some obj" "sm_heap m obj \<noteq> None"
    by (auto simp: Find_def split: option.splits if_splits)
  then obtain s where s: "sm_heap m obj = Some s" by auto
  with t(1) inv have i: "issued objs sid obj" "issued objs (gsn_session_id s) obj"
    "map_of (sm_sessions m) (gsn_session_id s) = (if gsn_closed s then None else Some obj)"
    by (auto simp: sm_inv_def)
  then have "gsn_session_id s = sid"
    using assms(2) by (auto simp: issued_def nth_eq_iff_index_eq)
  with i(3) t(1) s show "\<exists>s. sm_heap m obj = Some s \<and> \<not> gsn_closed s \<and> gsn_session_id s = sid"
    by (auto split: if_splits)
next
  assume "\<exists>s. sm_heap m obj = Some s \<and> \<not> gsn_closed s \<and> gsn_session_id s = sid"
  with inv show "Find sid m = Some obj" by (auto simp: sm_inv_def Find_def)
qed

text \<open>
  After any history of connections, closes and destructions (fewer than 2^64
  connections), the \<open>i\<close>-th connection has the id \<open>i\<close>, no two share one and none has the id 0 that
  the cache reserves; \<open>Find\<close> returns a session exactly when it lives, is open and carries the id
  asked for, so a reply is never delivered to another client.
\<close>

lemma session_ids_correct:
  assumes "distinct (accepted evs)" and "Suc (length (accepted evs)) < 2 ^ 64"
  shows "(Find sid (sm_run evs) = Some obj \<longleftrightarrow>
      (\<exists>s. sm_heap (sm_run evs) obj = Some s \<and> \<not> gsn_closed s \<and> gsn_session_id s = sid))
    \<and> (Find sid (sm_run evs) = Some obj \<longrightarrow> sid \<noteq> 0
        \<and> accepted evs ! (unat sid - 1) = obj \<and> unat sid \<le> length (accepted evs))"
proof -
  let ?m = "sm_run evs"
  have inv: "sm_inv (accepted evs) ?m"
    using sm_inv_run [OF sm_inv_init, of evs] assms by (simp add: sm_run_def)
  note a = sm_inv_Find [OF inv assms(1)]
  have b: "sid \<noteq> 0 \<and> accepted evs ! (unat sid - 1) = obj \<and> unat sid \<le> length (accepted evs)"
    if f: "Find sid ?m = Some obj"
  proof -
    from f a inv have iss: "issued (accepted evs) sid obj" by (auto simp: sm_inv_def)
    then obtain i where i: "i < length (accepted evs)" "sid = sid_of i" "accepted evs ! i = obj"
      by (auto simp: issued_def)
    with assms(2) have "unat sid = Suc i" by (simp add: unat_sid_of)
    with i issued_nonzero [OF iss assms(2)] show ?thesis by simp
  qed
  from a b show ?thesis by blast
qed

lemma session_ids_correct_witness:
  "Find 2 (sm_run [Accept 7, Accept 8, CloseSession 7, Accept 9]) = Some 8
   \<and> Find 1 (sm_run [Accept 7, Accept 8, CloseSession 7, Accept 9]) = None"
proof -
  let ?evs = "[Accept 7, Accept 8, CloseSession 7, Accept 9]"
  have "distinct (accepted ?evs)" "Suc (length (accepted ?evs)) < 2 ^ 64" by simp_all
  note C = session_ids_correct [OF this]
  have "map_option (\<lambda>s. (gsn_session_id s, gsn_closed s)) (sm_heap (sm_run ?evs) 8) = Some (2, False)"
    by code_simp
  then have "Find 2 (sm_run ?evs) = Some 8" using C [of 2 8] by auto
  moreover have "map_option gsn_closed (sm_heap (sm_run ?evs) 7) = Some True" by code_simp
  then have "Find 1 (sm_run ?evs) \<noteq> Some obj" for obj using C [of 1 obj] by auto
  ultimately show ?thesis by (cases "Find 1 (sm_run ?evs)") auto
qed

end
