(* ===== verification/GameAuction.thy ===== *)
theory GameAuction
  imports AuctionHandlers CacheSound SessionManager
begin

text \<open>
  The game server's side of the auction: \<^verbatim>\<open>GameServer/Network/Handlers/AuctionPacketHandler.cpp\<close>
  (a client's requests, answered from the cache or forwarded) and
  \<^verbatim>\<open>AuctionServerPacketHandler.cpp\<close> (the auction server's replies, routed back to the client).

  The connection to the auction server is the list of requests handed to it, \<open>None\<close> while
  \<open>GAuctionSession\<close> is null; each client session has a sending side.
\<close>

section \<open>State\<close>

record game_server =
  gs_manager :: session_manager
  gs_tx :: "nat \<Rightarrow> session_tx"
  gs_cache :: auction_cache
  gs_auction :: "ss_packet list option"

text \<open>The classes of the messages sent to clients.\<close>

record game_classes =
  gc_auction_list :: "(bool \<times> AuctionItemInfo list) msg_class"
  gc_receipt_list :: "AuctionItemInfo list msg_class"
  gc_regist_item :: "bool msg_class"
  gc_purchase_item :: "(bool \<times> int64) msg_class"
  gc_check_tokenvalid :: "bool msg_class"
  gc_character_list :: "(bool \<times> LobbyCharacterInfo list) msg_class"
  gc_check_nickname :: "bool msg_class"
  gc_create_character :: "bool msg_class"
  gc_delete_character :: "bool msg_class"
  gc_enter_game :: "bool msg_class"
  gc_leave_game :: "bool msg_class"

text \<open>A handler's last outcome: an empty repeated field indexed at 0 is a crash.\<close>

datatype 'a outcome = Done 'a | Crash

fun client_packet :: "game_classes \<Rightarrow> game_packet \<Rightarrow> byte list" where
  "client_packet C (PKT_RES_AUCTION_LIST mylist items) = SendPacket (gc_auction_list C) (mylist, items) 4001"
| "client_packet C (PKT_RES_RECEIPT_LIST items) = SendPacket (gc_receipt_list C) items 4003"
| "client_packet C (PKT_RES_REGIST_ITEM result) = SendPacket (gc_regist_item C) result 4005"
| "client_packet C (PKT_RES_PURCHASE_ITEM result gold) = SendPacket (gc_purchase_item C) (result, gold) 4007"
| "client_packet C (PKT_RES_CHECK_TOKENVALID result) = SendPacket (gc_check_tokenvalid C) result 1001"
| "client_packet C (PKT_RES_CHARACTER_LIST result cs) = SendPacket (gc_character_list C) (result, cs) 1003"
| "client_packet C (PKT_RES_CHECK_NICKNAME result) = SendPacket (gc_check_nickname C) result 1005"
| "client_packet C (PKT_RES_CREATE_CHARACTER result) = SendPacket (gc_create_character C) result 1007"
| "client_packet C (PKT_RES_DELETE_CHARACTER result) = SendPacket (gc_delete_character C) result 1009"
| "client_packet C (PKT_RES_ENTER_GAME result) = SendPacket (gc_enter_game C) result 1011"
| "client_packet C (PKT_RES_LEAVE_GAME result) = SendPacket (gc_leave_game C) result 1013"

definition send_client :: "game_classes \<Rightarrow> nat \<Rightarrow> game_packet \<Rightarrow> game_server \<Rightarrow> game_server" where
  "send_client C obj pkt s = s\<lparr>gs_tx := (gs_tx s)(obj := Send (client_packet C pkt) (gs_tx s obj))\<rparr>"

definition to_auction :: "ss_packet \<Rightarrow> game_server \<Rightarrow> game_server" where
  "to_auction pkt s = s\<lparr>gs_auction := map_option (\<lambda>sent. sent @ [pkt]) (gs_auction s)\<rparr>"

definition GetSessionId :: "nat \<Rightarrow> game_server \<Rightarrow> uint64" where
  "GetSessionId obj s = (case sm_heap (gs_manager s) obj of None \<Rightarrow> 0 | Some g \<Rightarrow> gsn_session_id g)"

section \<open>A client's requests\<close>

text \<open>\<open>set_player_id\<close> takes the 64-bit id as an \<open>int32\<close>.\<close>

definition Game_Handle_REQ_AUCTION_LIST ::
  "int \<Rightarrow> nat \<Rightarrow> Game_REQ_AUCTION_LIST \<Rightarrow> game_server \<Rightarrow> bool \<times> game_server" where
  "Game_Handle_REQ_AUCTION_LIST now session pkt s =
     (let (sent, tx, cache) = (if \<not> gral_mylist pkt then TrySendList now (gs_tx s session) (gs_cache s)
                               else (False, gs_tx s session, gs_cache s));
          s1 = s\<lparr>gs_tx := (gs_tx s)(session := tx), gs_cache := cache\<rparr>
      in if sent then (True, s1)
         else (True, to_auction (PKT_SS_REQ_AUCTION_LIST \<lparr>sral_session_id = GetSessionId session s,
                 sral_request_id = 0, sral_player_id = ucast (gral_player_id pkt),
                 sral_search_item = gral_search_item pkt, sral_mylist = gral_mylist pkt\<rparr>) s1))"

definition Game_Handle_REQ_RECEIPT_LIST :: "nat \<Rightarrow> uint64 \<Rightarrow> game_server \<Rightarrow> bool \<times> game_server" where
  "Game_Handle_REQ_RECEIPT_LIST session player_id s =
     (True, to_auction (PKT_SS_REQ_RECEIPT_LIST \<lparr>srrl_session_id = GetSessionId session s,
        srrl_player_id = player_id\<rparr>) s)"

definition Game_Handle_REQ_REGIST_ITEM ::
  "nat \<Rightarrow> AuctionItemInfo list \<Rightarrow> game_server \<Rightarrow> (bool \<times> game_server) outcome" where
  "Game_Handle_REQ_REGIST_ITEM session registinfo s =
     (case registinfo of
        [] \<Rightarrow> Crash
      | info # _ \<Rightarrow> Done (True, to_auction (PKT_SS_REQ_REGIST_ITEM \<lparr>srri_session_id = GetSessionId session s,
          srri_registinfo = [AuctionItemInfo_default\<lparr>ai_player_id := ai_player_id info,
            ai_item_id := ai_item_id info, ai_count := ai_count info, ai_price := ai_price info,
            ai_expired_at := ai_expired_at info\<rparr>]\<rparr>) s))"

definition Game_Handle_REQ_PURCHASE_ITEM ::
  "game_classes \<Rightarrow> int \<Rightarrow> nat \<Rightarrow> AuctionItemInfo list \<Rightarrow> game_server \<Rightarrow> bool \<times> game_server" where
  "Game_Handle_REQ_PURCHASE_ITEM C now session purchaseinfo s =
     (case purchaseinfo of
        [] \<Rightarrow> (False, s)
      | info # _ \<Rightarrow>
          (let (verdict, cache) = ValidatePurchase now (ai_list_id info) (ai_count info) (ai_player_id info) (gs_cache s);
               s1 = s\<lparr>gs_cache := cache\<rparr>
           in if verdict \<noteq> Pass \<and> verdict \<noteq> Unknown
              then (True, send_client C session (PKT_RES_PURCHASE_ITEM False 0) s1)
              else (True, to_auction (PKT_SS_REQ_PURCHASE_ITEM \<lparr>srpi_session_id = GetSessionId session s,
                      srpi_purchaseinfo = [info]\<rparr>) s1)))"

definition Game_Handle_REQ_RECEIPT_ITEM :: "nat \<Rightarrow> Game_REQ_RECEIPT_ITEM \<Rightarrow> game_server \<Rightarrow> bool \<times> game_server" where
  "Game_Handle_REQ_RECEIPT_ITEM session pkt s =
     (True, to_auction (PKT_SS_REQ_RECEIPT_ITEM \<lparr>srrc_session_id = GetSessionId session s,
        srrc_player_id = grri_player_id pkt, srrc_receipt_id = grri_receipt_id pkt\<rparr>) s)"

section \<open>The auction server's replies\<close>

definition reply_client :: "game_classes \<Rightarrow> uint64 \<Rightarrow> game_packet \<Rightarrow> game_server \<Rightarrow> game_server" where
  "reply_client C sid pkt s =
     (case Find sid (gs_manager s) of None \<Rightarrow> s | Some obj \<Rightarrow> send_client C obj pkt s)"

definition Handle_RES_AUCTION_LIST ::
  "game_classes \<Rightarrow> int \<Rightarrow> SS_RES_AUCTION_LIST \<Rightarrow> game_server \<Rightarrow> bool \<times> game_server" where
  "Handle_RES_AUCTION_LIST C now pkt s =
     (if ssal_session_id pkt = 0
      then (True, s\<lparr>gs_cache := OnRefreshResponse (gc_auction_list C) now pkt (gs_cache s)\<rparr>)
      else (True, reply_client C (ssal_session_id pkt)
              (PKT_RES_AUCTION_LIST (ssal_mylist pkt) (ssal_listinfo pkt)) s))"

definition Handle_RES_RECEIPT_LIST :: "game_classes \<Rightarrow> SS_RES_RECEIPT_LIST \<Rightarrow> game_server \<Rightarrow> bool \<times> game_server" where
  "Handle_RES_RECEIPT_LIST C pkt s =
     (True, reply_client C (ssrl_session_id pkt) (PKT_RES_RECEIPT_LIST (ssrl_receiptlist pkt)) s)"

text \<open>
  \<open>int session_id = pkt.session_id()\<close> keeps 32 bits, and \<open>Find\<close> extends their sign.
\<close>

definition int_session_id :: "int64 \<Rightarrow> uint64" where
  "int_session_id sid = scast (ucast sid :: int32)"

definition Handle_RES_REGIST_ITEM :: "game_classes \<Rightarrow> SS_RES_REGIST_ITEM \<Rightarrow> game_server \<Rightarrow> bool \<times> game_server" where
  "Handle_RES_REGIST_ITEM C pkt s =
     (True, reply_client C (int_session_id (ssri_session_id pkt)) (PKT_RES_REGIST_ITEM (ssri_result pkt)) s)"

definition Handle_RES_PURCHASE_ITEM :: "game_classes \<Rightarrow> SS_RES_PURCHASE_ITEM \<Rightarrow> game_server \<Rightarrow> bool \<times> game_server" where
  "Handle_RES_PURCHASE_ITEM C pkt s =
     (True, reply_client C (int_session_id (sspi_session_id pkt))
       (PKT_RES_PURCHASE_ITEM (sspi_result pkt) (sspi_gold pkt)) s)"

definition Handle_RES_RECEIPT_ITEM :: "SS_RES_RECEIPT_ITEM \<Rightarrow> game_server \<Rightarrow> bool \<times> game_server" where
  "Handle_RES_RECEIPT_ITEM pkt s = (True, s)"

section \<open>Routing\<close>

lemma ucast_64_32: "(ucast (w :: int64) :: int32) = word_of_int (sint w)"
  by transfer (simp add: take_bit_signed_take_bit)

lemma int_session_id_id:
  assumes "- (2 ^ 31) \<le> sint sid" and "sint sid < 2 ^ 31"
  shows "int_session_id sid = sid"
proof -
  have eq: "sint (word_of_int (sint sid) :: int32) = sint sid"
    using assms by (intro sint_word_of_int32) (simp add: in_int32_def)
  show ?thesis unfolding int_session_id_def ucast_64_32 by (subst scast_eq_iff) (rule eq)
qed

text \<open>
  Which clients get their registration and purchase results.  The reply handlers read the
  64-bit session id into an \<open>int\<close>: the id looked up is the request's own exactly when it fits
  32 signed bits.
\<close>

theorem session_id_survives_iff:
  "int_session_id sid = sid \<longleftrightarrow> - (2 ^ 31) \<le> sint sid \<and> sint sid < 2 ^ 31"
proof
  assume "int_session_id sid = sid"
  then have "sint sid = sint (ucast sid :: int32)"
    unfolding int_session_id_def by (metis sint_scast_32_64)
  then show "- (2 ^ 31) \<le> sint sid \<and> sint sid < 2 ^ 31"
    using in_int32_sint [of "ucast sid"] by (simp add: in_int32_def)
qed (simp add: int_session_id_id)

text \<open>
  A result delivered to somebody else.  The purchase result of the session with id 2^32 + 1
  goes to the session with id 1.
\<close>

theorem purchase_result_misdelivered:
  "Handle_RES_PURCHASE_ITEM C \<lparr>sspi_session_id = 2 ^ 32 + 1, sspi_result = b, sspi_gold = g\<rparr> s
   = (True, reply_client C 1 (PKT_RES_PURCHASE_ITEM b g) s)"
proof -
  have "int_session_id (2 ^ 32 + 1) = 1" by (simp add: int_session_id_def)
  then show ?thesis by (simp add: Handle_RES_PURCHASE_ITEM_def)
qed

text \<open>
  A purchase request is answered or forwarded, never both.  The client's handler either
  forwards exactly the request, once, under the client's own session id, and sends the client
  nothing, or forwards nothing and answers with a failure, and then only on a rejecting verdict.
\<close>

lemma purchase_forwarded_or_rejected:
  assumes "gs_auction s = Some sent"
    and "Game_Handle_REQ_PURCHASE_ITEM C now obj (info # infos) s = (ok, s')"
  shows "ok \<and>
    (gs_auction s' = Some (sent @ [PKT_SS_REQ_PURCHASE_ITEM \<lparr>srpi_session_id = GetSessionId obj s,
         srpi_purchaseinfo = [info]\<rparr>]) \<and> gs_tx s' = gs_tx s
     \<or> gs_auction s' = Some sent
       \<and> gs_tx s' = (gs_tx s)(obj := Send (client_packet C (PKT_RES_PURCHASE_ITEM False 0)) (gs_tx s obj))
       \<and> fst (ValidatePurchase now (ai_list_id info) (ai_count info) (ai_player_id info) (gs_cache s))
           \<notin> {Pass, Unknown})"
  using assms
  by (auto simp: Game_Handle_REQ_PURCHASE_ITEM_def to_auction_def send_client_def Let_def
      split: prod.splits if_splits)

text \<open>
  A forwarded purchase comes back to its client.  If the request was forwarded, the auction
  server processed it, and the client's session is still registered under its id (below 2^31)
  when the reply arrives, then the result and the price go to that session and to no other.
\<close>

lemma purchase_result_returns_to_client:
  assumes "gs_auction s = Some sent"
    and "gs_auction (snd (Game_Handle_REQ_PURCHASE_ITEM C now obj items s)) = Some (sent @ [PKT_SS_REQ_PURCHASE_ITEM req])"
    and "process datetime list_id (PKT_SS_REQ_PURCHASE_ITEM req) c = (Inr (PKT_SS_RES_PURCHASE_ITEM reply), c')"
    and "Find (GetSessionId obj s) (gs_manager s2) = Some obj"
    and "0 \<le> sint (GetSessionId obj s)" and "sint (GetSessionId obj s) < 2 ^ 31"
  shows "gs_tx (snd (Handle_RES_PURCHASE_ITEM C reply s2)) = (gs_tx s2)
    (obj := Send (client_packet C (PKT_RES_PURCHASE_ITEM (sspi_result reply) (sspi_gold reply))) (gs_tx s2 obj))"
proof -
  from assms(1,2) have "srpi_session_id req = GetSessionId obj s"
    by (cases items) (auto simp: Game_Handle_REQ_PURCHASE_ITEM_def to_auction_def send_client_def Let_def
        split: prod.splits if_splits)
  moreover from process_answers [OF assms(3)] have "sspi_session_id reply = srpi_session_id req" by simp
  moreover have "int_session_id (GetSessionId obj s) = GetSessionId obj s"
    using assms(5,6) by (simp add: int_session_id_id)
  ultimately show ?thesis
    using assms(4) by (simp add: Handle_RES_PURCHASE_ITEM_def reply_client_def send_client_def)
qed

section \<open>Witnesses\<close>

definition demo_classes :: game_classes where
  "demo_classes = \<lparr>gc_auction_list = empty_class (False, []), gc_receipt_list = empty_class [],
     gc_regist_item = empty_class False, gc_purchase_item = empty_class (False, 0),
     gc_check_tokenvalid = empty_class False, gc_character_list = empty_class (False, []),
     gc_check_nickname = empty_class False, gc_create_character = empty_class False,
     gc_delete_character = empty_class False, gc_enter_game = empty_class False,
     gc_leave_game = empty_class False\<rparr>"

definition demo_game :: game_server where
  "demo_game = \<lparr>gs_manager = sm_run [Accept 5], gs_tx = (\<lambda>_. tx_init), gs_cache = AuctionCache, gs_auction = Some []\<rparr>"

lemma demo_session: "GetSessionId 5 demo_game = 1" "Find 1 (gs_manager demo_game) = Some 5"
  by (simp_all add: demo_game_def GetSessionId_def sm_run_def Register_def GameSessionManager_def Find_def Let_def)

lemma demo_forwarded: "Game_Handle_REQ_PURCHASE_ITEM demo_classes 0 5 [demo_info] demo_game
    = (True, demo_game\<lparr>gs_auction := Some [PKT_SS_REQ_PURCHASE_ITEM \<lparr>srpi_session_id = 1, srpi_purchaseinfo = [demo_info]\<rparr>]\<rparr>)"
proof -
  have "ValidatePurchase 0 a b d (gs_cache demo_game) = (Unknown, gs_cache demo_game)" for a b d
    by (simp add: demo_game_def ValidatePurchase_def AuctionCache_def Let_def)
  then show ?thesis
    by (simp add: Game_Handle_REQ_PURCHASE_ITEM_def to_auction_def demo_session) (simp add: demo_game_def)
qed

lemma purchase_forwarded_or_rejected_witness:
  "gs_tx (snd (Game_Handle_REQ_PURCHASE_ITEM demo_classes 0 5 [demo_info] demo_game)) = gs_tx demo_game"
  using purchase_forwarded_or_rejected [OF _ demo_forwarded, of "[]"]
  by (simp add: demo_forwarded)

lemma purchase_result_returns_to_client_witness:
  "\<exists>reply. sspi_result reply \<and> sspi_gold reply = 300 \<and>
     gs_tx (snd (Handle_RES_PURCHASE_ITEM demo_classes reply demo_game)) 5
       = Send (client_packet demo_classes (PKT_RES_PURCHASE_ITEM True 300)) tx_init"
proof -
  let ?req = "\<lparr>srpi_session_id = 1, srpi_purchaseinfo = [demo_info]\<rparr>"
  have fwd: "gs_auction (snd (Game_Handle_REQ_PURCHASE_ITEM demo_classes 0 5 [demo_info] demo_game))
      = Some ([] @ [PKT_SS_REQ_PURCHASE_ITEM ?req])" by (simp add: demo_forwarded)
  let ?reply = "\<lparr>sspi_session_id = 1, sspi_result = True, sspi_gold = 300\<rparr>"
  obtain c1 where "Purchase demo_info (demo_conn deadlock_first) = (Inr \<lparr>pr_success = True, pr_totalPrice = 300\<rparr>, c1)"
    using demo_run by blast
  then obtain c' where "process (\<lambda>_. []) (\<lambda>_. 0) (PKT_SS_REQ_PURCHASE_ITEM ?req) (demo_conn deadlock_first)
      = (Inr (PKT_SS_RES_PURCHASE_ITEM ?reply), c')"
    by (simp add: ProcessPurchaseItem_def first_info_def bindM_def returnM_def)
  from purchase_result_returns_to_client [OF _ fwd this, of demo_game] show ?thesis
    by (intro exI [of _ ?reply]) (simp add: demo_session, simp add: demo_game_def)
qed

end
