(* ===== verification/PooledDb.thy ===== *)
theory PooledDb
  imports ConnPool Transactions
begin

text \<open>
  The shape every database handler of the game and login servers has: borrow a connection from
  \<^verbatim>\<open>GConnectionPool\<close>, use it, \<open>unborrow\<close> it, and let the \<open>shared_ptr\<close> go out of scope.  An
  exception skips the \<open>unborrow\<close>, so that the connection stays in the set of borrowed ones and
  comes back only by the replacement in \<open>borrow\<close>.  The \<open>while (conn == nullptr)\<close> loops around
  \<open>borrow\<close> never run, because \<open>borrow\<close> throws instead of returning null (\<open>borrow_fails_iff\<close>).

  Both servers run their handlers on one thread, so the handlers of a server are atomic steps.
\<close>

section \<open>State\<close>

text \<open>
  The pool, the session state of each connection, the committed tables and the counters.
  Every connection starts with autocommit on.
\<close>

record db_server =
  ds_pool :: conn_pool
  ds_conns :: "nat \<Rightarrow> conn"
  ds_tables :: db
  ds_autoinc :: autoinc
  ds_tick :: nat

definition open_conn :: "nat \<Rightarrow> db_server \<Rightarrow> conn" where
  "open_conn i s = (let c = ds_conns s i in
     c\<lparr>cn_committed := ds_tables s,
       cn_work := (if cn_autocommit c then ds_tables s else cn_work c),
       cn_autoinc := ds_autoinc s, cn_tick := ds_tick s\<rparr>)"

definition close_conn :: "nat \<Rightarrow> conn \<Rightarrow> conn_pool \<Rightarrow> db_server \<Rightarrow> db_server" where
  "close_conn i c p s = s\<lparr>ds_pool := p, ds_conns := (ds_conns s)(i := c),
     ds_tables := cn_committed c, ds_autoinc := cn_autoinc c, ds_tick := cn_tick c\<rparr>"

definition finish_conn :: "nat \<Rightarrow> conn_pool \<Rightarrow> db_server \<Rightarrow> (exn + 'a) \<times> conn \<Rightarrow> (exn + 'a) \<times> db_server" where
  "finish_conn i p s res =
     (case res of
        (Inl e, c) \<Rightarrow> (Inl e, close_conn i c (drop_ref i p) s)
      | (Inr a, c) \<Rightarrow> (Inr a, close_conn i c (give_back i p) s))"

definition with_conn :: "factory \<Rightarrow> (conn, 'a) xm \<Rightarrow> (db_server, 'a) xm" where
  "with_conn create body s =
     (case borrow create (ds_pool s) of
        (Inl e, p) \<Rightarrow> (Inl e, s\<lparr>ds_pool := p\<rparr>)
      | (Inr i, p) \<Rightarrow> finish_conn i p s (body (open_conn i s)))"

text \<open>A body that may not return: \<open>None\<close> is a handler that runs for ever.\<close>

definition with_conn_opt ::
  "factory \<Rightarrow> (conn \<Rightarrow> ((exn + 'a) \<times> conn) option) \<Rightarrow> db_server \<Rightarrow> ((exn + 'a) \<times> db_server) option" where
  "with_conn_opt create body s =
     (case borrow create (ds_pool s) of
        (Inl e, p) \<Rightarrow> Some (Inl e, s\<lparr>ds_pool := p\<rparr>)
      | (Inr i, p) \<Rightarrow> map_option (finish_conn i p s) (body (open_conn i s)))"

section \<open>Invariant\<close>

text \<open>Every connection that can be lent has autocommit on.\<close>

definition server_inv :: "db_server \<Rightarrow> bool" where
  "server_inv s \<longleftrightarrow> pool_inv (ds_pool s)
     \<and> (\<forall>i. i \<in> set (pool (ds_pool s)) \<or> created (ds_pool s) \<le> i \<longrightarrow> cn_autocommit (ds_conns s i))"

definition server_no_fault :: "db_server \<Rightarrow> bool" where
  "server_no_fault s \<longleftrightarrow> (\<forall>i. no_fault (ds_conns s i))"

lemma open_conn_simps [simp]:
  "cn_committed (open_conn i s) = ds_tables s"
  "cn_autoinc (open_conn i s) = ds_autoinc s"
  "cn_autocommit (open_conn i s) = cn_autocommit (ds_conns s i)"
  "cn_fault (open_conn i s) = cn_fault (ds_conns s i)"
  "cn_clock (open_conn i s) = cn_clock (ds_conns s i)"
  "cn_found_rows (open_conn i s) = cn_found_rows (ds_conns s i)"
  by (simp_all add: open_conn_def Let_def)

lemma open_conn_idle: "cn_autocommit (ds_conns s i) \<Longrightarrow> idle (open_conn i s)"
  by (simp add: open_conn_def Let_def idle_def)

lemma open_conn_no_fault: "server_no_fault s \<Longrightarrow> no_fault (open_conn i s)"
  by (simp add: server_no_fault_def no_fault_def)

lemma close_conn_simps [simp]:
  "ds_tables (close_conn i c p s) = cn_committed c"
  "ds_autoinc (close_conn i c p s) = cn_autoinc c"
  "ds_pool (close_conn i c p s) = p"
  "ds_conns (close_conn i c p s) = (ds_conns s)(i := c)"
  by (simp_all add: close_conn_def)

text \<open>A lent connection was free or is new, and is no longer free.\<close>

lemma borrow_from:
  assumes "pool_inv p" and "borrow create p = (Inr i, p')"
  shows "(i \<in> set (pool p) \<or> created p \<le> i) \<and> i \<notin> set (pool p') \<and> set (pool p') \<subseteq> set (pool p)
    \<and> created p \<le> created p' \<and> i < created p'
    \<and> length (pool p) \<le> Suc (length (pool p'))"
  using assms
  by (auto simp: borrow_def pool_inv_def pool_defs split: list.splits option.splits)

lemma borrow_error_pool:
  assumes "borrow create p = (Inl e, p')"
  shows "pool p' = pool p \<and> created p \<le> created p'"
  using assms by (auto simp: borrow_def pool_defs split: list.splits option.splits)

lemma give_back_pool:
  assumes "i \<in> set (borrowed p)"
  shows "pool (give_back i p) = pool p @ [i] \<and> created (give_back i p) = created p"
  using assms by (simp add: give_back_def unborrow_def erase_borrowed_def drop_ref_def)

lemma give_back_inv: "pool_inv p \<Longrightarrow> pool_inv (give_back i p)"
  by (simp add: give_back_def drop_ref_inv unborrow_inv)

lemma drop_ref_pool: "pool (drop_ref i p) = pool p \<and> created (drop_ref i p) = created p"
  by (simp add: drop_ref_def)

definition keeps_autocommit :: "(conn, 'a) xm \<Rightarrow> bool" where
  "keeps_autocommit body \<longleftrightarrow>
     (\<forall>c a c'. idle c \<longrightarrow> cn_autocommit c \<longrightarrow> body c = (Inr a, c') \<longrightarrow> cn_autocommit c')"

text \<open>The end of a handler's database part: the connection is given back, or lost with an exception.\<close>

lemma finish_conn_outcome:
  assumes inv: "server_inv s" and b: "borrow create (ds_pool s) = (Inr i, p)"
    and run: "finish_conn i p s (r, c) = (r', s')" and ac: "\<not> isl r \<Longrightarrow> cn_autocommit c"
  shows "server_inv s' \<and> r' = r \<and> ds_tables s' = cn_committed c \<and> ds_autoinc s' = cn_autoinc c
    \<and> (\<not> isl r \<longrightarrow> length (pool (ds_pool s)) \<le> length (pool (ds_pool s')))"
proof -
  have pinv: "pool_inv (ds_pool s)" using inv by (simp add: server_inv_def)
  have p: "pool_inv p" by (rule borrow_inv [OF pinv b])
  note origin = borrow_from [OF pinv b]
  have lent: "i \<in> set (borrowed p)" using borrow_lent b by blast
  have others: "cn_autocommit (ds_conns s j)" if "j \<in> set (pool p) \<or> created p \<le> j" for j
    using that origin inv by (auto simp: server_inv_def)
  show ?thesis
  proof (cases r)
    case (Inl e)
    with run have s': "s' = close_conn i c (drop_ref i p) s" "r' = r" by (auto simp: finish_conn_def)
    have "server_inv s'" using origin p others by (auto simp: s' server_inv_def drop_ref_inv drop_ref_pool)
    with s' Inl show ?thesis by simp
  next
    case (Inr a)
    with run have s': "s' = close_conn i c (give_back i p) s" "r' = r" by (auto simp: finish_conn_def)
    have "server_inv s'"
      using origin p others lent give_back_inv [of p i] ac Inr by (auto simp: s' server_inv_def give_back_pool)
    with s' Inr origin lent show ?thesis by (simp add: give_back_pool)
  qed
qed

text \<open>
  What a handler's database part does: either no connection can be lent and nothing happens, or
  the body runs on an idle connection with autocommit on; it is given back exactly when the
  body returns.
\<close>

lemma with_conn_outcome:
  assumes inv: "server_inv s" and run: "with_conn create body s = (r, s')"
    and keeps: "keeps_autocommit body"
  shows "server_inv s' \<and>
    ((\<exists>p. r = Inl ConnectionUnavailable \<and> s' = s\<lparr>ds_pool := p\<rparr>)
     \<or> (\<exists>i p c'. borrow create (ds_pool s) = (Inr i, p)
          \<and> idle (open_conn i s) \<and> cn_autocommit (open_conn i s) \<and> body (open_conn i s) = (r, c')
          \<and> ds_tables s' = cn_committed c' \<and> ds_autoinc s' = cn_autoinc c'
          \<and> (\<not> isl r \<longrightarrow> length (pool (ds_pool s)) \<le> length (pool (ds_pool s')))))"
proof -
  obtain b p where b: "borrow create (ds_pool s) = (b, p)" by force
  show ?thesis
  proof (cases b)
    case (Inl e)
    have p: "pool_inv p" using inv borrow_inv [OF _ b] by (simp add: server_inv_def)
    from b Inl run borrow_error [of create "ds_pool s" e p] have "r = Inl ConnectionUnavailable"
      and s': "s' = s\<lparr>ds_pool := p\<rparr>"
      by (auto simp: with_conn_def)
    moreover have "server_inv s'"
      using inv p borrow_error_pool b Inl by (fastforce simp: s' server_inv_def)
    ultimately show ?thesis by blast
  next
    case (Inr i)
    with b have bi: "borrow create (ds_pool s) = (Inr i, p)" by simp
    have "pool_inv (ds_pool s)" using inv by (simp add: server_inv_def)
    from borrow_from [OF this bi] inv have ac: "cn_autocommit (ds_conns s i)" by (auto simp: server_inv_def)
    obtain r' c where c: "body (open_conn i s) = (r', c)" by force
    from run bi c have fin: "finish_conn i p s (r', c) = (r, s')" by (simp add: with_conn_def)
    have "\<not> isl r' \<Longrightarrow> cn_autocommit c"
      using keeps ac c open_conn_idle [of s i] by (cases r') (auto simp: keeps_autocommit_def)
    from finish_conn_outcome [OF inv bi fin this] ac c bi open_conn_idle [of s i] show ?thesis by auto
  qed
qed

text \<open>The same for a body that may not return, when it does.\<close>

lemma with_conn_opt_outcome:
  assumes inv: "server_inv s" and run: "with_conn_opt create body s = Some (r, s')"
    and keeps: "\<forall>c a c'. idle c \<longrightarrow> cn_autocommit c \<longrightarrow> body c = Some (Inr a, c') \<longrightarrow> cn_autocommit c'"
  shows "server_inv s' \<and>
    ((\<exists>p. r = Inl ConnectionUnavailable \<and> s' = s\<lparr>ds_pool := p\<rparr>)
     \<or> (\<exists>i c'. idle (open_conn i s) \<and> cn_autocommit (open_conn i s)
          \<and> body (open_conn i s) = Some (r, c')
          \<and> ds_tables s' = cn_committed c' \<and> ds_autoinc s' = cn_autoinc c'))"
proof -
  define total where "total c = (case body c of None \<Rightarrow> (Inl (StdException ''none''), c) | Some res \<Rightarrow> res)" for c
  have w: "with_conn create total s = (r, s')"
    using run by (auto simp: with_conn_opt_def with_conn_def total_def split: prod.splits sum.splits)
  have "keeps_autocommit total"
    using keeps by (auto simp: keeps_autocommit_def total_def split: option.splits)
  note W = with_conn_outcome [OF inv w this]
  have "body (open_conn i s) = Some (r', c')"
    if "borrow create (ds_pool s) = (Inr i, p)" "total (open_conn i s) = (r', c')" for i p r' c'
    using run that by (auto simp: with_conn_opt_def total_def)
  with W show ?thesis by blast
qed

section \<open>Queries on a pooled connection\<close>

text \<open>A body that only reads.\<close>

definition read_only :: "(conn, 'a) xm \<Rightarrow> bool" where
  "read_only m \<longleftrightarrow> (\<forall>c r c'. m c = (r, c') \<longrightarrow> ticked c c')"

lemma read_onlyI: "(\<And>c r c'. m c = (r, c') \<Longrightarrow> ticked c c') \<Longrightarrow> read_only m"
  by (auto simp: read_only_def)

lemma read_only_returnM [intro]: "read_only (returnM a)"
  by (auto simp: read_only_def returnM_def)

lemma read_only_db_step [intro]: "read_only (db_step op)"
  by (auto simp: read_only_def db_step_ticked)

lemma read_only_bindM:
  "read_only m \<Longrightarrow> (\<And>a. read_only (f a)) \<Longrightarrow> read_only (bindM m f)"
  unfolding read_only_def bindM_def
  by (fastforce split: prod.splits sum.splits intro: ticked_trans)

lemma read_only_executeQuery:
  "well_bound q args \<Longrightarrow> read_only (executeQuery q args)"
  by (auto intro!: read_onlyI dest: executeQuery_outcome)

lemma with_conn_read_only:
  assumes "server_inv s" and "with_conn create body s = (r, s')" and "read_only body"
  shows "server_inv s' \<and> ds_tables s' = ds_tables s \<and> ds_autoinc s' = ds_autoinc s \<and>
    (r = Inl ConnectionUnavailable
     \<or> (\<exists>i c'. cn_work (open_conn i s) = ds_tables s \<and> body (open_conn i s) = (r, c')))"
proof -
  have keeps: "keeps_autocommit body"
    using assms(3) by (auto simp: read_only_def keeps_autocommit_def dest: tickedD)
  note W = with_conn_outcome [OF assms(1,2) keeps]
  then consider (unavailable) p where "r = Inl ConnectionUnavailable" "s' = s\<lparr>ds_pool := p\<rparr>"
    | (ran) i c' where "idle (open_conn i s)" "body (open_conn i s) = (r, c')"
        "ds_tables s' = cn_committed c'" "ds_autoinc s' = cn_autoinc c'"
    by blast
  then show ?thesis
  proof cases
    case unavailable
    with W show ?thesis by simp
  next
    case ran
    from ran(2) assms(3) have "ticked (open_conn i s) c'" by (auto simp: read_only_def)
    from tickedD [OF this] ran W show ?thesis by (auto simp: idle_def)
  qed
qed

end
