(* ===== verification/Lobby.thy ===== *)
theory Lobby
  imports Messages PooledDb "HOL-Library.Multiset"
begin

text \<open>
  The database handlers of \<^verbatim>\<open>GameServer/Network/Handlers/LobbyPacketHandler.cpp\<close>: token check,
  character list, nickname check, creation and deletion of a character.  A handler returns its
  \<open>bool\<close> and the packets it sent, or the exception that leaves it.

  Parameters: \<open>same_text\<close> is the collation in which the server compares strings, \<open>sd\<close> the
  defaults of the columns that the inserts leave out.
\<close>

section \<open>The SQL statements\<close>

record schema_defaults =
  sd_level :: int
  sd_gold :: int

definition checkToken :: "(string \<Rightarrow> string \<Rightarrow> bool) \<Rightarrow> unit query_stmt" where
  "checkToken same_text = (2, \<lambda>now vs d. case vs of
       [SqlInt acct, SqlString token] \<Rightarrow> Some (take 1 (map (\<lambda>_. ())
         (filter (\<lambda>x. se_account_id x = sint acct \<and> same_text (se_token x) token
             \<and> now < se_expires_at x) (sessions d))))
     | _ \<Rightarrow> None)"

definition character_rows :: "int \<Rightarrow> db \<Rightarrow> (character_base \<times> character_skin) list" where
  "character_rows acct d =
     concat (map (\<lambda>cb.
       concat (map (\<lambda>cc. map (\<lambda>cs. (cb, cs))
           (filter (\<lambda>cs. cb_character_id cb = cs_character_id cs) (character_skins d)))
         (filter (\<lambda>cc. cb_character_id cb = cc) (character_combats d))))
       (filter (\<lambda>cb. cb_account_id cb = acct) (character_bases d)))"

definition FindList :: "(character_base \<times> character_skin) query_stmt" where
  "FindList = (1, \<lambda>now vs d. case vs of
       [SqlUInt64 acct] \<Rightarrow> Some (sort_key (\<lambda>(cb, cs). cb_slot_index cb) (character_rows (uint acct) d))
     | _ \<Rightarrow> None)"

definition nicknameQuery :: "(string \<Rightarrow> string \<Rightarrow> bool) \<Rightarrow> unit query_stmt" where
  "nicknameQuery same_text = (1, \<lambda>now vs d. case vs of
       [SqlString name] \<Rightarrow> Some (take 1 (map (\<lambda>_. ())
         (filter (\<lambda>cb. same_text (cb_nickname cb) name) (character_bases d))))
     | _ \<Rightarrow> None)"

definition create_cbquery :: "schema_defaults \<Rightarrow> update_stmt" where
  "create_cbquery sd = (4, \<lambda>fr now vs ai d. case vs of
       [SqlUInt64 acct, SqlUInt64 slot, SqlString name, SqlUInt64 classtype] \<Rightarrow>
         Some (1, Some (next_character_id ai),
           ai\<lparr>next_character_id := next_character_id ai + 1\<rparr>,
           d\<lparr>character_bases := character_bases d @
             [\<lparr>cb_character_id = next_character_id ai, cb_account_id = uint acct,
               cb_slot_index = uint slot, cb_nickname = name, cb_class_type = uint classtype,
               cb_level = sd_level sd, cb_gold = sd_gold sd\<rparr>]\<rparr>)
     | _ \<Rightarrow> None)"

definition create_ccquery :: update_stmt where
  "create_ccquery = (1, \<lambda>fr now vs ai d. case vs of
       [SqlInt cid] \<Rightarrow> Some (1, None, ai, d\<lparr>character_combats := character_combats d @ [sint cid]\<rparr>)
     | _ \<Rightarrow> None)"

definition create_csquery :: update_stmt where
  "create_csquery = (4, \<lambda>fr now vs ai d. case vs of
       [SqlInt cid, SqlUInt64 upper, SqlUInt64 lower, SqlUInt64 weapon] \<Rightarrow>
         Some (1, None, ai, d\<lparr>character_skins := character_skins d @
           [\<lparr>cs_character_id = sint cid, cs_upper_skin = uint upper, cs_lower_skin = uint lower,
             cs_weapon_skin = uint weapon\<rparr>]\<rparr>)
     | _ \<Rightarrow> None)"

definition delete_ccquery :: update_stmt where
  "delete_ccquery = (1, \<lambda>fr now vs ai d. case vs of
       [SqlUInt64 cid] \<Rightarrow>
         (let (k, rows) = delete_rows (\<lambda>cc. cc = uint cid) (character_combats d)
          in Some (k, None, ai, d\<lparr>character_combats := rows\<rparr>))
     | _ \<Rightarrow> None)"

definition delete_csquery :: update_stmt where
  "delete_csquery = (1, \<lambda>fr now vs ai d. case vs of
       [SqlUInt64 cid] \<Rightarrow>
         (let (k, rows) = delete_rows (\<lambda>cs. cs_character_id cs = uint cid) (character_skins d)
          in Some (k, None, ai, d\<lparr>character_skins := rows\<rparr>))
     | _ \<Rightarrow> None)"

definition delete_ciquery :: update_stmt where
  "delete_ciquery = (1, \<lambda>fr now vs ai d. case vs of
       [SqlUInt64 cid] \<Rightarrow>
         (let (k, rows) = delete_rows (\<lambda>ci. ci = uint cid) (character_inventories d)
          in Some (k, None, ai, d\<lparr>character_inventories := rows\<rparr>))
     | _ \<Rightarrow> None)"

definition delete_cbquery :: update_stmt where
  "delete_cbquery = (2, \<lambda>fr now vs ai d. case vs of
       [SqlUInt64 cid, SqlUInt64 acct] \<Rightarrow>
         (let (k, rows) = delete_rows
                (\<lambda>cb. cb_character_id cb = uint cid \<and> cb_account_id cb = uint acct) (character_bases d)
          in Some (k, None, ai, d\<lparr>character_bases := rows\<rparr>))
     | _ \<Rightarrow> None)"

section \<open>Handlers that read\<close>

type_synonym lobby_handler = "(db_server, bool \<times> game_packet list) xm"

definition Handle_REQ_CHECK_TOKENVALID ::
  "(string \<Rightarrow> string \<Rightarrow> bool) \<Rightarrow> factory \<Rightarrow> uint64 \<Rightarrow> string \<Rightarrow> lobby_handler" where
  "Handle_REQ_CHECK_TOKENVALID same_text create pkt_id token = with_conn create
     (bindM (executeQuery (checkToken same_text) [ArgInt32 (ucast pkt_id), ArgString token]) (\<lambda>rows.
      bindM (db_step OpFetch) (\<lambda>_.
      returnM (True, [PKT_RES_CHECK_TOKENVALID (rows \<noteq> [])]))))"

definition lobby_character :: "character_base \<times> character_skin \<Rightarrow> LobbyCharacterInfo" where
  "lobby_character = (\<lambda>(cb, cs).
     \<lparr>lc_name = cb_nickname cb, lc_character_id = scast (getInt (cb_character_id cb)),
      lc_slot_id = scast (getInt (cb_slot_index cb)), lc_classtype = scast (getInt (cb_class_type cb)),
      lc_level = scast (getInt (cb_level cb)), lc_upperskinid = scast (getInt (cs_upper_skin cs)),
      lc_lowerskinid = scast (getInt (cs_lower_skin cs)),
      lc_weaponskinid = scast (getInt (cs_weapon_skin cs)), lc_gold = scast (getInt (cb_gold cb))\<rparr>)"

text \<open>\<open>list_result > 0\<close> compares the pointer \<open>executeQuery\<close> returned, which is never null.\<close>

definition Handle_REQ_CHARACTER_LIST :: "factory \<Rightarrow> uint64 \<Rightarrow> lobby_handler" where
  "Handle_REQ_CHARACTER_LIST create pkt_id = with_conn create
     (if pkt_id > 0
      then bindM (executeQuery FindList [ArgUInt64 pkt_id]) (\<lambda>rows.
           bindM (db_step OpFetch) (\<lambda>_.
           returnM (True, [PKT_RES_CHARACTER_LIST True (map lobby_character rows)])))
      else returnM (True, [PKT_RES_CHARACTER_LIST False []]))"

definition Handle_REQ_CHECK_NICKNAME ::
  "(string \<Rightarrow> string \<Rightarrow> bool) \<Rightarrow> factory \<Rightarrow> string \<Rightarrow> lobby_handler" where
  "Handle_REQ_CHECK_NICKNAME same_text create name = with_conn create
     (bindM (executeQuery (nicknameQuery same_text) [ArgString name]) (\<lambda>rows.
      bindM (db_step OpFetch) (\<lambda>_.
      returnM (True, [PKT_RES_CHECK_NICKNAME (rows \<noteq> [])]))))"

section \<open>Handlers that write\<close>

text \<open>
  The \<open>try\<close> block both handlers have, its \<open>catch\<close>, which rolls back, and the restoration of
  autocommit.  The rollback of the \<open>catch\<close> and the restoration may throw out of the handler.
\<close>

definition lobby_transaction :: "(conn, bool) xm \<Rightarrow> (conn, bool) xm" where
  "lobby_transaction statements =
     bindM (catchM (bindM (SetAutoCommit False) (\<lambda>_. statements))
       (\<lambda>e. if is_sql e then bindM Rollback (\<lambda>_. returnM False) else throwM e)) (\<lambda>result.
     bindM (SetAutoCommit True) (\<lambda>_. returnM result))"

definition commit_if :: "bool \<Rightarrow> (conn, bool) xm" where
  "commit_if ok = (if ok then bindM Commit (\<lambda>_. returnM True) else bindM Rollback (\<lambda>_. returnM False))"

definition create_statements ::
  "schema_defaults \<Rightarrow> uint64 \<Rightarrow> LobbyCharacterInfo \<Rightarrow> (conn, bool) xm" where
  "create_statements sd account_id temp =
     bindM (executeUpdate_GenKeys (create_cbquery sd)
       [ArgUInt64 account_id, ArgUInt64 (lc_slot_id temp), ArgString (lc_name temp),
        ArgUInt64 (lc_classtype temp)]) (\<lambda>character_id.
     bindM (executeUpdate create_ccquery [ArgInt32 character_id]) (\<lambda>ccUpdate.
     bindM (executeUpdate create_csquery [ArgInt32 character_id, ArgUInt64 (lc_upperskinid temp),
        ArgUInt64 (lc_lowerskinid temp), ArgUInt64 (lc_weaponskinid temp)]) (\<lambda>csUpdate.
     commit_if (0 < sint character_id \<and> 0 < ccUpdate \<and> 0 < csUpdate))))"

definition Handle_REQ_CREATE_CHARACTER ::
  "schema_defaults \<Rightarrow> factory \<Rightarrow> Game_REQ_CREATE_CHARACTER \<Rightarrow> lobby_handler" where
  "Handle_REQ_CREATE_CHARACTER sd create pkt =
     (case grcc_characters pkt of
        [temp] \<Rightarrow> bindM (with_conn create (lobby_transaction (create_statements sd (grcc_account_id pkt) temp)))
          (\<lambda>result. returnM (True, [PKT_RES_CREATE_CHARACTER result]))
      | _ \<Rightarrow> returnM (False, []))"

definition delete_statements :: "uint64 \<Rightarrow> uint64 \<Rightarrow> (conn, bool) xm" where
  "delete_statements account_id character_id =
     bindM (executeUpdate delete_ccquery [ArgUInt64 character_id]) (\<lambda>ccUpdate.
     bindM (executeUpdate delete_csquery [ArgUInt64 character_id]) (\<lambda>csUpdate.
     bindM (executeUpdate delete_ciquery [ArgUInt64 character_id]) (\<lambda>ciUpdate.
     bindM (executeUpdate delete_cbquery [ArgUInt64 character_id, ArgUInt64 account_id]) (\<lambda>cbUpdate.
     commit_if (cbUpdate \<noteq> 0)))))"

definition Handle_REQ_DELETE_CHARACTER ::
  "factory \<Rightarrow> uint64 \<Rightarrow> uint64 \<Rightarrow> lobby_handler" where
  "Handle_REQ_DELETE_CHARACTER create account_id character_id =
     (if account_id = 0 \<or> character_id = 0 then returnM (False, [])
      else bindM (with_conn create (lobby_transaction (delete_statements account_id character_id)))
          (\<lambda>result. returnM (True, [PKT_RES_DELETE_CHARACTER result])))"

section \<open>What they mean\<close>

definition create_character ::
  "schema_defaults \<Rightarrow> uint64 \<Rightarrow> LobbyCharacterInfo \<Rightarrow> int \<Rightarrow> db \<Rightarrow> db" where
  "create_character sd acct temp cid d =
     (let small = sint (word_of_int cid :: int32) in
      d\<lparr>character_bases := character_bases d @
          [\<lparr>cb_character_id = cid, cb_account_id = uint acct, cb_slot_index = uint (lc_slot_id temp),
            cb_nickname = lc_name temp, cb_class_type = uint (lc_classtype temp),
            cb_level = sd_level sd, cb_gold = sd_gold sd\<rparr>],
        character_combats := character_combats d @ [small],
        character_skins := character_skins d @
          [\<lparr>cs_character_id = small, cs_upper_skin = uint (lc_upperskinid temp),
            cs_lower_skin = uint (lc_lowerskinid temp), cs_weapon_skin = uint (lc_weaponskinid temp)\<rparr>]\<rparr>)"

definition key_fits :: "autoinc \<Rightarrow> bool" where
  "key_fits ai \<longleftrightarrow> 0 < sint (word_of_int (next_character_id ai) :: int32)"

definition delete_character :: "int \<Rightarrow> int \<Rightarrow> db \<Rightarrow> db" where
  "delete_character acct cid d =
     d\<lparr>character_bases := filter (\<lambda>cb. \<not> (cb_character_id cb = cid \<and> cb_account_id cb = acct))
         (character_bases d),
       character_combats := filter (\<lambda>cc. cc \<noteq> cid) (character_combats d),
       character_skins := filter (\<lambda>cs. cs_character_id cs \<noteq> cid) (character_skins d),
       character_inventories := filter (\<lambda>ci. ci \<noteq> cid) (character_inventories d)\<rparr>"

definition owns_character :: "int \<Rightarrow> int \<Rightarrow> db \<Rightarrow> bool" where
  "owns_character acct cid d \<longleftrightarrow>
     (\<exists>cb \<in> set (character_bases d). cb_character_id cb = cid \<and> cb_account_id cb = acct)"

lemmas lobby_stmts = checkToken_def FindList_def nicknameQuery_def create_cbquery_def
  create_ccquery_def create_csquery_def delete_ccquery_def delete_csquery_def delete_ciquery_def
  delete_cbquery_def

section \<open>Transactions\<close>

definition ids_le :: "autoinc \<Rightarrow> autoinc \<Rightarrow> bool" where
  "ids_le a b \<longleftrightarrow> next_character_id a \<le> next_character_id b"

definition tx_from :: "conn \<Rightarrow> conn \<Rightarrow> bool" where
  "tx_from c c' \<longleftrightarrow> in_tx c c' \<and> ids_le (cn_autoinc c) (cn_autoinc c')"

definition tx_failed :: "conn \<Rightarrow> exn \<Rightarrow> conn \<Rightarrow> bool" where
  "tx_failed c e c' \<longleftrightarrow> is_sql e \<and> \<not> no_fault c \<and> tx_from c c'"

lemma tx_from_no_fault: "tx_from c c' \<Longrightarrow> no_fault c' = no_fault c"
  by (simp add: tx_from_def in_tx_no_fault)

lemma tx_from_ticked: "tx_from c c' \<Longrightarrow> ticked c' c'' \<Longrightarrow> tx_from c c''"
  by (auto simp: tx_from_def intro: in_tx_ticked dest: tickedD)

lemma tx_failedI:
  "tx_from c c1 \<Longrightarrow> is_sql e \<Longrightarrow> ticked c1 c' \<Longrightarrow> \<not> no_fault c1 \<Longrightarrow> tx_failed c e c'"
  by (auto simp: tx_failed_def tx_from_no_fault intro: tx_from_ticked)

lemma tx_from_apply_update:
  "tx_from c c1 \<Longrightarrow> ids_le (cn_autoinc c1) ai
    \<Longrightarrow> tx_from c (apply_update k gen ai d (c1\<lparr>cn_tick := t\<rparr>))"
  by (auto simp: tx_from_def ids_le_def)

text \<open>A statement whose effect does not depend on the clock.\<close>

definition stmt_effect :: "update_stmt \<Rightarrow> cpp_arg list \<Rightarrow> autoinc \<Rightarrow> db
    \<Rightarrow> nat \<times> int option \<times> autoinc \<times> db \<Rightarrow> bool" where
  "stmt_effect q args ai d res \<longleftrightarrow> well_bound q args
     \<and> (\<forall>fr now. snd q fr now (values_of args) ai d = Some res)"

lemma wp_tx_update:
  assumes "tx_from c c1" and "stmt_effect q args (cn_autoinc c1) (cn_work c1) (k, gen, ai, d)"
    and "ids_le (cn_autoinc c1) ai"
    and "\<And>c2. tx_from c c2 \<Longrightarrow> cn_work c2 = d \<Longrightarrow> cn_autoinc c2 = ai \<Longrightarrow>
      (gen \<noteq> None \<Longrightarrow> Some (cn_last_id c2) = gen) \<Longrightarrow> Q (int k) c2"
  shows "wp (executeUpdate q args) Q (tx_failed c) c1"
proof (rule wp_executeUpdate)
  show "well_bound q args" using assms(2) by (simp add: stmt_effect_def)
  show "tx_failed c e c'" if "is_sql e" "ticked c1 c'" "\<not> no_fault c1" for e c'
    using assms(1) that by (rule tx_failedI)
  show "snd q (cn_found_rows c1) now (values_of args) (cn_autoinc c1) (cn_work c1) \<noteq> None" for now
    using assms(2) by (simp add: stmt_effect_def)
  show "Q (int k') (apply_update (int k') gen' ai' d' (c1\<lparr>cn_tick := t'\<rparr>))"
    if "snd q (cn_found_rows c1) (cn_clock c1 t) (values_of args) (cn_autoinc c1) (cn_work c1)
        = Some (k', gen', ai', d')" for k' gen' ai' d' t t'
  proof -
    have "k' = k" "gen' = gen" "ai' = ai" "d' = d" using that assms(2) by (auto simp: stmt_effect_def)
    then show ?thesis
      by (simp, intro assms(4) tx_from_apply_update assms(1,3)) (auto simp: apply_update_def)
  qed
qed

lemma wp_gets [wp_rules]: "wp (\<lambda>c. (Inr (f c), c)) Q E c = Q (f c) c"
  by (simp add: wp_def)

lemma wp_tx_GenKeys:
  assumes "tx_from c c1"
    and "stmt_effect q args (cn_autoinc c1) (cn_work c1) (k, Some i, ai, d)"
    and "ids_le (cn_autoinc c1) ai"
    and "\<And>c2. tx_from c c2 \<Longrightarrow> cn_work c2 = d \<Longrightarrow> cn_autoinc c2 = ai \<Longrightarrow> Q (word_of_int i) c2"
  shows "wp (executeUpdate_GenKeys q args) Q (tx_failed c) c1"
  unfolding executeUpdate_GenKeys_def
proof (rule wp_bindI, rule wp_tx_update [OF assms(1,2,3)])
  fix c2 assume c2: "tx_from c c2" "cn_work c2 = d" "cn_autoinc c2 = ai"
    and "Some i \<noteq> None \<Longrightarrow> Some (cn_last_id c2) = Some i"
  then have "cn_last_id c2 = i" by simp
  moreover have "tx_from c (c2\<lparr>cn_tick := t\<rparr>)" for t
    using c2(1) by (rule tx_from_ticked) simp
  ultimately show "wp (bindM (db_step OpPrepare) (\<lambda>_. bindM (db_step OpExecute)
      (\<lambda>_ c. (Inr (word_of_int (cn_last_id c)), c)))) Q (tx_failed c) c2"
    using c2 assms(4) tx_from_no_fault [OF c2(1)]
    by (auto simp: wp_rules Let_def tx_failed_def no_fault_def
        split: option.splits)
qed

text \<open>
  \<open>tx_done c ok ai d r c'\<close>: the transaction ended; \<open>r\<close> tells whether it committed, then with the
  tables \<open>d\<close> and the counters \<open>ai\<close>, which needs \<open>ok\<close>.
\<close>

definition tx_done :: "conn \<Rightarrow> bool \<Rightarrow> autoinc \<Rightarrow> db \<Rightarrow> bool \<Rightarrow> conn \<Rightarrow> bool" where
  "tx_done c ok ai d r c' \<longleftrightarrow> same_env c c' \<and> ids_le (cn_autoinc c) (cn_autoinc c') \<and> idle c'
     \<and> (no_fault c \<longrightarrow> r = ok)
     \<and> (if r then ok \<and> cn_committed c' = d \<and> cn_autoinc c' = ai
        else cn_committed c' = cn_committed c)"

lemma wp_commit_if:
  assumes "tx_from c c1" and "ok \<Longrightarrow> cn_work c1 = d \<and> cn_autoinc c1 = ai"
  shows "wp (commit_if ok) (tx_done c ok ai d) (tx_failed c) c1"
  using assms tx_from_no_fault [OF assms(1)]
  by (auto simp: commit_if_def Commit_def Rollback_def wp_rules Let_def
      wp_def [of "\<lambda>c. (Inr (), _ c)"] tx_done_def idle_def tx_failed_def tx_from_def in_tx_def
      untouched_def same_env_def no_fault_def split: option.splits)

text \<open>How an exception leaves: the changes were committed or not.\<close>

definition tx_escaped :: "conn \<Rightarrow> bool \<Rightarrow> autoinc \<Rightarrow> db \<Rightarrow> exn \<Rightarrow> conn \<Rightarrow> bool" where
  "tx_escaped c ok ai d e c' \<longleftrightarrow> is_sql e \<and> \<not> no_fault c \<and> ids_le (cn_autoinc c) (cn_autoinc c')
     \<and> (cn_committed c' = cn_committed c \<or> ok \<and> cn_committed c' = d \<and> cn_autoinc c' = ai)"

definition tx_aborted :: "conn \<Rightarrow> exn \<Rightarrow> conn \<Rightarrow> bool" where
  "tx_aborted c e c' \<longleftrightarrow> is_sql e \<and> \<not> no_fault c \<and> untouched c c'
     \<and> ids_le (cn_autoinc c) (cn_autoinc c')"

lemma tx_failed_aborted: "tx_failed c e c' \<Longrightarrow> tx_aborted c e c'"
  by (simp add: tx_failed_def tx_aborted_def tx_from_def in_tx_def)

lemma wp_rollback_tx:
  assumes "tx_aborted c e c1"
  shows "wp (if is_sql e then bindM Rollback (\<lambda>_. returnM False) else throwM e)
    (tx_done c ok ai d) (tx_escaped c ok ai d) c1"
  using assms
  by (auto simp: Rollback_def wp_rules Let_def wp_def [of "\<lambda>c. (Inr (), _ c)"] tx_done_def
      idle_def tx_aborted_def tx_escaped_def untouched_def same_env_def no_fault_def
      split: option.splits)

lemma wp_restore:
  assumes "tx_done c ok ai d r c1"
  shows "wp (bindM (SetAutoCommit True) (\<lambda>_. returnM r))
     (\<lambda>r c'. tx_done c ok ai d r c' \<and> cn_autocommit c') (tx_escaped c ok ai d) c1"
  using assms
  by (auto simp: SetAutoCommit_def wp_rules Let_def wp_def [of "\<lambda>c. (Inr (), _ c)"] tx_done_def
      idle_def tx_escaped_def same_env_def no_fault_def split: option.splits if_splits)

lemma wp_lobby_transaction:
  assumes "idle c" and "\<And>c1. tx_from c c1 \<Longrightarrow> cn_work c1 = cn_committed c \<Longrightarrow> cn_autoinc c1 = cn_autoinc c \<Longrightarrow>
    wp statements (tx_done c ok ai d) (tx_failed c) c1"
  shows "wp (lobby_transaction statements)
     (\<lambda>r c'. tx_done c ok ai d r c' \<and> cn_autocommit c') (tx_escaped c ok ai d) c"
proof -
  have abort: "tx_aborted c e c1 \<Longrightarrow>
      wp (if is_sql e then bindM Rollback (\<lambda>_. returnM False) else throwM e)
        (\<lambda>r. wp (bindM (SetAutoCommit True) (\<lambda>_. returnM r))
          (\<lambda>r c'. tx_done c ok ai d r c' \<and> cn_autocommit c') (tx_escaped c ok ai d))
        (tx_escaped c ok ai d) c1" for e c1
    by (rule wp_mono [OF wp_rollback_tx wp_restore])
  have run: "wp statements
        (\<lambda>r. wp (bindM (SetAutoCommit True) (\<lambda>_. returnM r))
          (\<lambda>r c'. tx_done c ok ai d r c' \<and> cn_autocommit c') (tx_escaped c ok ai d))
        (\<lambda>e. wp (if is_sql e then bindM Rollback (\<lambda>_. returnM False) else throwM e)
          (\<lambda>r. wp (bindM (SetAutoCommit True) (\<lambda>_. returnM r))
            (\<lambda>r c'. tx_done c ok ai d r c' \<and> cn_autocommit c') (tx_escaped c ok ai d))
          (tx_escaped c ok ai d)) c1"
    if "started c c1" "\<not> cn_autocommit c1" for c1
    by (rule wp_mono [OF assms(2) wp_restore abort])
      (use that assms(1) in \<open>auto simp: started_def tx_from_def in_tx_def ids_le_def idle_def
        intro: tx_failed_aborted\<close>)
  show ?thesis
    unfolding lobby_transaction_def
  proof (rule wp_bindI, unfold wp_catchM, rule wp_bindI, rule wp_SetAutoCommit_False)
    show "wp (if is_sql e then bindM Rollback (\<lambda>_. returnM False) else throwM e)
        (\<lambda>r. wp (bindM (SetAutoCommit True) (\<lambda>_. returnM r))
          (\<lambda>r c'. tx_done c ok ai d r c' \<and> cn_autocommit c') (tx_escaped c ok ai d))
        (tx_escaped c ok ai d) c1"
      if "is_sql e" "started c c1" "\<not> no_fault c" for e c1
      by (rule abort) (use that in \<open>simp add: tx_aborted_def started_def ids_le_def\<close>)
  qed (rule run)
qed

section \<open>The two transactions\<close>

lemma create_effects:
  "stmt_effect (create_cbquery sd) [ArgUInt64 acct, ArgUInt64 slot, ArgString name, ArgUInt64 ct] ai d
     (1, Some (next_character_id ai), ai\<lparr>next_character_id := next_character_id ai + 1\<rparr>,
      d\<lparr>character_bases := character_bases d @
        [\<lparr>cb_character_id = next_character_id ai, cb_account_id = uint acct,
          cb_slot_index = uint slot, cb_nickname = name, cb_class_type = uint ct,
          cb_level = sd_level sd, cb_gold = sd_gold sd\<rparr>]\<rparr>)"
  "stmt_effect create_ccquery [ArgInt32 cid] ai d
     (1, None, ai, d\<lparr>character_combats := character_combats d @ [sint cid]\<rparr>)"
  "stmt_effect create_csquery [ArgInt32 cid, ArgUInt64 u, ArgUInt64 l, ArgUInt64 w] ai d
     (1, None, ai, d\<lparr>character_skins := character_skins d @
        [\<lparr>cs_character_id = sint cid, cs_upper_skin = uint u, cs_lower_skin = uint l,
          cs_weapon_skin = uint w\<rparr>]\<rparr>)"
  by (simp_all add: stmt_effect_def well_bound_def create_cbquery_def create_ccquery_def
      create_csquery_def)

lemma delete_effects:
  "stmt_effect delete_ccquery [ArgUInt64 cid] ai d
     (length (filter (\<lambda>cc. cc = uint cid) (character_combats d)), None, ai,
      d\<lparr>character_combats := filter (\<lambda>cc. cc \<noteq> uint cid) (character_combats d)\<rparr>)"
  "stmt_effect delete_csquery [ArgUInt64 cid] ai d
     (length (filter (\<lambda>cs. cs_character_id cs = uint cid) (character_skins d)), None, ai,
      d\<lparr>character_skins := filter (\<lambda>cs. cs_character_id cs \<noteq> uint cid) (character_skins d)\<rparr>)"
  "stmt_effect delete_ciquery [ArgUInt64 cid] ai d
     (length (filter (\<lambda>ci. ci = uint cid) (character_inventories d)), None, ai,
      d\<lparr>character_inventories := filter (\<lambda>ci. ci \<noteq> uint cid) (character_inventories d)\<rparr>)"
  "stmt_effect delete_cbquery [ArgUInt64 cid, ArgUInt64 acct] ai d
     (length (filter (\<lambda>cb. cb_character_id cb = uint cid \<and> cb_account_id cb = uint acct)
        (character_bases d)), None, ai,
      d\<lparr>character_bases := filter (\<lambda>cb. \<not> (cb_character_id cb = uint cid \<and> cb_account_id cb = uint acct))
        (character_bases d)\<rparr>)"
  by (simp_all add: stmt_effect_def well_bound_def delete_ccquery_def delete_csquery_def
      delete_ciquery_def delete_cbquery_def delete_rows_def)

lemma create_outcome:
  assumes "idle c"
  shows "wp (lobby_transaction (create_statements sd acct temp))
     (\<lambda>r c'. tx_done c (key_fits (cn_autoinc c))
          ((cn_autoinc c)\<lparr>next_character_id := next_character_id (cn_autoinc c) + 1\<rparr>)
          (create_character sd acct temp (next_character_id (cn_autoinc c)) (cn_committed c)) r c'
        \<and> cn_autocommit c')
     (tx_escaped c (key_fits (cn_autoinc c))
          ((cn_autoinc c)\<lparr>next_character_id := next_character_id (cn_autoinc c) + 1\<rparr>)
          (create_character sd acct temp (next_character_id (cn_autoinc c)) (cn_committed c))) c"
proof (rule wp_lobby_transaction [OF assms])
  fix c1 assume c1: "tx_from c c1" "cn_work c1 = cn_committed c" "cn_autoinc c1 = cn_autoinc c"
  show "wp (create_statements sd acct temp)
    (tx_done c (key_fits (cn_autoinc c))
          ((cn_autoinc c)\<lparr>next_character_id := next_character_id (cn_autoinc c) + 1\<rparr>)
          (create_character sd acct temp (next_character_id (cn_autoinc c)) (cn_committed c)))
    (tx_failed c) c1"
    unfolding create_statements_def
    apply (rule wp_bindI, rule wp_tx_GenKeys [OF c1(1) create_effects(1)])
    subgoal by (simp add: ids_le_def)
    apply (rule wp_bindI, rule wp_tx_update [OF _ create_effects(2)], assumption)
    subgoal by (simp add: ids_le_def)
    apply (rule wp_bindI, rule wp_tx_update [OF _ create_effects(3)], assumption)
    subgoal by (simp add: ids_le_def)
    apply (simp add: c1 key_fits_def [symmetric], rule wp_commit_if, assumption)
    apply (simp add: create_character_def Let_def)
    done
qed

lemma delete_outcome:
  assumes "idle c"
  shows "wp (lobby_transaction (delete_statements acct cid))
     (\<lambda>r c'. tx_done c (owns_character (uint acct) (uint cid) (cn_committed c)) (cn_autoinc c)
          (delete_character (uint acct) (uint cid) (cn_committed c)) r c' \<and> cn_autocommit c')
     (tx_escaped c (owns_character (uint acct) (uint cid) (cn_committed c)) (cn_autoinc c)
          (delete_character (uint acct) (uint cid) (cn_committed c))) c"
proof (rule wp_lobby_transaction [OF assms])
  fix c1 assume c1: "tx_from c c1" "cn_work c1 = cn_committed c" "cn_autoinc c1 = cn_autoinc c"
  have owns: "(int (length (filter (\<lambda>cb. cb_character_id cb = uint cid \<and> cb_account_id cb = uint acct)
      (character_bases d))) \<noteq> 0) = owns_character (uint acct) (uint cid) d" for d
    by (auto simp: owns_character_def filter_empty_conv)
  have bases: "owns_character (uint acct) (uint cid)
      (d\<lparr>character_combats := x, character_skins := y, character_inventories := z\<rparr>)
      = owns_character (uint acct) (uint cid) d" for d x y z
    by (simp add: owns_character_def)
  show "wp (delete_statements acct cid)
    (tx_done c (owns_character (uint acct) (uint cid) (cn_committed c)) (cn_autoinc c)
          (delete_character (uint acct) (uint cid) (cn_committed c))) (tx_failed c) c1"
    unfolding delete_statements_def
    apply (rule wp_bindI, rule wp_tx_update [OF c1(1) delete_effects(1)])
    subgoal by (simp add: ids_le_def)
    apply (rule wp_bindI, rule wp_tx_update [OF _ delete_effects(2)], assumption)
    subgoal by (simp add: ids_le_def)
    apply (rule wp_bindI, rule wp_tx_update [OF _ delete_effects(3)], assumption)
    subgoal by (simp add: ids_le_def)
    apply (rule wp_bindI, rule wp_tx_update [OF _ delete_effects(4)], assumption)
    subgoal by (simp add: ids_le_def)
    apply (simp only: owns c1 bases, rule wp_commit_if, assumption)
    apply (simp add: c1 delete_character_def)
    done
qed

end
