(* ===== verification/Login.thy ===== *)
theory Login
  imports Lobby
begin

text \<open>
  \<^verbatim>\<open>LoginServer/SignManager.cpp\<close>, the token generator and the password functions of
  \<^verbatim>\<open>ServerCore/SqlUtils.h\<close>, and \<^verbatim>\<open>LoginServer/Network/Handlers/LoginPacketHandler.cpp\<close>.

  Parameters: \<open>same_text\<close> is the collation in which the database compares strings;
  \<open>validatePassword\<close> and \<open>generateHash\<close> are BCrypt's, the latter with the salt it draws;
  \<open>rd k\<close> are the eight words \<open>std::random_device\<close> gives to the \<open>k\<close>-th token.
\<close>

section \<open>Tokens\<close>

fun hex_digits :: "nat \<Rightarrow> string" where
  "hex_digits n = (if n < 16 then [''0123456789abcdef'' ! n]
     else hex_digits (n div 16) @ [''0123456789abcdef'' ! (n mod 16)])"

declare hex_digits.simps [simp del]

text \<open>\<open>oss << std::hex << std::setw(8) << std::setfill('0') << d\<close>.\<close>

definition hex_word :: "uint32 \<Rightarrow> string" where
  "hex_word d = (let ds = hex_digits (unat d) in replicate (8 - length ds) (CHR ''0'') @ ds)"

definition GenerateToken :: "uint32 list \<Rightarrow> string" where
  "GenerateToken data = concat (map hex_word data)"

section \<open>Passwords\<close>

definition HashPassword :: "(string \<Rightarrow> nat \<Rightarrow> string) \<Rightarrow> string \<Rightarrow> string" where
  [simp]: "HashPassword generateHash password = generateHash password 12"

definition VerifyPassword :: "(string \<Rightarrow> string \<Rightarrow> bool) \<Rightarrow> string \<Rightarrow> string \<Rightarrow> bool" where
  [simp]: "VerifyPassword validatePassword password hash = validatePassword password hash"

section \<open>The SQL statements\<close>

definition Query_CheckID :: "(string \<Rightarrow> string \<Rightarrow> bool) \<Rightarrow> (int \<times> string) query_stmt" where
  "Query_CheckID same_text = (1, \<lambda>now vs d. case vs of
       [SqlString uid] \<Rightarrow> Some (map (\<lambda>a. (ac_account_id a, ac_user_password a))
         (filter (\<lambda>a. ac_is_active a \<and> same_text (ac_user_id a) uid) (accounts d)))
     | _ \<Rightarrow> None)"

definition Query_SignIn :: "(string \<Rightarrow> string \<Rightarrow> bool) \<Rightarrow> update_stmt" where
  "Query_SignIn same_text = (1, \<lambda>fr now vs ai d. case vs of
       [SqlString uid] \<Rightarrow>
         (let (k, rows) = update_rows fr (\<lambda>a. same_text (ac_user_id a) uid)
                (\<lambda>a. a\<lparr>ac_last_login := Some now\<rparr>) (accounts d)
          in Some (k, None, ai, d\<lparr>accounts := rows\<rparr>))
     | _ \<Rightarrow> None)"

definition Query_Signtoken :: update_stmt where
  "Query_Signtoken = (2, \<lambda>fr now vs ai d. case vs of
       [SqlInt acct, SqlString token] \<Rightarrow>
         Some (1, None, ai, d\<lparr>sessions := sessions d @
           [\<lparr>se_account_id = sint acct, se_token = token, se_expires_at = now + 60 * 30\<rparr>]\<rparr>)
     | _ \<Rightarrow> None)"

definition Query_SignUp :: update_stmt where
  "Query_SignUp = (2, \<lambda>fr now vs ai d. case vs of
       [SqlString uid, SqlString hash] \<Rightarrow>
         Some (1, Some (next_account_id ai), ai\<lparr>next_account_id := next_account_id ai + 1\<rparr>,
           d\<lparr>accounts := accounts d @
             [\<lparr>ac_account_id = next_account_id ai, ac_user_id = uid, ac_user_password = hash,
               ac_created_at = now, ac_is_active = True, ac_last_login = None\<rparr>]\<rparr>)
     | _ \<Rightarrow> None)"

section \<open>SignManager\<close>

definition TryCheckID :: "(string \<Rightarrow> string \<Rightarrow> bool) \<Rightarrow> factory \<Rightarrow> string \<Rightarrow> (db_server, bool) xm" where
  "TryCheckID same_text create uid = with_conn create
     (bindM (executeQuery (Query_CheckID same_text) [ArgString uid]) (\<lambda>rows.
      bindM (db_step OpFetch) (\<lambda>_. returnM (rows \<noteq> []))))"

text \<open>
  The loop that inserts the token repeats while the insert throws, with no bound: its value is
  \<open>None\<close> when it never ends.  \<open>executeUpdate\<close> gives no negative row count.
\<close>

partial_function (option) insert_token ::
  "(nat \<Rightarrow> uint32 list) \<Rightarrow> int32 \<Rightarrow> nat \<Rightarrow> conn \<Rightarrow> (string \<times> conn) option" where
  "insert_token rd account_id k c =
     (case executeUpdate Query_Signtoken [ArgInt32 account_id, ArgString (GenerateToken (rd k))] c of
        (Inl _, c') \<Rightarrow> insert_token rd account_id (Suc k) c'
      | (Inr successInsert, c') \<Rightarrow>
          if successInsert < 0 then insert_token rd account_id (Suc k) c'
          else Some (GenerateToken (rd k), c'))"

text \<open>The account of the id, or the defaults \<open>-1\<close> and the empty hash.\<close>

definition find_account :: "(string \<Rightarrow> string \<Rightarrow> bool) \<Rightarrow> string \<Rightarrow> (conn, int32 \<times> string) xm" where
  "find_account same_text uid =
     bindM (executeQuery (Query_CheckID same_text) [ArgString uid]) (\<lambda>rows.
     bindM (db_step OpFetch) (\<lambda>_.
     returnM (case rows of [] \<Rightarrow> (-1, []) | (acct, hash) # _ \<Rightarrow> (getInt acct, hash))))"

definition sign_in ::
  "(string \<Rightarrow> string \<Rightarrow> bool) \<Rightarrow> (string \<Rightarrow> string \<Rightarrow> bool) \<Rightarrow> (nat \<Rightarrow> uint32 list)
    \<Rightarrow> string \<Rightarrow> string \<Rightarrow> conn \<Rightarrow> ((exn + int32 \<times> string) \<times> conn) option" where
  "sign_in same_text validatePassword rd uid pw c =
     (case find_account same_text uid c of
        (Inl e, c1) \<Rightarrow> Some (Inl e, c1)
      | (Inr (account_id, hashed_pw), c1) \<Rightarrow>
          if VerifyPassword validatePassword pw hashed_pw
          then (case insert_token rd account_id 0 c1 of
                  None \<Rightarrow> None
                | Some (token, c2) \<Rightarrow>
                    (case executeUpdate (Query_SignIn same_text) [ArgString uid] c2 of
                       (Inl e, c3) \<Rightarrow> Some (Inl e, c3)
                     | (Inr _, c3) \<Rightarrow> Some (Inr (account_id, token), c3)))
          else Some (Inr (-1, []), c1))"

definition TrySignIn ::
  "(string \<Rightarrow> string \<Rightarrow> bool) \<Rightarrow> (string \<Rightarrow> string \<Rightarrow> bool) \<Rightarrow> (nat \<Rightarrow> uint32 list) \<Rightarrow> factory
    \<Rightarrow> string \<Rightarrow> string \<Rightarrow> db_server \<Rightarrow> ((exn + int32 \<times> string) \<times> db_server) option" where
  "TrySignIn same_text validatePassword rd create uid pw =
     with_conn_opt create (sign_in same_text validatePassword rd uid pw)"

definition TrySignUp :: "(string \<Rightarrow> nat \<Rightarrow> string) \<Rightarrow> factory \<Rightarrow> string \<Rightarrow> string \<Rightarrow> (db_server, bool) xm" where
  "TrySignUp generateHash create uid pw = with_conn create
     (bindM (executeUpdate_GenKeys Query_SignUp [ArgString uid, ArgString (HashPassword generateHash pw)])
        (\<lambda>account_id. returnM (account_id \<noteq> -1)))"

section \<open>Handlers\<close>

text \<open>A handler's \<open>bool\<close> and the packets it sends.\<close>

definition Handle_REQ_LOGIN ::
  "(string \<Rightarrow> string \<Rightarrow> bool) \<Rightarrow> (string \<Rightarrow> string \<Rightarrow> bool) \<Rightarrow> (nat \<Rightarrow> uint32 list) \<Rightarrow> factory
    \<Rightarrow> string \<Rightarrow> string \<Rightarrow> db_server \<Rightarrow> ((exn + bool \<times> login_packet list) \<times> db_server) option" where
  "Handle_REQ_LOGIN same_text validatePassword rd create uid pw s =
     map_option (\<lambda>(r, s'). (case r of
          Inl e \<Rightarrow> Inl e
        | Inr (player_id, token) \<Rightarrow> Inr (True, [PKT_RES_LOGIN player_id token]), s'))
       (TrySignIn same_text validatePassword rd create uid pw s)"

definition Handle_REQ_CHECK_ID ::
  "(string \<Rightarrow> string \<Rightarrow> bool) \<Rightarrow> factory \<Rightarrow> string \<Rightarrow> (db_server, bool \<times> login_packet list) xm" where
  "Handle_REQ_CHECK_ID same_text create uid =
     bindM (TryCheckID same_text create uid) (\<lambda>success. returnM (True, [PKT_RES_CHECK_ID success]))"

definition Handle_REQ_JOIN ::
  "(string \<Rightarrow> nat \<Rightarrow> string) \<Rightarrow> factory \<Rightarrow> string \<Rightarrow> string \<Rightarrow> (db_server, bool \<times> login_packet list) xm" where
  "Handle_REQ_JOIN generateHash create uid pw =
     bindM (TrySignUp generateHash create uid pw) (\<lambda>success. returnM (success, [PKT_RES_JOIN success]))"

end
