(* ===== verification/LobbySpec.thy ===== *)
theory LobbySpec
  imports Lobby
begin

text \<open>
  Correctness of the lobby's handlers: creation and deletion of a character are atomic whatever
  the connector does, only the owner deletes a character, and the character tables stay
  consistent, so that the character list shows each character of the account exactly once.
\<close>

section \<open>Creation and deletion\<close>

lemma bindM_returnM_outcome:
  assumes "bindM m (\<lambda>a. returnM (f a)) s = (r, s')"
  obtains r1 where "m s = (r1, s')"
    and "r = (case r1 of Inl e \<Rightarrow> Inl e | Inr a \<Rightarrow> Inr (f a))"
  using assms by (cases "m s") (auto simp: bindM_def returnM_def split: sum.splits)

text \<open>A pooled transaction, from its outcome on a connection.\<close>

lemma pooled_transaction:
  assumes inv: "server_inv s" and run: "with_conn create (lobby_transaction m) s = (r, s')"
    and spec: "\<And>c. idle c \<Longrightarrow> wp (lobby_transaction m)
      (\<lambda>r c'. tx_done c (ok (cn_autoinc c) (cn_committed c)) (ai (cn_autoinc c))
           (d (cn_autoinc c) (cn_committed c)) r c' \<and> cn_autocommit c')
      (tx_escaped c (ok (cn_autoinc c) (cn_committed c)) (ai (cn_autoinc c))
           (d (cn_autoinc c) (cn_committed c))) c"
  shows "server_inv s' \<and> ids_le (ds_autoinc s) (ds_autoinc s')
    \<and> (ds_tables s' = ds_tables s \<or> ok (ds_autoinc s) (ds_tables s)
         \<and> ds_tables s' = d (ds_autoinc s) (ds_tables s) \<and> ds_autoinc s' = ai (ds_autoinc s))
    \<and> (case r of
         Inr result \<Rightarrow> (result \<longrightarrow> ok (ds_autoinc s) (ds_tables s))
           \<and> (server_no_fault s \<longrightarrow> result = ok (ds_autoinc s) (ds_tables s))
           \<and> ds_tables s' = (if result then d (ds_autoinc s) (ds_tables s) else ds_tables s)
           \<and> length (pool (ds_pool s)) \<le> length (pool (ds_pool s'))
       | Inl e \<Rightarrow> e = ConnectionUnavailable \<or> is_sql e \<and> \<not> server_no_fault s)"
proof -
  have keeps: "keeps_autocommit (lobby_transaction m)"
    using spec by (fastforce simp: keeps_autocommit_def wp_def)
  note W = with_conn_outcome [OF inv run keeps]
  then consider (unavailable) p where "r = Inl ConnectionUnavailable" "s' = s\<lparr>ds_pool := p\<rparr>"
    | (ran) i c' where "idle (open_conn i s)" "lobby_transaction m (open_conn i s) = (r, c')"
        "ds_tables s' = cn_committed c'" "ds_autoinc s' = cn_autoinc c'"
        "\<not> isl r \<longrightarrow> length (pool (ds_pool s)) \<le> length (pool (ds_pool s'))"
    by blast
  then show ?thesis
  proof cases
    case unavailable
    with W show ?thesis by (simp add: ids_le_def)
  next
    case ran
    from spec [OF ran(1)] have S: "case r of
        Inr result \<Rightarrow> tx_done (open_conn i s) (ok (ds_autoinc s) (ds_tables s)) (ai (ds_autoinc s))
           (d (ds_autoinc s) (ds_tables s)) result c'
      | Inl e \<Rightarrow> tx_escaped (open_conn i s) (ok (ds_autoinc s) (ds_tables s)) (ai (ds_autoinc s))
           (d (ds_autoinc s) (ds_tables s)) e c'"
      by (simp add: wp_def ran(2) split: sum.splits)
    show ?thesis
    proof (cases r)
      case (Inl e)
      with S W ran open_conn_no_fault [of s i] show ?thesis by (auto simp: tx_escaped_def)
    next
      case (Inr result)
      with S W ran open_conn_no_fault [of s i] show ?thesis
        by (cases result) (auto simp: tx_done_def)
    qed
  qed
qed

definition next_key :: "autoinc \<Rightarrow> autoinc" where
  "next_key ai = ai\<lparr>next_character_id := next_character_id ai + 1\<rparr>"

lemmas pooled_create = pooled_transaction [where ok = "\<lambda>ai _. key_fits ai" and ai = next_key
    and d = "\<lambda>ai d. create_character sd acct temp (next_character_id ai) d"
    and m = "create_statements sd acct temp" for sd acct temp,
    unfolded next_key_def, OF _ _ create_outcome]

lemmas pooled_delete = pooled_transaction [where ok = "\<lambda>_ d. owns_character (uint acct) (uint cid) d"
    and ai = "\<lambda>ai. ai" and d = "\<lambda>_ d. delete_character (uint acct) (uint cid) d"
    and m = "delete_statements acct cid" for acct cid, OF _ _ delete_outcome]

text \<open>
  C19: creating a character is atomic.  A request with exactly one character either inserts its
  rows in all three tables or leaves every table alone, whatever calls of the connector fail,
  and the reply says which; without a failure it succeeds unless the generated key does not fit
  the \<open>int\<close> it is read into.  The handler throws only if no connection can be lent or the
  connector fails, and a handler that returns has returned its connection.
\<close>

theorem create_character_atomic:
  assumes "server_inv s" and "Handle_REQ_CREATE_CHARACTER sd create pkt s = (r, s')"
    and "grcc_characters pkt = [temp]"
  shows "server_inv s' \<and>
    (let created = create_character sd (grcc_account_id pkt) temp (next_character_id (ds_autoinc s))
                     (ds_tables s)
     in (ds_tables s' = ds_tables s \<or> ds_tables s' = created) \<and>
       (case r of
          Inr res \<Rightarrow> (\<exists>ok. res = (True, [PKT_RES_CREATE_CHARACTER ok])
            \<and> ds_tables s' = (if ok then created else ds_tables s)
            \<and> (server_no_fault s \<longrightarrow> ok = key_fits (ds_autoinc s))
            \<and> length (pool (ds_pool s)) \<le> length (pool (ds_pool s')))
        | Inl e \<Rightarrow> e = ConnectionUnavailable \<or> is_sql e \<and> \<not> server_no_fault s))"
proof -
  from assms(2,3) obtain r1 where
    "with_conn create (lobby_transaction (create_statements sd (grcc_account_id pkt) temp)) s = (r1, s')"
    and "r = (case r1 of Inl e \<Rightarrow> Inl e | Inr a \<Rightarrow> Inr (True, [PKT_RES_CREATE_CHARACTER a]))"
    by (auto simp: Handle_REQ_CREATE_CHARACTER_def elim: bindM_returnM_outcome)
  with pooled_create [OF assms(1) this(1)] show ?thesis
    by (auto simp: Let_def split: sum.splits)
qed

text \<open>
  C20: deleting a character is atomic and only its owner can do it.  The rows of the character
  disappear from all four tables together, or nothing changes, whatever calls fail; without a
  failure the reply is positive exactly when the account owns the character, and a character
  that is not the account's is never touched.
\<close>

theorem delete_character_atomic:
  assumes "server_inv s" and "Handle_REQ_DELETE_CHARACTER create acct cid s = (r, s')"
    and "acct \<noteq> 0" and "cid \<noteq> 0"
  shows "server_inv s' \<and>
    (let owns = owns_character (uint acct) (uint cid) (ds_tables s);
         deleted = delete_character (uint acct) (uint cid) (ds_tables s)
     in (ds_tables s' = ds_tables s \<or> owns \<and> ds_tables s' = deleted) \<and>
       (case r of
          Inr res \<Rightarrow> (\<exists>ok. res = (True, [PKT_RES_DELETE_CHARACTER ok]) \<and> (ok \<longrightarrow> owns)
            \<and> ds_tables s' = (if ok then deleted else ds_tables s)
            \<and> (server_no_fault s \<longrightarrow> ok = owns)
            \<and> length (pool (ds_pool s)) \<le> length (pool (ds_pool s')))
        | Inl e \<Rightarrow> e = ConnectionUnavailable \<or> is_sql e \<and> \<not> server_no_fault s))"
proof -
  from assms(2-4) obtain r1 where
    "with_conn create (lobby_transaction (delete_statements acct cid)) s = (r1, s')"
    and "r = (case r1 of Inl e \<Rightarrow> Inl e | Inr a \<Rightarrow> Inr (True, [PKT_RES_DELETE_CHARACTER a]))"
    by (auto simp: Handle_REQ_DELETE_CHARACTER_def elim: bindM_returnM_outcome)
  with pooled_delete [OF assms(1) this(1)] show ?thesis
    by (auto simp: Let_def split: sum.splits)
qed

section \<open>Consistency of the character tables\<close>

text \<open>
  Every character has one row in each of the three tables, inventories belong to characters, and
  the key counter is ahead of every key.
\<close>

definition character_ids :: "db \<Rightarrow> int list" where
  "character_ids d = map cb_character_id (character_bases d)"

definition character_inv :: "autoinc \<Rightarrow> db \<Rightarrow> bool" where
  "character_inv ai d \<longleftrightarrow> distinct (character_ids d)
     \<and> mset (character_combats d) = mset (character_ids d)
     \<and> mset (map cs_character_id (character_skins d)) = mset (character_ids d)
     \<and> set (character_inventories d) \<subseteq> set (character_ids d)
     \<and> (\<forall>i \<in> set (character_ids d). i < next_character_id ai) \<and> 0 < next_character_id ai"

lemma character_inv_mono: "character_inv ai d \<Longrightarrow> ids_le ai ai' \<Longrightarrow> character_inv ai' d"
  by (fastforce simp: character_inv_def ids_le_def)

lemma character_inv_create:
  assumes "character_inv ai d" and "in_int32 (next_character_id ai)"
  shows "character_inv (next_key ai) (create_character sd acct temp (next_character_id ai) d)"
  using assms by (fastforce simp: character_inv_def character_ids_def create_character_def Let_def
      sint_word_of_int32 next_key_def)

lemma filter_owned:
  assumes "distinct (map k xs)" and "x \<in> set xs" and "k x = i" and "P x"
  shows "filter (\<lambda>y. \<not> (k y = i \<and> P y)) xs = filter (\<lambda>y. k y \<noteq> i) xs"
  using assms by (intro filter_cong refl) (metis distinct_map inj_onD)

lemma map_filter_key: "map k (filter (\<lambda>y. k y \<noteq> i) xs) = filter (\<lambda>j. j \<noteq> i) (map k xs)"
  by (induction xs) auto

lemma character_inv_delete:
  assumes inv: "character_inv ai d" and owns: "owns_character acct cid d"
  shows "character_inv ai (delete_character acct cid d)"
proof -
  obtain cb where "cb \<in> set (character_bases d)" "cb_character_id cb = cid" "cb_account_id cb = acct"
    using owns by (auto simp: owns_character_def)
  then have ids: "character_ids (delete_character acct cid d) = filter (\<lambda>j. j \<noteq> cid) (character_ids d)"
    using inv filter_owned [of cb_character_id "character_bases d" cb cid "\<lambda>cb. cb_account_id cb = acct"]
    by (simp add: character_inv_def character_ids_def delete_character_def map_filter_key)
  have filt: "mset xs = mset ys \<Longrightarrow> mset (filter P xs) = mset (filter P ys)" for P and xs ys :: "int list"
    by (simp add: mset_filter)
  show ?thesis
    using inv unfolding character_inv_def ids
    by (auto simp: delete_character_def map_filter_key filt)
qed

section \<open>Histories\<close>

datatype lobby_request =
    CreateCharacter Game_REQ_CREATE_CHARACTER
  | DeleteCharacter uint64 uint64

fun lobby_serve :: "schema_defaults \<Rightarrow> factory \<Rightarrow> lobby_request \<Rightarrow> db_server \<Rightarrow> db_server" where
  "lobby_serve sd create (CreateCharacter pkt) s = snd (Handle_REQ_CREATE_CHARACTER sd create pkt s)"
| "lobby_serve sd create (DeleteCharacter acct cid) s =
     snd (Handle_REQ_DELETE_CHARACTER create acct cid s)"

definition lobby_inv :: "db_server \<Rightarrow> bool" where
  "lobby_inv s \<longleftrightarrow> server_inv s \<and> character_inv (ds_autoinc s) (ds_tables s)"

definition key_in_int32 :: "db_server \<Rightarrow> bool" where
  "key_in_int32 s \<longleftrightarrow> next_character_id (ds_autoinc s) \<le> 2 ^ 31"

lemma create_effect:
  assumes inv: "server_inv s" and s': "s' = snd (Handle_REQ_CREATE_CHARACTER sd create pkt s)"
  shows "server_inv s' \<and> ids_le (ds_autoinc s) (ds_autoinc s')
    \<and> (ds_tables s' = ds_tables s \<or> ds_autoinc s' = next_key (ds_autoinc s)
         \<and> (\<exists>temp. ds_tables s' = create_character sd (grcc_account_id pkt) temp
               (next_character_id (ds_autoinc s)) (ds_tables s)))"
proof (cases "\<exists>temp. grcc_characters pkt = [temp]")
  case False
  then have "Handle_REQ_CREATE_CHARACTER sd create pkt s = (Inr (False, []), s)"
    by (simp add: Handle_REQ_CREATE_CHARACTER_def returnM_def split: list.splits)
  with assms show ?thesis by (simp add: ids_le_def)
next
  case True
  then obtain temp where temp: "grcc_characters pkt = [temp]" by blast
  obtain r where "Handle_REQ_CREATE_CHARACTER sd create pkt s = (r, s')"
    using s' by (cases "Handle_REQ_CREATE_CHARACTER sd create pkt s") auto
  with temp obtain r1 where
    run: "with_conn create (lobby_transaction (create_statements sd (grcc_account_id pkt) temp)) s = (r1, s')"
    by (auto simp: Handle_REQ_CREATE_CHARACTER_def elim: bindM_returnM_outcome)
  show ?thesis using pooled_create [OF inv run, folded next_key_def] by blast
qed

lemma delete_effect:
  assumes inv: "server_inv s" and s': "s' = snd (Handle_REQ_DELETE_CHARACTER create acct cid s)"
  shows "server_inv s' \<and> ids_le (ds_autoinc s) (ds_autoinc s')
    \<and> (ds_tables s' = ds_tables s \<or> ds_autoinc s' = ds_autoinc s
         \<and> owns_character (uint acct) (uint cid) (ds_tables s)
         \<and> ds_tables s' = delete_character (uint acct) (uint cid) (ds_tables s))"
proof (cases "acct = 0 \<or> cid = 0")
  case True
  with assms show ?thesis by (simp add: Handle_REQ_DELETE_CHARACTER_def returnM_def ids_le_def)
next
  case False
  obtain r where "Handle_REQ_DELETE_CHARACTER create acct cid s = (r, s')"
    using s' by (cases "Handle_REQ_DELETE_CHARACTER create acct cid s") auto
  with False obtain r1 where
    run: "with_conn create (lobby_transaction (delete_statements acct cid)) s = (r1, s')"
    by (auto simp: Handle_REQ_DELETE_CHARACTER_def elim: bindM_returnM_outcome)
  show ?thesis using pooled_delete [OF inv run] by blast
qed

lemma lobby_serve_server:
  "server_inv s \<Longrightarrow> server_inv (lobby_serve sd create req s)
     \<and> ids_le (ds_autoinc s) (ds_autoinc (lobby_serve sd create req s))"
proof (cases req)
  case (CreateCharacter pkt)
  then show "server_inv s \<Longrightarrow> ?thesis" using create_effect [OF _ refl, of s sd create pkt] by simp
next
  case (DeleteCharacter acct cid)
  then show "server_inv s \<Longrightarrow> ?thesis" using delete_effect [OF _ refl, of s create acct cid] by simp
qed

lemma lobby_serve_inv:
  assumes inv: "lobby_inv s" and key: "key_in_int32 (lobby_serve sd create req s)"
  shows "lobby_inv (lobby_serve sd create req s)"
proof -
  let ?s' = "lobby_serve sd create req s"
  have s: "server_inv s" and c: "character_inv (ds_autoinc s) (ds_tables s)"
    using inv by (auto simp: lobby_inv_def)
  have "character_inv (ds_autoinc ?s') (ds_tables ?s')"
  proof (cases "ds_tables ?s' = ds_tables s")
    case True
    with c lobby_serve_server [OF s] show ?thesis by (auto intro: character_inv_mono)
  next
    case False
    show ?thesis
    proof (cases req)
      case (CreateCharacter pkt)
      with False create_effect [OF s refl, of sd create pkt] obtain temp where
        ai: "ds_autoinc ?s' = next_key (ds_autoinc s)"
        and "ds_tables ?s' = create_character sd (grcc_account_id pkt) temp
               (next_character_id (ds_autoinc s)) (ds_tables s)" by auto
      moreover have "in_int32 (next_character_id (ds_autoinc s))"
        using key ai c by (simp add: key_in_int32_def next_key_def in_int32_def character_inv_def)
      ultimately show ?thesis using character_inv_create [OF c] by simp
    next
      case (DeleteCharacter acct cid)
      with False delete_effect [OF s refl, of create acct cid] show ?thesis
        by (auto intro: character_inv_delete c)
    qed
  qed
  with lobby_serve_server [OF s] show ?thesis by (simp add: lobby_inv_def)
qed

lemma lobby_history_server:
  "server_inv s \<Longrightarrow> server_inv (fold (lobby_serve sd create) reqs s)
     \<and> ids_le (ds_autoinc s) (ds_autoinc (fold (lobby_serve sd create) reqs s))"
proof (induction reqs arbitrary: s)
  case Nil
  then show ?case by (simp add: ids_le_def)
next
  case (Cons req reqs)
  from Cons.IH [of "lobby_serve sd create req s"] lobby_serve_server [OF Cons.prems, of sd create req]
  show ?case by (auto simp: ids_le_def)
qed

lemma lobby_history_inv:
  "lobby_inv s \<Longrightarrow> key_in_int32 (fold (lobby_serve sd create) reqs s)
    \<Longrightarrow> lobby_inv (fold (lobby_serve sd create) reqs s)"
proof (induction reqs arbitrary: s)
  case Nil
  then show ?case by simp
next
  case (Cons req reqs)
  let ?s1 = "lobby_serve sd create req s"
  have "server_inv ?s1" using Cons.prems(1) lobby_serve_server by (auto simp: lobby_inv_def)
  from lobby_history_server [OF this, of sd create reqs] Cons.prems(2) have "key_in_int32 ?s1"
    by (fastforce simp: key_in_int32_def ids_le_def)
  with Cons show ?case by (simp add: lobby_serve_inv)
qed

section \<open>The character list\<close>

lemma count_key: "count (mset (map k xs)) i = length (filter (\<lambda>x. i = k x) xs)"
  by (induction xs) auto

lemma unique_row:
  assumes "mset (map k xs) = mset ids" and "distinct ids" and "i \<in> set ids"
  shows "\<exists>x. filter (\<lambda>x. i = k x) xs = [x]"
proof -
  have "count (mset (map k xs)) i = 1" using assms by (simp add: distinct_count_atmost_1)
  then have "length (filter (\<lambda>x. i = k x) xs) = 1"
    by (simp only: count_key)
  then show ?thesis by (cases "filter (\<lambda>x. i = k x) xs") auto
qed

lemma character_rows_once:
  assumes "character_inv ai d"
  shows "map fst (character_rows acct d) = filter (\<lambda>cb. cb_account_id cb = acct) (character_bases d)"
proof -
  have "map fst (concat (map (\<lambda>cb. concat (map (\<lambda>cc. map (\<lambda>cs. (cb, cs))
           (filter (\<lambda>cs. cb_character_id cb = cs_character_id cs) (character_skins d)))
         (filter (\<lambda>cc. cb_character_id cb = cc) (character_combats d)))) cbs)) = cbs"
    if "set cbs \<subseteq> set (character_bases d)" for cbs
    using that
  proof (induction cbs)
    case (Cons cb cbs)
    have i: "cb_character_id cb \<in> set (character_ids d)"
      using Cons.prems by (auto simp: character_ids_def)
    from assms unique_row [of "\<lambda>x. x" "character_combats d" "character_ids d" "cb_character_id cb"]
      unique_row [of cs_character_id "character_skins d" "character_ids d" "cb_character_id cb"] i
    obtain cc cs where "filter (\<lambda>cc. cb_character_id cb = cc) (character_combats d) = [cc]"
      and "filter (\<lambda>cs. cb_character_id cb = cs_character_id cs) (character_skins d) = [cs]"
      by (auto simp: character_inv_def)
    with Cons show ?case by simp
  qed simp
  from this [of "filter (\<lambda>cb. cb_account_id cb = acct) (character_bases d)"]
  show ?thesis by (auto simp: character_rows_def)
qed

lemma character_rows_skin:
  "(cb, cs) \<in> set (character_rows acct d) \<Longrightarrow> cs \<in> set (character_skins d)
     \<and> cs_character_id cs = cb_character_id cb"
  by (auto simp: character_rows_def)

lemma well_bound_FindList: "well_bound FindList [ArgUInt64 a]"
  by (simp add: well_bound_def FindList_def)

lemma FindList_rows:
  assumes "server_inv s" and "Handle_REQ_CHARACTER_LIST create acct s = (Inr res, s')" and "acct \<noteq> 0"
  shows "res = (True, [PKT_RES_CHARACTER_LIST True (map lobby_character
      (sort_key (\<lambda>(cb, cs). cb_slot_index cb) (character_rows (uint acct) (ds_tables s))))])
    \<and> ds_tables s' = ds_tables s"
proof -
  let ?body = "bindM (executeQuery FindList [ArgUInt64 acct]) (\<lambda>rows.
           bindM (db_step OpFetch) (\<lambda>_.
           returnM (True, [PKT_RES_CHARACTER_LIST True (map lobby_character rows)])))"
  have run: "with_conn create ?body s = (Inr res, s')"
    using assms(2,3) by (simp add: Handle_REQ_CHARACTER_LIST_def word_gt_0)
  have "read_only ?body"
    by (intro read_only_bindM read_only_executeQuery well_bound_FindList read_only_db_step
        read_only_returnM)
  from with_conn_read_only [OF assms(1) run this] obtain i c' where
    work: "cn_work (open_conn i s) = ds_tables s" and b: "?body (open_conn i s) = (Inr res, c')"
    and tables: "ds_tables s' = ds_tables s" by auto
  from b obtain rows c1 where q: "executeQuery FindList [ArgUInt64 acct] (open_conn i s) = (Inr rows, c1)"
    and res: "res = (True, [PKT_RES_CHARACTER_LIST True (map lobby_character rows)])"
    by (auto simp: bindM_def returnM_def split: prod.splits sum.splits)
  from executeQuery_outcome [OF q well_bound_FindList]
  have "rows = sort_key (\<lambda>(cb, cs). cb_slot_index cb) (character_rows (uint acct) (ds_tables s))"
    by (simp add: FindList_def work)
  with res tables show ?thesis by simp
qed

text \<open>
  C21: the character list is complete and exact.  Through any history of creations and deletions,
  by any clients, with any failures of the connector and the pool, the character tables stay
  consistent while the keys fit \<open>int\<close>; and then the list sent for an account has each of its
  characters exactly once, with its own skin, in the order of the slots.
\<close>

theorem character_list_exact:
  assumes "lobby_inv s" and "s1 = fold (lobby_serve sd create) reqs s" and "key_in_int32 s1"
    and "Handle_REQ_CHARACTER_LIST create acct s1 = (Inr res, s2)" and "acct \<noteq> 0"
  shows "lobby_inv s1 \<and> ds_tables s2 = ds_tables s1 \<and>
    (\<exists>rows. res = (True, [PKT_RES_CHARACTER_LIST True (map lobby_character rows)])
       \<and> mset (map fst rows)
           = mset (filter (\<lambda>cb. cb_account_id cb = uint acct) (character_bases (ds_tables s1)))
       \<and> sorted (map (\<lambda>(cb, cs). cb_slot_index cb) rows)
       \<and> (\<forall>(cb, cs) \<in> set rows. cs \<in> set (character_skins (ds_tables s1))
            \<and> cs_character_id cs = cb_character_id cb))"
proof -
  have inv: "lobby_inv s1" using lobby_history_inv assms(1-3) by simp
  let ?rows = "sort_key (\<lambda>(cb, cs). cb_slot_index cb) (character_rows (uint acct) (ds_tables s1))"
  have "mset (map fst ?rows) = mset (map fst (character_rows (uint acct) (ds_tables s1)))"
    by simp
  with inv have "mset (map fst ?rows)
      = mset (filter (\<lambda>cb. cb_account_id cb = uint acct) (character_bases (ds_tables s1)))"
    using character_rows_once unfolding lobby_inv_def by metis
  moreover have "sorted (map (\<lambda>(cb, cs). cb_slot_index cb) ?rows)" by simp
  moreover have "\<forall>(cb, cs) \<in> set ?rows. cs \<in> set (character_skins (ds_tables s1))
      \<and> cs_character_id cs = cb_character_id cb"
    using character_rows_skin by fastforce
  moreover have "res = (True, [PKT_RES_CHARACTER_LIST True (map lobby_character ?rows)])
      \<and> ds_tables s2 = ds_tables s1"
    by (rule FindList_rows) (use assms(4,5) inv in \<open>auto simp: lobby_inv_def\<close>)
  ultimately show ?thesis using inv by blast
qed

section \<open>Witnesses\<close>

definition empty_db :: db where
  "empty_db = \<lparr>auction_listings = [], auction_transactions = [], auction_receipts = [],
     character_bases = [], character_combats = [], character_skins = [],
     character_inventories = [], accounts = [], sessions = []\<rparr>"

definition first_keys :: autoinc where
  "first_keys = \<lparr>next_listing_id = 1, next_receipt_id = 1, next_character_id = 1,
     next_account_id = 1\<rparr>"

text \<open>A server with one connection and empty tables.\<close>

definition lobby_demo :: "(nat \<Rightarrow> dbop \<Rightarrow> int option) \<Rightarrow> db_server" where
  "lobby_demo fault = \<lparr>
     ds_pool = \<lparr>pool_size = 1, pool = [0], borrowed = [], ext = [], created = 1\<rparr>,
     ds_conns = (\<lambda>_. \<lparr>cn_autocommit = True, cn_committed = empty_db, cn_work = empty_db,
       cn_autoinc = first_keys, cn_last_id = 0, cn_tick = 0, cn_fault = fault, cn_clock = int,
       cn_found_rows = False\<rparr>),
     ds_tables = empty_db, ds_autoinc = first_keys, ds_tick = 0\<rparr>"

definition demo_character :: "uint64 \<Rightarrow> LobbyCharacterInfo" where
  "demo_character slot = \<lparr>lc_name = ''n'', lc_character_id = 0, lc_slot_id = slot, lc_classtype = 1,
     lc_level = 1, lc_upperskinid = 5, lc_lowerskinid = 6, lc_weaponskinid = 7, lc_gold = 0\<rparr>"

definition demo_create :: "uint64 \<Rightarrow> uint64 \<Rightarrow> Game_REQ_CREATE_CHARACTER" where
  "demo_create acct slot = \<lparr>grcc_account_id = acct, grcc_characters = [demo_character slot]\<rparr>"

definition demo_sd :: schema_defaults where
  "demo_sd = \<lparr>sd_level = 1, sd_gold = 100\<rparr>"

definition demo_requests :: "lobby_request list" where
  "demo_requests = [CreateCharacter (demo_create 4 2), CreateCharacter (demo_create 4 1),
     DeleteCharacter 4 1, DeleteCharacter 5 2]"

definition commit_fails :: "nat \<Rightarrow> dbop \<Rightarrow> int option" where
  "commit_fails n op = (if op = OpCommit then Some 1213 else None)"

lemma lobby_demo_inv: "lobby_inv (lobby_demo fault)" "server_inv (lobby_demo fault)"
  by (simp_all add: lobby_inv_def server_inv_def pool_inv_def lobby_demo_def character_inv_def
      character_ids_def empty_db_def first_keys_def)

text \<open>The commit of the creation fails: nothing is inserted, and the client is told.\<close>

theorem create_character_atomic_witness:
  "\<exists>s'. Handle_REQ_CREATE_CHARACTER demo_sd (\<lambda>_. None) (demo_create 4 2) (lobby_demo commit_fails)
     = (Inr (True, [PKT_RES_CREATE_CHARACTER False]), s') \<and> ds_tables s' = empty_db"
proof -
  have "fst (Handle_REQ_CREATE_CHARACTER demo_sd (\<lambda>_. None) (demo_create 4 2) (lobby_demo commit_fails))
     = Inr (True, [PKT_RES_CREATE_CHARACTER False])" by code_simp
  then obtain s' where
    run: "Handle_REQ_CREATE_CHARACTER demo_sd (\<lambda>_. None) (demo_create 4 2) (lobby_demo commit_fails)
     = (Inr (True, [PKT_RES_CREATE_CHARACTER False]), s')" by (metis prod.collapse)
  from create_character_atomic [OF lobby_demo_inv(2) run, of "demo_character 2"]
  have "ds_tables s' = ds_tables (lobby_demo commit_fails)"
    by (auto simp: demo_create_def Let_def split: if_splits)
  moreover have "ds_tables (lobby_demo fault) = empty_db" for fault by (simp add: lobby_demo_def)
  ultimately show ?thesis using run by auto
qed

theorem delete_character_atomic_witness:
  "\<exists>s'. Handle_REQ_DELETE_CHARACTER (\<lambda>_. None) 4 1 (lobby_demo (\<lambda>_ _. None))
     = (Inr (True, [PKT_RES_DELETE_CHARACTER False]), s') \<and> ds_tables s' = empty_db"
proof -
  have "fst (Handle_REQ_DELETE_CHARACTER (\<lambda>_. None) 4 1 (lobby_demo (\<lambda>_ _. None)))
     = Inr (True, [PKT_RES_DELETE_CHARACTER False])" by code_simp
  then obtain s' where run: "Handle_REQ_DELETE_CHARACTER (\<lambda>_. None) 4 1 (lobby_demo (\<lambda>_ _. None))
     = (Inr (True, [PKT_RES_DELETE_CHARACTER False]), s')" by (metis prod.collapse)
  from delete_character_atomic [OF lobby_demo_inv(2) run]
  have "ds_tables s' = ds_tables (lobby_demo (\<lambda>_ _. None))"
    by (auto simp: Let_def split: if_splits)
  moreover have "ds_tables (lobby_demo fault) = empty_db" for fault by (simp add: lobby_demo_def)
  ultimately show ?thesis using run by auto
qed

theorem character_list_exact_witness:
  "\<exists>rows. length rows = 1 \<and> sorted (map (\<lambda>(cb, cs). cb_slot_index cb) rows) \<and>
     fst (Handle_REQ_CHARACTER_LIST (\<lambda>_. None) 4
        (fold (lobby_serve demo_sd (\<lambda>_. None)) demo_requests (lobby_demo (\<lambda>_ _. None))))
     = Inr (True, [PKT_RES_CHARACTER_LIST True (map lobby_character rows)])"
proof -
  let ?s1 = "fold (lobby_serve demo_sd (\<lambda>_. None)) demo_requests (lobby_demo (\<lambda>_ _. None))"
  let ?res = "(True, [PKT_RES_CHARACTER_LIST True
      [(demo_character 1)\<lparr>lc_character_id := 2, lc_gold := 100\<rparr>]])"
  have "fst (Handle_REQ_CHARACTER_LIST (\<lambda>_. None) 4 ?s1) = Inr ?res" by code_simp
  then obtain s2 where run: "Handle_REQ_CHARACTER_LIST (\<lambda>_. None) 4 ?s1 = (Inr ?res, s2)"
    by (metis prod.collapse)
  have "next_character_id (ds_autoinc ?s1) = 3" by code_simp
  then have key: "key_in_int32 ?s1" by (simp add: key_in_int32_def)
  have "(4 :: uint64) \<noteq> 0" by simp
  note exact = character_list_exact [OF lobby_demo_inv(1) refl key run this]
  obtain rows where
    res: "?res = (True, [PKT_RES_CHARACTER_LIST True (map lobby_character rows)])"
    and s: "sorted (map (\<lambda>(cb, cs). cb_slot_index cb) rows)"
    by (rule exE [OF exact [THEN conjunct2, THEN conjunct2]]) (elim conjE, rule that)
  from res have rows: "[(demo_character 1)\<lparr>lc_character_id := 2, lc_gold := 100\<rparr>] = map lobby_character rows"
    by (simp only: prod.inject list.inject game_packet.inject)
  from rows have "length rows = 1" by (cases rows) auto
  with rows s run show ?thesis by (metis fst_conv)
qed

end
