(* ===== verification/LoginSpec.thy ===== *)
theory LoginSpec
  imports Login LobbySpec
begin

text \<open>
  Correctness of sign-in: the tokens lose nothing of the random words they are made of; a
  successful sign-in needs an active account and its password and opens a session that the game
  server accepts for thirty minutes; the token loop returns if the faults of the connector end,
  and never does if they do not.
\<close>

section \<open>Tokens\<close>

definition hex_alphabet :: string where
  "hex_alphabet = ''0123456789abcdef''"

definition hex_value :: "string \<Rightarrow> nat" where
  "hex_value = foldl (\<lambda>v c. 16 * v + length (takeWhile (\<lambda>d. d \<noteq> c) hex_alphabet)) 0"

lemma hex_digit: "n < 16 \<Longrightarrow> length (takeWhile (\<lambda>d. d \<noteq> hex_alphabet ! n) hex_alphabet) = n"
proof -
  have "list_all (\<lambda>n. length (takeWhile (\<lambda>d. d \<noteq> hex_alphabet ! n) hex_alphabet) = n) [0..<16]"
    by code_simp
  then show "n < 16 \<Longrightarrow> ?thesis" by (simp add: list_all_iff del: upt_rec_numeral)
qed

lemma hex_digits_unfold: "hex_digits n = (if n < 16 then [hex_alphabet ! n]
     else hex_digits (n div 16) @ [hex_alphabet ! (n mod 16)])"
  by (simp add: hex_digits.simps [of n] hex_alphabet_def)

lemma hex_value_snoc: "hex_value (ds @ [hex_alphabet ! n]) = 16 * hex_value ds + n" if "n < 16"
  using hex_digit [OF that] by (simp add: hex_value_def)

lemma hex_value_digits: "hex_value (hex_digits n) = n"
proof (induction n rule: hex_digits.induct)
  case (1 n)
  show ?case
  proof (cases "n < 16")
    case True
    then show ?thesis using hex_value_snoc [of n "[]"] by (simp add: hex_digits_unfold [of n] hex_value_def)
  next
    case False
    then show ?thesis using 1 hex_value_snoc [of "n mod 16"] by (simp add: hex_digits_unfold [of n])
  qed
qed

lemma hex_value_zeros: "hex_value (replicate k (CHR ''0'') @ ds) = hex_value ds"
proof -
  have "foldl (\<lambda>v c. 16 * v + length (takeWhile (\<lambda>d. d \<noteq> c) hex_alphabet)) 0 (replicate k (CHR ''0'')) = 0"
    by (induction k) (simp_all add: hex_alphabet_def)
  then show ?thesis by (simp add: hex_value_def)
qed

lemma length_hex_digits: "n < 16 ^ Suc k \<Longrightarrow> length (hex_digits n) \<le> Suc k"
proof (induction k arbitrary: n)
  case 0
  then show ?case by (simp add: hex_digits_unfold [of n])
next
  case (Suc k)
  then have "n div 16 < 16 ^ Suc k" by (simp add: less_mult_imp_div_less)
  with Suc.IH [of "n div 16"] show ?case by (simp add: hex_digits_unfold [of n])
qed

lemma hex_digits_alphabet: "set (hex_digits n) \<subseteq> set hex_alphabet"
proof (induction n rule: hex_digits.induct)
  case (1 n)
  have "m < 16 \<Longrightarrow> hex_alphabet ! m \<in> set hex_alphabet" for m
    by (rule nth_mem) (simp add: hex_alphabet_def)
  with 1 show ?case by (auto simp: hex_digits_unfold [of n])
qed

lemma length_hex_word: "length (hex_word d) = 8"
proof -
  have "unat d < 2 ^ LENGTH(32)" by (rule unsigned_less)
  then have "unat d < 16 ^ Suc 7" by simp
  from length_hex_digits [OF this] show ?thesis by (simp add: hex_word_def Let_def)
qed

lemma hex_word_inj: "hex_word a = hex_word b \<Longrightarrow> a = b"
  using hex_value_zeros hex_value_digits unfolding hex_word_def Let_def
  by (metis word_unat_eq_iff)

lemma hex_word_alphabet: "set (hex_word d) \<subseteq> set hex_alphabet"
  using hex_digits_alphabet [of "unat d"]
  by (auto simp: hex_word_def Let_def hex_alphabet_def)

lemma length_GenerateToken: "length (GenerateToken data) = 8 * length data"
  by (induction data) (simp_all add: GenerateToken_def length_hex_word)

lemma GenerateToken_inj:
  "length xs = length ys \<Longrightarrow> GenerateToken xs = GenerateToken ys \<Longrightarrow> xs = ys"
proof (induction xs ys rule: list_induct2)
  case Nil
  then show ?case by simp
next
  case (Cons x xs y ys)
  then have "hex_word x = hex_word y \<and> GenerateToken xs = GenerateToken ys"
    by (simp add: GenerateToken_def length_hex_word append_eq_append_conv)
  with Cons show ?case by (auto dest: hex_word_inj)
qed

section \<open>The token loop\<close>

lemma set_param_tick: "set_param n i v ps c = (r, c') \<Longrightarrow> cn_tick c \<le> cn_tick c'"
  by (auto simp: set_param_def bindM_def throwM_def returnM_def db_step_def Let_def
      split: if_splits option.splits prod.splits sum.splits)

lemma bindParam_tick: "bindParam n i a ps c = (r, c') \<Longrightarrow> cn_tick c \<le> cn_tick c'"
  by (cases a) (auto simp: returnM_def dest: set_param_tick)

lemma bindParams_tick: "bindParams n i args ps c = (r, c') \<Longrightarrow> cn_tick c \<le> cn_tick c'"
proof (induction args arbitrary: i ps c)
  case Nil
  then show ?case by (simp add: returnM_def)
next
  case (Cons a args)
  obtain r1 c1 where b: "bindParam n i a ps c = (r1, c1)" by force
  from Cons b bindParam_tick [OF b] show ?case
    by (auto simp: bindM_def split: sum.splits dest!: Cons.IH)
qed

lemma executeUpdate_tick:
  assumes "executeUpdate q args c = (r, c')"
  shows "cn_tick c < cn_tick c'"
proof -
  obtain r1 c1 where s: "prepare_and_bind (fst q) args c = (r1, c1)" by force
  have "cn_tick c < cn_tick c1"
    using s by (auto simp: prepare_and_bind_def bindM_def db_step_def Let_def
        split: option.splits prod.splits sum.splits dest!: bindParams_tick)
  moreover have "run_update q ps c1 = (r2, c2) \<Longrightarrow> cn_tick c1 \<le> cn_tick c2" for ps r2 c2
    by (auto simp: run_update_def bindM_def db_step_def Let_def apply_update_def
        split: option.splits prod.splits sum.splits)
  ultimately show ?thesis using assms s
    by (fastforce simp: executeUpdate_def bindM_def split: sum.splits)
qed

lemma well_bound_login:
  "well_bound (Query_CheckID same_text) [ArgString u]"
  "well_bound (Query_SignIn same_text) [ArgString u]"
  "well_bound Query_Signtoken [ArgInt32 a, ArgString u]"
  "well_bound Query_SignUp [ArgString u, ArgString h]"
  "well_bound (checkToken same_text) [ArgInt32 a, ArgString u]"
  by (simp_all add: well_bound_def Query_CheckID_def Query_SignIn_def Query_Signtoken_def
      Query_SignUp_def checkToken_def)

definition new_session :: "int32 \<Rightarrow> string \<Rightarrow> int \<Rightarrow> login_session" where
  "new_session acct token now =
     \<lparr>se_account_id = sint acct, se_token = token, se_expires_at = now + 1800\<rparr>"

text \<open>A connection outside a transaction, all of whose changes are committed.\<close>

definition plain :: "conn \<Rightarrow> bool" where
  "plain c \<longleftrightarrow> idle c \<and> cn_autocommit c"

lemma Signtoken_outcome:
  assumes "executeUpdate Query_Signtoken [ArgInt32 acct, ArgString token] c = (r, c')" and "plain c"
  shows "plain c' \<and> same_env c c' \<and> cn_autoinc c' = cn_autoinc c \<and>
    (case r of Inl e \<Rightarrow> cn_work c' = cn_work c
     | Inr n \<Rightarrow> n = 1 \<and> (\<exists>t. cn_work c' = (cn_work c)\<lparr>sessions := sessions (cn_work c) @
         [new_session acct token (cn_clock c t)]\<rparr>))"
  using executeUpdate_outcome [OF assms(1) well_bound_login(3)] assms(2)
  by (auto simp: plain_def idle_def same_env_def Query_Signtoken_def new_session_def apply_update_def
      ticked_def)

definition signed_in :: "(nat \<Rightarrow> uint32 list) \<Rightarrow> int32 \<Rightarrow> conn \<Rightarrow> string \<times> conn \<Rightarrow> bool" where
  "signed_in rd acct c res \<longleftrightarrow> (case res of (token, c') \<Rightarrow>
     plain c' \<and> same_env c c' \<and> cn_autoinc c' = cn_autoinc c \<and> (\<exists>j. token = GenerateToken (rd j))
     \<and> (\<exists>t. cn_work c' = (cn_work c)\<lparr>sessions := sessions (cn_work c) @
          [new_session acct token (cn_clock c t)]\<rparr>))"

lemma insert_token_outcome:
  assumes "insert_token rd acct k c = Some res" and "plain c"
  shows "signed_in rd acct c res"
proof -
  have "plain c \<longrightarrow> signed_in rd acct c res"
  proof (rule insert_token.raw_induct [OF _ assms(1),
        where P = "\<lambda>rd acct k c res. plain c \<longrightarrow> signed_in rd acct c res"])
    fix f rd acct k c res
    assume IH: "\<And>rd acct k c res. f rd acct k c = Some res \<Longrightarrow> plain c \<longrightarrow> signed_in rd acct c res"
      and step: "(case executeUpdate Query_Signtoken [ArgInt32 acct, ArgString (GenerateToken (rd k))] c of
        (Inl _, c') \<Rightarrow> f rd acct (Suc k) c'
      | (Inr successInsert, c') \<Rightarrow>
          if successInsert < 0 then f rd acct (Suc k) c'
          else Some (GenerateToken (rd k), c')) = Some res"
    obtain r c1 where run: "executeUpdate Query_Signtoken [ArgInt32 acct, ArgString (GenerateToken (rd k))] c = (r, c1)"
      by force
    show "plain c \<longrightarrow> signed_in rd acct c res"
    proof
      assume "plain c"
      note S = Signtoken_outcome [OF run this]
      show "signed_in rd acct c res"
      proof (cases r)
        case (Inl e)
        with step run have "f rd acct (Suc k) c1 = Some res" by simp
        from IH [OF this] S Inl show ?thesis by (auto simp: signed_in_def same_env_def)
      next
        case (Inr n)
        with S step run have "res = (GenerateToken (rd k), c1)" by simp
        with S Inr show ?thesis by (auto simp: signed_in_def)
      qed
    qed
  qed
  with assms(2) show ?thesis by simp
qed

lemma Signtoken_ok:
  assumes "\<forall>n \<ge> cn_tick c. \<forall>op. cn_fault c n op = None"
  shows "\<exists>n c'. executeUpdate Query_Signtoken [ArgInt32 acct, ArgString token] c = (Inr n, c')"
  using assms
  by (simp add: executeUpdate_def prepare_and_bind_def bindM_def db_step_def Let_def returnM_def
      set_param_def run_update_def bound_values_def Query_Signtoken_def upt_rec)

lemma Signtoken_faults:
  assumes "\<forall>n. cn_fault c n OpExecute \<noteq> None"
  shows "executeUpdate Query_Signtoken [ArgInt32 acct, ArgString token] c \<noteq> (Inr n, c')"
proof
  assume run: "executeUpdate Query_Signtoken [ArgInt32 acct, ArgString token] c = (Inr n, c')"
  obtain r1 c1 where s: "prepare_and_bind 2 [ArgInt32 acct, ArgString token] c = (r1, c1)" by force
  have "well_bound (2, snd Query_Signtoken) [ArgInt32 acct, ArgString token]"
    using well_bound_login(3) [of acct token] by (simp add: Query_Signtoken_def)
  from prepare_and_bind_outcome [OF s this] have f: "cn_fault c1 = cn_fault c" by (auto dest: tickedD)
  from assms obtain code where "cn_fault c (cn_tick c1) OpExecute = Some code" by blast
  with f run s show False
    by (auto simp: executeUpdate_def run_update_def bindM_def db_step_def Let_def Query_Signtoken_def
        split: sum.splits option.splits)
qed

lemma executeUpdate_fault: "executeUpdate q args c = (r, c') \<Longrightarrow> well_bound q args \<Longrightarrow> cn_fault c' = cn_fault c"
  using executeUpdate_outcome [of q args c r c'] by (auto simp: apply_update_def dest: tickedD)

lemma insert_token_ends:
  assumes "\<forall>n \<ge> N. \<forall>op. cn_fault c n op = None"
  shows "insert_token rd acct k c \<noteq> None"
  using assms
proof (induction "N - cn_tick c" arbitrary: c k rule: less_induct)
  case less
  obtain r c1 where run: "executeUpdate Query_Signtoken [ArgInt32 acct, ArgString (GenerateToken (rd k))] c = (r, c1)"
    by force
  show ?case
  proof (cases r)
    case (Inl e)
    then have "\<not> N \<le> cn_tick c" using Signtoken_ok [of c acct "GenerateToken (rd k)"] less.prems run by fastforce
    with executeUpdate_tick [OF run] have "N - cn_tick c1 < N - cn_tick c" by linarith
    moreover have "cn_fault c1 = cn_fault c" by (rule executeUpdate_fault [OF run well_bound_login(3)])
    ultimately have "insert_token rd acct (Suc k) c1 \<noteq> None" using less by simp
    with run Inl show ?thesis by (simp add: insert_token.simps [of rd acct k c])
  next
    case (Inr n)
    then have "0 \<le> n" using executeUpdate_outcome [OF run well_bound_login(3)] by auto
    with run Inr show ?thesis by (simp add: insert_token.simps [of rd acct k c])
  qed
qed

lemma insert_token_loops:
  assumes "\<forall>n. cn_fault c n OpExecute \<noteq> None"
  shows "insert_token rd acct k c = None"
proof (rule ccontr)
  assume "insert_token rd acct k c \<noteq> None"
  then obtain res where "insert_token rd acct k c = Some res" by auto
  then have "\<not> (\<forall>n. cn_fault c n OpExecute \<noteq> None)"
  proof (rule insert_token.raw_induct [rotated, where P = "\<lambda>rd acct k c res. \<not> (\<forall>n. cn_fault c n OpExecute \<noteq> None)"])
    fix f rd acct k c res
    assume IH: "\<And>rd acct k c (res :: string \<times> conn). f rd acct k c = Some res \<Longrightarrow> \<not> (\<forall>n. cn_fault c n OpExecute \<noteq> None)"
      and step: "(case executeUpdate Query_Signtoken [ArgInt32 acct, ArgString (GenerateToken (rd k))] c of
        (Inl _, c') \<Rightarrow> f rd acct (Suc k) c'
      | (Inr successInsert, c') \<Rightarrow>
          if successInsert < 0 then f rd acct (Suc k) c'
          else Some (GenerateToken (rd k), c')) = Some res"
    obtain r c1 where run: "executeUpdate Query_Signtoken [ArgInt32 acct, ArgString (GenerateToken (rd k))] c = (r, c1)"
      by force
    show "\<not> (\<forall>n. cn_fault c n OpExecute \<noteq> None)"
    proof (cases r)
      case (Inl e)
      with step run have "f rd acct (Suc k) c1 = Some res" by simp
      from IH [OF this] show ?thesis using executeUpdate_fault [OF run well_bound_login(3)] by simp
    next
      case (Inr n)
      with run Signtoken_faults [of c acct "GenerateToken (rd k)" n c1] show ?thesis by blast
    qed
  qed
  with assms show False by blast
qed

section \<open>Signing in\<close>

definition login_effect ::
  "(string \<Rightarrow> string \<Rightarrow> bool) \<Rightarrow> string \<Rightarrow> int32 \<Rightarrow> string \<Rightarrow> int \<Rightarrow> int \<Rightarrow> db \<Rightarrow> db" where
  "login_effect same_text uid acct token now now' d =
     d\<lparr>sessions := sessions d @ [new_session acct token now],
       accounts := map (\<lambda>a. if same_text (ac_user_id a) uid then a\<lparr>ac_last_login := Some now'\<rparr> else a)
         (accounts d)\<rparr>"

text \<open>The account a login is checked against: the first active one with the id.\<close>

definition account_of :: "(string \<Rightarrow> string \<Rightarrow> bool) \<Rightarrow> string \<Rightarrow> db \<Rightarrow> account option" where
  "account_of same_text uid d =
     List.find (\<lambda>a. ac_is_active a \<and> same_text (ac_user_id a) uid) (accounts d)"

lemma account_of_Some:
  "account_of same_text uid d = Some a
    \<Longrightarrow> a \<in> set (accounts d) \<and> ac_is_active a \<and> same_text (ac_user_id a) uid"
  by (auto simp: account_of_def find_Some_iff)

lemma find_filter: "List.find P xs = (case filter P xs of [] \<Rightarrow> None | a # _ \<Rightarrow> Some a)"
  by (induction xs) auto

lemma find_account_outcome:
  assumes "find_account same_text uid c = (r, c')"
  shows "ticked c c' \<and> (case r of Inl e \<Rightarrow> is_sql e
    | Inr res \<Rightarrow> res = (case account_of same_text uid (cn_work c) of None \<Rightarrow> (-1, [])
        | Some a \<Rightarrow> (getInt (ac_account_id a), ac_user_password a)))"
proof -
  obtain r1 c1 where q: "executeQuery (Query_CheckID same_text) [ArgString uid] c = (r1, c1)" by force
  note Q = executeQuery_outcome [OF q well_bound_login(1)]
  show ?thesis
  proof (cases r1)
    case (Inl e)
    with q assms Q show ?thesis by (auto simp: find_account_def bindM_def)
  next
    case (Inr rows)
    with Q have rows: "rows = map (\<lambda>a. (ac_account_id a, ac_user_password a))
         (filter (\<lambda>a. ac_is_active a \<and> same_text (ac_user_id a) uid) (accounts (cn_work c)))"
      by (auto simp: Query_CheckID_def)
    obtain r2 c2 where f: "db_step OpFetch c1 = (r2, c2)" by force
    have tick: "ticked c c2" using Q db_step_ticked [OF f] by (blast intro: ticked_trans)
    show ?thesis
    proof (cases r2)
      case (Inl e)
      with q f Inr assms tick db_step_Inl show ?thesis by (auto simp: find_account_def bindM_def)
    next
      case r2: (Inr x)
      with q f Inr assms have c': "c' = c2"
        and r: "r = Inr (case rows of [] \<Rightarrow> (-1, []) | (acct, hash) # _ \<Rightarrow> (getInt acct, hash))"
        by (auto simp: find_account_def bindM_def returnM_def)
      have "r = Inr (case account_of same_text uid (cn_work c) of None \<Rightarrow> (-1, [])
        | Some a \<Rightarrow> (getInt (ac_account_id a), ac_user_password a))"
        by (simp add: r rows account_of_def find_filter split: list.splits)
      with tick c' show ?thesis by simp
    qed
  qed
qed

lemma SignIn_outcome:
  assumes "executeUpdate (Query_SignIn same_text) [ArgString uid] c = (r, c')" and "plain c"
  shows "plain c' \<and> cn_autoinc c' = cn_autoinc c \<and> (case r of
      Inl e \<Rightarrow> is_sql e \<and> cn_work c' = cn_work c
    | Inr n \<Rightarrow> (\<exists>t. cn_work c' = (cn_work c)\<lparr>accounts := map (\<lambda>a. if same_text (ac_user_id a) uid
          then a\<lparr>ac_last_login := Some (cn_clock c t)\<rparr> else a) (accounts (cn_work c))\<rparr>))"
  using executeUpdate_outcome [OF assms(1) well_bound_login(2)] assms(2)
  by (auto simp: plain_def idle_def Query_SignIn_def update_rows_def apply_update_def ticked_def)

text \<open>
  What signing in does on a connection: nothing, with the reply \<open>(-1, "")\<close>; or it opens a
  session for an active account whose password was given.  An exception may leave the session
  open, when the last update fails.
\<close>

definition login_outcome ::
  "(string \<Rightarrow> string \<Rightarrow> bool) \<Rightarrow> (string \<Rightarrow> string \<Rightarrow> bool) \<Rightarrow> (nat \<Rightarrow> uint32 list) \<Rightarrow> string \<Rightarrow> string
    \<Rightarrow> (nat \<Rightarrow> int) \<Rightarrow> db \<Rightarrow> exn + int32 \<times> string \<Rightarrow> db \<Rightarrow> bool" where
  "login_outcome same_text validatePassword rd uid pw clock d r d' \<longleftrightarrow>
     (let account = (\<lambda>acct. \<exists>a. account_of same_text uid d = Some a
            \<and> validatePassword pw (ac_user_password a) \<and> acct = getInt (ac_account_id a))
      in case r of
        Inr (acct, token) \<Rightarrow>
          (acct = -1 \<and> token = [] \<and> d' = d
            \<and> (\<forall>a. account_of same_text uid d = Some a \<longrightarrow> \<not> validatePassword pw (ac_user_password a)))
          \<or> (account acct \<and> (\<exists>j. token = GenerateToken (rd j))
              \<and> (\<exists>t t'. d' = login_effect same_text uid acct token (clock t) (clock t') d))
      | Inl e \<Rightarrow> is_sql e \<and> (d' = d \<or> (\<exists>acct token t. account acct
          \<and> d' = d\<lparr>sessions := sessions d @ [new_session acct token (clock t)]\<rparr>)))"

text \<open>The end of a sign-in whose password was right: the token's session and the time of the login.\<close>

lemma session_opened:
  assumes "insert_token rd acct 0 c = Some (token, c2)" and "plain c"
    and "executeUpdate (Query_SignIn same_text) [ArgString uid] c2 = (r, c')"
    and "\<exists>a. account_of same_text uid (cn_work c) = Some a \<and> validatePassword pw (ac_user_password a)
      \<and> acct = getInt (ac_account_id a)"
  shows "plain c' \<and> cn_autoinc c' = cn_autoinc c
    \<and> login_outcome same_text validatePassword rd uid pw (cn_clock c) (cn_work c)
        (case r of Inl e \<Rightarrow> Inl e | Inr _ \<Rightarrow> Inr (acct, token)) (cn_work c')"
proof -
  from insert_token_outcome [OF assms(1,2)] obtain j t where c2: "plain c2" "cn_autoinc c2 = cn_autoinc c"
      "cn_clock c2 = cn_clock c" and tok: "token = GenerateToken (rd j)"
      and w2: "cn_work c2 = (cn_work c)\<lparr>sessions := sessions (cn_work c) @
        [new_session acct token (cn_clock c t)]\<rparr>"
    by (auto simp: signed_in_def same_env_def)
  note U = SignIn_outcome [OF assms(3) c2(1)]
  have "login_outcome same_text validatePassword rd uid pw (cn_clock c) (cn_work c)
      (case r of Inl e \<Rightarrow> Inl e | Inr _ \<Rightarrow> Inr (acct, token)) (cn_work c')"
  proof (cases r)
    case (Inl e)
    with U w2 assms(4) show ?thesis by (auto simp: login_outcome_def Let_def)
  next
    case (Inr n)
    with U obtain t' where "cn_work c' = (cn_work c2)\<lparr>accounts := map (\<lambda>a. if same_text (ac_user_id a) uid
        then a\<lparr>ac_last_login := Some (cn_clock c2 t')\<rparr> else a) (accounts (cn_work c2))\<rparr>" by auto
    then have "cn_work c' = login_effect same_text uid acct token (cn_clock c t) (cn_clock c t') (cn_work c)"
      by (simp add: login_effect_def w2 c2(3))
    with Inr assms(4) tok show ?thesis by (auto simp: login_outcome_def Let_def)
  qed
  then show ?thesis using U c2 by simp
qed

lemma sign_in_outcome:
  assumes run: "sign_in same_text validatePassword rd uid pw c = Some (r, c')"
    and p: "plain c" and empty: "\<not> validatePassword pw []"
  shows "plain c' \<and> cn_autoinc c' = cn_autoinc c
    \<and> login_outcome same_text validatePassword rd uid pw (cn_clock c) (cn_work c) r (cn_work c')"
proof -
  obtain r1 c1 where f: "find_account same_text uid c = (r1, c1)" by force
  note F = find_account_outcome [OF f]
  then have c1: "plain c1" "cn_work c1 = cn_work c" "cn_autoinc c1 = cn_autoinc c" "cn_clock c1 = cn_clock c"
    using p by (auto simp: plain_def idle_def ticked_def)
  show ?thesis
  proof (cases r1)
    case (Inl e)
    with run f F c1 show ?thesis by (auto simp: sign_in_def login_outcome_def Let_def)
  next
    case (Inr res)
    then obtain acct hash where res: "r1 = Inr (acct, hash)" by (cases res) auto
    show ?thesis
    proof (cases "validatePassword pw hash")
      case False
      with F res have "\<forall>a. account_of same_text uid (cn_work c) = Some a
          \<longrightarrow> \<not> validatePassword pw (ac_user_password a)" by auto
      with False run f res c1 show ?thesis by (auto simp: sign_in_def login_outcome_def Let_def)
    next
      case True
      with F res empty have account: "\<exists>a. account_of same_text uid (cn_work c1) = Some a
          \<and> validatePassword pw (ac_user_password a) \<and> acct = getInt (ac_account_id a)"
        by (auto simp: c1 split: option.splits)
      from run f res True obtain token c2 where i: "insert_token rd acct 0 c1 = Some (token, c2)"
        by (auto simp: sign_in_def split: option.splits)
      obtain r3 c3 where u: "executeUpdate (Query_SignIn same_text) [ArgString uid] c2 = (r3, c3)" by force
      have "c' = c3" and "r = (case r3 of Inl e \<Rightarrow> Inl e | Inr _ \<Rightarrow> Inr (acct, token))"
        using run f res True i u by (auto simp: sign_in_def split: sum.splits)
      with session_opened [where validatePassword = validatePassword and pw = pw, OF i c1(1) u account] c1
      show ?thesis by simp
    qed
  qed
qed

lemma TrySignIn_outcome:
  assumes inv: "server_inv s" and empty: "\<not> validatePassword pw []"
    and run: "TrySignIn same_text validatePassword rd create uid pw s = Some (r, s')"
  shows "server_inv s' \<and> (r = Inl ConnectionUnavailable \<and> ds_tables s' = ds_tables s
    \<or> (\<exists>i. login_outcome same_text validatePassword rd uid pw (cn_clock (ds_conns s i)) (ds_tables s) r
          (ds_tables s')))
    \<and> ds_autoinc s' = ds_autoinc s"
proof -
  have keeps: "\<forall>c a c'. idle c \<longrightarrow> cn_autocommit c
      \<longrightarrow> sign_in same_text validatePassword rd uid pw c = Some (Inr a, c') \<longrightarrow> cn_autocommit c'"
    using sign_in_outcome [where validatePassword = validatePassword and pw = pw] empty
    unfolding plain_def by blast
  note W = with_conn_opt_outcome [OF inv run [unfolded TrySignIn_def] keeps]
  then consider (unavailable) p where "r = Inl ConnectionUnavailable" "s' = s\<lparr>ds_pool := p\<rparr>"
    | (ran) i c' where "plain (open_conn i s)"
        "sign_in same_text validatePassword rd uid pw (open_conn i s) = Some (r, c')"
        "ds_tables s' = cn_committed c'" "ds_autoinc s' = cn_autoinc c'"
    unfolding plain_def by blast
  then show ?thesis
  proof cases
    case unavailable
    with W show ?thesis by simp
  next
    case ran
    from sign_in_outcome [OF ran(2,1)] empty W ran show ?thesis
      by (auto simp: plain_def idle_def)
  qed
qed

lemma login_reply:
  assumes "Handle_REQ_LOGIN same_text validatePassword rd create uid pw s = Some (Inr res, s')"
  shows "\<exists>acct token. TrySignIn same_text validatePassword rd create uid pw s
      = Some (Inr (acct, token), s') \<and> res = (True, [PKT_RES_LOGIN acct token])"
proof -
  from assms obtain r where t: "TrySignIn same_text validatePassword rd create uid pw s = Some (r, s')"
    and r: "(case r of Inl e \<Rightarrow> Inl e | Inr (player_id, token) \<Rightarrow> Inr (True, [PKT_RES_LOGIN player_id token]))
      = (Inr res :: exn + _)"
    by (auto simp: Handle_REQ_LOGIN_def)
  from r t show ?thesis by (auto split: sum.splits prod.splits)
qed

lemma login_reply_sound:
  assumes "server_inv s" and "\<not> validatePassword pw []" and "\<forall>k. length (rd k) = 8"
    and "Handle_REQ_LOGIN same_text validatePassword rd create uid pw s = Some (Inr res, s')"
  shows "server_inv s' \<and>
    (case account_of same_text uid (ds_tables s) of
       None \<Rightarrow> res = (True, [PKT_RES_LOGIN (-1) []]) \<and> ds_tables s' = ds_tables s
     | Some a \<Rightarrow>
         if validatePassword pw (ac_user_password a)
         then \<exists>token now now'. length token = 64
           \<and> res = (True, [PKT_RES_LOGIN (getInt (ac_account_id a)) token])
           \<and> ds_tables s' = login_effect same_text uid (getInt (ac_account_id a)) token now now'
                (ds_tables s)
         else res = (True, [PKT_RES_LOGIN (-1) []]) \<and> ds_tables s' = ds_tables s)"
proof -
  from assms(4) obtain acct token where
    run: "TrySignIn same_text validatePassword rd create uid pw s = Some (Inr (acct, token), s')"
    and res: "res = (True, [PKT_RES_LOGIN acct token])"
    using login_reply by blast
  note T = TrySignIn_outcome [OF assms(1,2) run]
  then obtain i where "login_outcome same_text validatePassword rd uid pw (cn_clock (ds_conns s i))
      (ds_tables s) (Inr (acct, token)) (ds_tables s')" by blast
  then consider (refused) "acct = -1" "token = []" "ds_tables s' = ds_tables s"
        "\<forall>a. account_of same_text uid (ds_tables s) = Some a \<longrightarrow> \<not> validatePassword pw (ac_user_password a)"
    | (accepted) a j t t' where "account_of same_text uid (ds_tables s) = Some a"
        "validatePassword pw (ac_user_password a)"
        "acct = getInt (ac_account_id a)" "token = GenerateToken (rd j)"
        "ds_tables s' = login_effect same_text uid acct token (cn_clock (ds_conns s i) t)
          (cn_clock (ds_conns s i) t') (ds_tables s)"
    unfolding login_outcome_def Let_def sum.case prod.case by blast
  then show ?thesis
  proof cases
    case refused
    with T res show ?thesis by (simp split: option.splits)
  next
    case accepted
    then have "length token = 64" using assms(3) length_GenerateToken [of "rd j"] by simp
    moreover have "\<exists>now now'. ds_tables s' = login_effect same_text uid acct token now now' (ds_tables s)"
      using accepted(5) by blast
    ultimately show ?thesis using T res accepted(1-3) by simp
  qed
qed

text \<open>
  C22: a client signs in exactly with an account's password.  When BCrypt refuses the given
  password for the active account of the id, or there is none, the reply is \<open>(-1, "")\<close> and no
  table changes.  Otherwise it names that account, with a token of 64 characters for which one
  session of thirty minutes was inserted; beyond it only login times change.
\<close>

theorem login_sound:
  assumes "server_inv s" and "\<not> validatePassword pw []" and "\<forall>k. length (rd k) = 8"
    and "Handle_REQ_LOGIN same_text validatePassword rd create uid pw s = Some (Inr res, s')"
  shows "server_inv s' \<and>
    (case account_of same_text uid (ds_tables s) of
       None \<Rightarrow> res = (True, [PKT_RES_LOGIN (-1) []]) \<and> ds_tables s' = ds_tables s
     | Some a \<Rightarrow>
         if validatePassword pw (ac_user_password a)
         then \<exists>token now now'. length token = 64
           \<and> res = (True, [PKT_RES_LOGIN (getInt (ac_account_id a)) token])
           \<and> ds_tables s' = login_effect same_text uid (getInt (ac_account_id a)) token now now'
                (ds_tables s)
         else res = (True, [PKT_RES_LOGIN (-1) []]) \<and> ds_tables s' = ds_tables s)"
  using assms by (rule login_reply_sound)

lemma checkToken_rows:
  assumes inv: "server_inv g"
    and run: "Handle_REQ_CHECK_TOKENVALID same_text create pkt_id token g = (Inr res, g')"
  shows "ds_tables g' = ds_tables g \<and> (\<exists>i t. res = (True, [PKT_RES_CHECK_TOKENVALID
      (\<exists>x \<in> set (sessions (ds_tables g)). se_account_id x = sint (ucast pkt_id :: int32)
         \<and> same_text (se_token x) token \<and> cn_clock (ds_conns g i) t < se_expires_at x)]))"
proof -
  let ?args = "[ArgInt32 (ucast pkt_id), ArgString token]"
  let ?body = "bindM (executeQuery (checkToken same_text) ?args) (\<lambda>rows.
      bindM (db_step OpFetch) (\<lambda>_. returnM (True, [PKT_RES_CHECK_TOKENVALID (rows \<noteq> [])])))"
  have "read_only ?body"
    by (intro read_only_bindM read_only_executeQuery well_bound_login read_only_db_step
        read_only_returnM)
  from with_conn_read_only [OF inv run [unfolded Handle_REQ_CHECK_TOKENVALID_def] this]
  obtain i c' where work: "cn_work (open_conn i g) = ds_tables g"
    and b: "?body (open_conn i g) = (Inr res, c')" and tables: "ds_tables g' = ds_tables g" by auto
  from b obtain rows c1 where q: "executeQuery (checkToken same_text) ?args (open_conn i g) = (Inr rows, c1)"
    and res: "res = (True, [PKT_RES_CHECK_TOKENVALID (rows \<noteq> [])])"
    by (auto simp: bindM_def returnM_def split: prod.splits sum.splits)
  from executeQuery_outcome [OF q well_bound_login(5)] obtain t where
    "rows = take 1 (map (\<lambda>_. ()) (filter (\<lambda>x. se_account_id x = sint (ucast pkt_id :: int32)
       \<and> same_text (se_token x) token \<and> cn_clock (ds_conns g i) t < se_expires_at x)
       (sessions (ds_tables g))))"
    by (auto simp: checkToken_def work)
  then have "(rows \<noteq> []) = (\<exists>x \<in> set (sessions (ds_tables g)). se_account_id x = sint (ucast pkt_id :: int32)
         \<and> same_text (se_token x) token \<and> cn_clock (ds_conns g i) t < se_expires_at x)"
    by (auto simp: filter_empty_conv)
  with res tables show ?thesis by blast
qed

text \<open>
  C23: from login to lobby.  The token and account id of a successful login are accepted by the
  game server's \<open>Handle_REQ_CHECK_TOKENVALID\<close>, on the tables the login left, until thirty minutes
  after the login.
\<close>

theorem login_token_accepted:
  assumes "server_inv s" and "\<not> validatePassword pw []"
    and "Handle_REQ_LOGIN same_text validatePassword rd create uid pw s
      = Some (Inr (ok, [PKT_RES_LOGIN player_id token]), s')" and "token \<noteq> []"
    and "\<forall>i t. login_time \<le> cn_clock (ds_conns s i) t"
    and "server_inv g" and "ds_tables g = ds_tables s'"
    and "\<forall>i t. cn_clock (ds_conns g i) t < login_time + 1800"
    and "\<forall>txt. same_text txt txt"
    and "Handle_REQ_CHECK_TOKENVALID same_text create' (ucast player_id) token g = (Inr res, g')"
  shows "res = (True, [PKT_RES_CHECK_TOKENVALID True])"
proof -
  from assms(3) have run: "TrySignIn same_text validatePassword rd create uid pw s
      = Some (Inr (player_id, token), s')"
    using login_reply by fastforce
  from TrySignIn_outcome [OF assms(1,2) run] assms(4) obtain i t now' where
    tables: "ds_tables s' = login_effect same_text uid player_id token (cn_clock (ds_conns s i) t) now'
      (ds_tables s)"
    by (fastforce simp: login_outcome_def Let_def)
  define now where "now = cn_clock (ds_conns s i) t"
  have row: "new_session player_id token now \<in> set (sessions (ds_tables s'))"
    by (simp add: tables login_effect_def now_def)
  have now: "login_time \<le> now" using assms(5) by (simp add: now_def)
  have "ucast (ucast player_id :: uint64) = player_id" by (simp add: bit_eq_iff bit_simps)
  with checkToken_rows [OF assms(6,10)] obtain i t where
    res: "res = (True, [PKT_RES_CHECK_TOKENVALID
      (\<exists>x \<in> set (sessions (ds_tables g)). se_account_id x = sint player_id
         \<and> same_text (se_token x) token \<and> cn_clock (ds_conns g i) t < se_expires_at x)])" by auto
  have "cn_clock (ds_conns g i) t < now + 1800" using assms(8) now by (meson add_right_mono order_less_le_trans)
  with row assms(7,9) have "\<exists>x \<in> set (sessions (ds_tables g)). se_account_id x = sint player_id
         \<and> same_text (se_token x) token \<and> cn_clock (ds_conns g i) t < se_expires_at x"
    by (intro bexI [of _ "new_session player_id token now"]) (simp_all add: new_session_def)
  with res show ?thesis by simp
qed

text \<open>
  C25: the token loop of a login ends exactly as long as the connector recovers: it returns if the
  faults end at some call, and it runs for ever, holding its connection and the server's only
  thread, if every execution of the insert fails.
\<close>

theorem token_loop_termination:
  "((\<exists>N. \<forall>n \<ge> N. \<forall>op. cn_fault c n op = None) \<longrightarrow> insert_token rd account_id k c \<noteq> None)
   \<and> ((\<forall>n. cn_fault c n OpExecute \<noteq> None) \<longrightarrow> insert_token rd account_id k c = None)"
  using insert_token_ends [of _ c rd account_id k] insert_token_loops [of c rd account_id k] by blast

text \<open>
  Tokens keep all the randomness drawn for them: from the eight 32-bit words of one call
  \<open>GenerateToken\<close> makes 64 hexadecimal digits, and different words make different tokens.
\<close>

lemma token_faithful:
  assumes "length xs = 8" and "length ys = 8"
  shows "length (GenerateToken xs) = 64 \<and> set (GenerateToken xs) \<subseteq> set ''0123456789abcdef''
    \<and> (GenerateToken xs = GenerateToken ys) = (xs = ys)"
proof -
  have "set (GenerateToken xs) \<subseteq> set hex_alphabet"
    using hex_word_alphabet by (fastforce simp: GenerateToken_def)
  moreover have "(GenerateToken xs = GenerateToken ys) = (xs = ys)"
    using GenerateToken_inj [of xs ys] assms by auto
  ultimately show ?thesis using assms by (simp add: length_GenerateToken hex_alphabet_def)
qed

section \<open>Signing up\<close>

definition new_account :: "int \<Rightarrow> string \<Rightarrow> string \<Rightarrow> int \<Rightarrow> account" where
  "new_account k uid hash now =
     \<lparr>ac_account_id = k, ac_user_id = uid, ac_user_password = hash, ac_created_at = now,
      ac_is_active = True, ac_last_login = None\<rparr>"

lemma SignUp_outcome:
  assumes "executeUpdate_GenKeys Query_SignUp [ArgString uid, ArgString hash] c = (Inr i, c')"
    and "plain c"
  shows "plain c' \<and> i = word_of_int (next_account_id (cn_autoinc c)) \<and>
    (\<exists>t. cn_work c' = (cn_work c)\<lparr>accounts := accounts (cn_work c) @
       [new_account (next_account_id (cn_autoinc c)) uid hash (cn_clock c t)]\<rparr>)
    \<and> next_account_id (cn_autoinc c') = next_account_id (cn_autoinc c) + 1"
proof -
  obtain r1 c1 where u: "executeUpdate Query_SignUp [ArgString uid, ArgString hash] c = (r1, c1)" by force
  from u assms(1) obtain n where "r1 = Inr n"
    by (cases r1) (auto simp: executeUpdate_GenKeys_def bindM_def)
  with executeUpdate_outcome [OF u well_bound_login(4)] obtain t t' where
    c1: "c1 = apply_update 1 (Some (next_account_id (cn_autoinc c)))
        ((cn_autoinc c)\<lparr>next_account_id := next_account_id (cn_autoinc c) + 1\<rparr>)
        ((cn_work c)\<lparr>accounts := accounts (cn_work c) @
           [new_account (next_account_id (cn_autoinc c)) uid hash (cn_clock c t)]\<rparr>)
        (c\<lparr>cn_tick := t'\<rparr>)"
    by (auto simp: Query_SignUp_def new_account_def)
  have i: "ticked c1 c' \<and> i = word_of_int (cn_last_id c')"
    using u assms(1) by (auto simp: executeUpdate_GenKeys_def bindM_def db_step_def Let_def
        split: sum.splits option.splits prod.splits)
  with c1 assms(2) show ?thesis
    by (auto simp: plain_def idle_def apply_update_def ticked_def)
qed

lemma join_outcome:
  assumes "server_inv s" and "Handle_REQ_JOIN generateHash create uid pw s = (Inr res, s')"
  shows "server_inv s' \<and> (\<exists>now. ds_tables s' = (ds_tables s)\<lparr>accounts := accounts (ds_tables s) @
        [new_account (next_account_id (ds_autoinc s)) uid (generateHash pw 12) now]\<rparr>)
    \<and> (let ok = (word_of_int (next_account_id (ds_autoinc s)) \<noteq> (-1 :: int32)) in res = (ok, [PKT_RES_JOIN ok]))
    \<and> next_account_id (ds_autoinc s') = next_account_id (ds_autoinc s) + 1"
proof -
  let ?exec = "executeUpdate_GenKeys Query_SignUp [ArgString uid, ArgString (generateHash pw 12)]"
  let ?body = "bindM ?exec (\<lambda>account_id. returnM (account_id \<noteq> -1))"
  obtain ok where run: "with_conn create ?body s = (Inr ok, s')" and res: "res = (ok, [PKT_RES_JOIN ok])"
    using assms(2)
    by (auto simp: Handle_REQ_JOIN_def TrySignUp_def bindM_def [of "with_conn _ _"] returnM_def
        split: sum.splits prod.splits)
  have body: "\<exists>i. ?exec c = (Inr i, c') \<and> a = (i \<noteq> -1)" if "?body c = (Inr a, c')" for c a c'
    using that by (auto simp: bindM_def returnM_def split: sum.splits prod.splits)
  have "keeps_autocommit ?body"
    unfolding keeps_autocommit_def using body SignUp_outcome plain_def by metis
  note W = with_conn_outcome [OF assms(1) run this]
  then obtain i c' where p: "plain (open_conn i s)" and b: "?body (open_conn i s) = (Inr ok, c')"
    and tables: "ds_tables s' = cn_committed c'" "ds_autoinc s' = cn_autoinc c'" by (auto simp: plain_def)
  from body [OF b] obtain n where n: "?exec (open_conn i s) = (Inr n, c')" "ok = (n \<noteq> -1)" by blast
  have "cn_work (open_conn i s) = ds_tables s"
    using p by (auto simp: plain_def open_conn_def Let_def)
  from SignUp_outcome [OF n(1) p] obtain t where "plain c'"
    and nxt: "next_account_id (cn_autoinc c') = next_account_id (ds_autoinc s) + 1"
    and k: "n = word_of_int (next_account_id (ds_autoinc s))"
    and work: "cn_work c' = (ds_tables s)\<lparr>accounts := accounts (ds_tables s) @
       [new_account (next_account_id (ds_autoinc s)) uid (generateHash pw 12) (cn_clock (open_conn i s) t)]\<rparr>"
    using \<open>cn_work (open_conn i s) = ds_tables s\<close> by (auto simp: open_conn_def Let_def)
  have "ds_tables s' = cn_work c'" using \<open>plain c'\<close> tables(1) by (simp add: plain_def idle_def)
  with work have "\<exists>now. ds_tables s' = (ds_tables s)\<lparr>accounts := accounts (ds_tables s) @
        [new_account (next_account_id (ds_autoinc s)) uid (generateHash pw 12) now]\<rparr>" by auto
  with W show ?thesis by (simp add: res n(2) k tables(2) nxt)
qed

text \<open>
  C24: joining makes the account a login finds.  A join that replies inserted one active account
  with the next id and the BCrypt hash, at cost 12, of the given password, and the reply is positive
  unless that id is \<open>-1\<close> as an \<open>int\<close>; and if no active account had the id, a login with a password BCrypt
  accepts for the hash then gets that account's number and a token.
\<close>

theorem join_then_login:
  assumes "server_inv s" and "Handle_REQ_JOIN generateHash create uid pw s = (Inr res, s1)"
    and "account_of same_text uid (ds_tables s) = None" and "same_text uid uid"
    and "validatePassword pw (generateHash pw 12)" and "\<not> validatePassword pw []"
    and "\<forall>k. length (rd k) = 8" and "server_inv s2" and "ds_tables s2 = ds_tables s1"
    and "Handle_REQ_LOGIN same_text validatePassword rd create' uid pw s2 = Some (Inr res', s3)"
    and k: "k = next_account_id (ds_autoinc s)"
  shows "\<exists>now token. ds_tables s1 = (ds_tables s)\<lparr>accounts := accounts (ds_tables s) @
        [new_account k uid (generateHash pw 12) now]\<rparr>
    \<and> res = (word_of_int k \<noteq> (-1 :: int32), [PKT_RES_JOIN (word_of_int k \<noteq> (-1 :: int32))])
    \<and> length token = 64 \<and> res' = (True, [PKT_RES_LOGIN (getInt k) token])"
proof -
  from join_outcome [OF assms(1,2)] obtain now where
    tables: "ds_tables s1 = (ds_tables s)\<lparr>accounts := accounts (ds_tables s) @
        [new_account k uid (generateHash pw 12) now]\<rparr>"
    and res: "res = (word_of_int k \<noteq> (-1 :: int32), [PKT_RES_JOIN (word_of_int k \<noteq> (-1 :: int32))])"
    unfolding k Let_def by blast
  have "account_of same_text uid (ds_tables s2) = Some (new_account k uid (generateHash pw 12) now)"
    using assms(3,4)
    by (simp add: assms(9) tables account_of_def find_filter new_account_def split: list.splits)
  with login_reply_sound [OF assms(8,6,7,10)] assms(5)
  have "\<exists>token. length token = 64 \<and> res' = (True, [PKT_RES_LOGIN (getInt k) token])"
    by (auto simp: new_account_def)
  with tables res show ?thesis by blast
qed

section \<open>Witnesses\<close>

text \<open>One account; BCrypt and the random device by simple functions.\<close>

definition demo_accounts :: db where
  "demo_accounts = empty_db\<lparr>accounts := [\<lparr>ac_account_id = 7, ac_user_id = ''kim'',
     ac_user_password = ''hash:pw'', ac_created_at = 0, ac_is_active = True, ac_last_login = None\<rparr>]\<rparr>"

definition demo_validate :: "string \<Rightarrow> string \<Rightarrow> bool" where
  "demo_validate pw hash \<longleftrightarrow> hash = ''hash:'' @ pw"

definition demo_rd :: "nat \<Rightarrow> uint32 list" where
  "demo_rd k = map (\<lambda>i. word_of_nat (8 * k + i)) [0..<8]"

definition login_demo :: "(nat \<Rightarrow> dbop \<Rightarrow> int option) \<Rightarrow> db_server" where
  "login_demo fault = (lobby_demo fault)\<lparr>ds_tables := demo_accounts\<rparr>"

text \<open>The first insert of a token fails.\<close>

definition duplicate_token :: "nat \<Rightarrow> dbop \<Rightarrow> int option" where
  "duplicate_token n op = (if n = 9 then Some 1062 else None)"

definition login_run :: "((exn + bool \<times> login_packet list) \<times> db_server) option" where
  "login_run = Handle_REQ_LOGIN (=) demo_validate demo_rd (\<lambda>_. None) ''kim'' ''pw'' (login_demo duplicate_token)"

lemma login_demo_inv: "server_inv (login_demo fault)"
  by (simp add: login_demo_def lobby_demo_def server_inv_def pool_inv_def)

lemma demo_rd_length: "length (demo_rd k) = 8"
  by (simp add: demo_rd_def)

declare insert_token.simps [code]

lemma login_run_reply:
  "\<exists>s'. login_run = Some (Inr (True, [PKT_RES_LOGIN 7 (GenerateToken (demo_rd 1))]), s')"
proof -
  have "map_option fst login_run = Some (Inr (True, [PKT_RES_LOGIN 7 (GenerateToken (demo_rd 1))]))"
    by code_simp
  then show ?thesis by (auto simp: map_option_case split: option.splits)
qed

theorem login_sound_witness:
  "\<exists>s' now now'. login_run = Some (Inr (True, [PKT_RES_LOGIN 7 (GenerateToken (demo_rd 1))]), s')
     \<and> ds_tables s' = login_effect (=) ''kim'' 7 (GenerateToken (demo_rd 1)) now now' demo_accounts"
proof -
  from login_run_reply obtain s' where
    run: "login_run = Some (Inr (True, [PKT_RES_LOGIN 7 (GenerateToken (demo_rd 1))]), s')" by blast
  have "\<not> demo_validate ''pw'' []" by (simp add: demo_validate_def)
  note L = login_sound [OF login_demo_inv this _ run [unfolded login_run_def], THEN conjunct2]
  have "account_of (=) ''kim'' (ds_tables (login_demo duplicate_token)) = Some (hd (accounts demo_accounts))"
    and "demo_validate ''pw'' (ac_user_password (hd (accounts demo_accounts)))"
    by (simp_all add: login_demo_def account_of_def demo_accounts_def empty_db_def demo_validate_def)
  with L demo_rd_length obtain now now' where
    "ds_tables s' = login_effect (=) ''kim'' 7 (GenerateToken (demo_rd 1)) now now'
       (ds_tables (login_demo duplicate_token))"
    by (auto simp del: One_nat_def)
  with run show ?thesis by (auto simp: login_demo_def simp del: One_nat_def)
qed

theorem token_loop_termination_witness:
  "insert_token demo_rd 7 0 (ds_conns (login_demo (\<lambda>_ _. Some 1062)) 0) = None
   \<and> insert_token demo_rd 7 0 (ds_conns (login_demo duplicate_token) 0) \<noteq> None"
proof -
  have "\<forall>n. cn_fault (ds_conns (login_demo (\<lambda>_ _. Some 1062)) 0) n OpExecute \<noteq> None"
    by (simp add: login_demo_def lobby_demo_def)
  moreover have "\<forall>n \<ge> 10. \<forall>op. cn_fault (ds_conns (login_demo duplicate_token) 0) n op = None"
    by (simp add: login_demo_def lobby_demo_def duplicate_token_def)
  ultimately show ?thesis
    using token_loop_termination [of "ds_conns (login_demo (\<lambda>_ _. Some 1062)) 0" demo_rd 7 0]
      token_loop_termination [of "ds_conns (login_demo duplicate_token) 0" demo_rd 7 0] by blast
qed

lemma token_faithful_witness:
  "length (GenerateToken (demo_rd 0)) = 64 \<and> GenerateToken (demo_rd 0) \<noteq> GenerateToken (demo_rd 1)"
proof -
  have "demo_rd 0 ! 0 \<noteq> demo_rd 1 ! 0" by (simp add: demo_rd_def)
  then have "demo_rd 0 \<noteq> demo_rd 1" by metis
  with token_faithful [OF demo_rd_length demo_rd_length, of 0 1] show ?thesis by simp
qed

text \<open>The game server reads the tables the login left, a thousand seconds later.\<close>

definition game_demo :: "db \<Rightarrow> db_server" where
  "game_demo d = (lobby_demo (\<lambda>_ _. None))\<lparr>ds_tables := d,
     ds_conns := \<lambda>i. (ds_conns (lobby_demo (\<lambda>_ _. None)) i)\<lparr>cn_clock := \<lambda>_. 1000\<rparr>\<rparr>"

theorem login_token_accepted_witness:
  "\<exists>s' g'. login_run = Some (Inr (True, [PKT_RES_LOGIN 7 (GenerateToken (demo_rd 1))]), s')
     \<and> Handle_REQ_CHECK_TOKENVALID (=) (\<lambda>_. None) 7 (GenerateToken (demo_rd 1)) (game_demo (ds_tables s'))
       = (Inr (True, [PKT_RES_CHECK_TOKENVALID True]), g')"
proof -
  from login_run_reply obtain s' where
    run: "login_run = Some (Inr (True, [PKT_RES_LOGIN 7 (GenerateToken (demo_rd 1))]), s')" by blast
  have no: "\<not> demo_validate ''pw'' []" by (simp add: demo_validate_def)
  have tok: "GenerateToken (demo_rd 1) \<noteq> []" using length_GenerateToken [of "demo_rd 1"] demo_rd_length by force
  have inv: "server_inv (game_demo d)" for d
    by (simp add: game_demo_def lobby_demo_def server_inv_def pool_inv_def)
  let ?check = "Handle_REQ_CHECK_TOKENVALID (=) (\<lambda>_. None) (ucast (7 :: int32)) (GenerateToken (demo_rd 1))
    (game_demo (ds_tables s'))"
  obtain res g' where check: "?check = (res, g')" by force
  have "\<not> isl (fst ?check)"
    by (simp add: Handle_REQ_CHECK_TOKENVALID_def with_conn_def finish_conn_def borrow_def game_demo_def
        lobby_demo_def executeQuery_def prepare_and_bind_def bindM_def db_step_def returnM_def
        set_param_def run_query_def bound_values_def checkToken_def open_conn_def lend_def
        insert_borrowed_def Let_def upt_rec)
  with check obtain reply where reply: "res = Inr reply" by (cases res) auto
  have "reply = (True, [PKT_RES_CHECK_TOKENVALID True])"
    by (rule login_token_accepted [OF login_demo_inv no run [unfolded login_run_def] tok _ inv, where
          login_time = 0 and g' = g' and create' = "\<lambda>_. None"])
      (use check reply in \<open>auto simp: login_demo_def lobby_demo_def game_demo_def\<close>)
  with check reply run show ?thesis by auto
qed


text \<open>Joining on an empty database, and logging in.\<close>

definition join_run :: "(exn + bool \<times> login_packet list) \<times> db_server" where
  "join_run = Handle_REQ_JOIN (\<lambda>pw cost. ''hash:'' @ pw) (\<lambda>_. None) ''lee'' ''pw'' (lobby_demo (\<lambda>_ _. None))"

definition join_login_run :: "((exn + bool \<times> login_packet list) \<times> db_server) option" where
  "join_login_run = Handle_REQ_LOGIN (=) demo_validate demo_rd (\<lambda>_. None) ''lee'' ''pw'' (snd join_run)"

theorem join_then_login_witness:
  "\<exists>s1 s3 token. join_run = (Inr (True, [PKT_RES_JOIN True]), s1)
     \<and> join_login_run = Some (Inr (True, [PKT_RES_LOGIN 1 token]), s3) \<and> length token = 64"
proof -
  have "fst join_run = Inr (True, [PKT_RES_JOIN True])" by code_simp
  then obtain s1 where join: "join_run = (Inr (True, [PKT_RES_JOIN True]), s1)" by (metis prod.collapse)
  have "case join_login_run of Some (Inr _, _) \<Rightarrow> True | _ \<Rightarrow> False" by code_simp
  then obtain res s3 where login: "join_login_run = Some (Inr res, s3)"
    by (auto split: option.splits sum.splits)
  have inv: "server_inv (lobby_demo (\<lambda>_ _. None))"
    by (simp add: lobby_demo_def server_inv_def pool_inv_def)
  have none: "account_of (=) ''lee'' (ds_tables (lobby_demo (\<lambda>_ _. None))) = None"
    by (simp add: lobby_demo_def account_of_def empty_db_def)
  have first: "1 = next_account_id (ds_autoinc (lobby_demo (\<lambda>_ _. None)))"
    by (simp add: lobby_demo_def first_keys_def)
  have "server_inv s1" using join_outcome [OF inv join [unfolded join_run_def]] by blast
  from join_then_login [OF inv join [unfolded join_run_def] none refl _ _ _ this refl
      login [unfolded join_login_run_def, simplified join snd_conv] first, of]
  have "\<exists>token. length token = 64 \<and> res = (True, [PKT_RES_LOGIN (getInt 1) token])"
    by (auto simp: demo_validate_def demo_rd_length)
  with join login show ?thesis by (auto simp: getInt_def)
qed

end
