(* ===== verification/Rooms.thy ===== *)
theory Rooms
  imports Messages "HOL-Library.AList" "HOL-Library.Multiset"
begin

text \<open>
  The two room classes, \<^verbatim>\<open>GameServer/GameRoom.cpp\<close> and \<^verbatim>\<open>ChatServer/ChatRoom.cpp\<close>, with the
  handlers that drive them.  The classes repeat each other; what they share is written once,
  over the packets they send.

  A member object is a number: it lives as long as the room's map or its session's \<open>player\<close>
  pointer holds it, and it points back to its session weakly.  \<open>rw_alive\<close> are the session
  objects that still exist.  A packet sent is a session and a packet, in order.  The order of
  the unordered map is the order of the association list, and nothing proved depends on it.
\<close>

section \<open>State\<close>

record member =
  mb_player_id :: uint64
  mb_name :: string
  mb_session :: "nat option"
  mb_in_room :: bool

record 'pkt room_world =
  rw_members :: "(uint64 \<times> nat) list"
  rw_heap :: "nat \<Rightarrow> member option"
  rw_player :: "nat \<Rightarrow> nat option"
  rw_alive :: "nat \<Rightarrow> bool"
  rw_sent :: "(nat \<times> 'pkt) list"
  rw_next :: nat

definition room_init :: "(nat \<Rightarrow> bool) \<Rightarrow> 'pkt room_world" where
  "room_init alive = \<lparr>rw_members = [], rw_heap = Map.empty, rw_player = Map.empty, rw_alive = alive,
     rw_sent = [], rw_next = 0\<rparr>"

text \<open>\<open>session.lock()\<close> of a member.\<close>

definition lock_session :: "nat \<Rightarrow> 'pkt room_world \<Rightarrow> nat option" where
  "lock_session m w = (case rw_heap w m of None \<Rightarrow> None
     | Some mb \<Rightarrow> (case mb_session mb of None \<Rightarrow> None | Some s \<Rightarrow> if rw_alive w s then Some s else None))"

definition send_member :: "nat \<Rightarrow> 'pkt \<Rightarrow> 'pkt room_world \<Rightarrow> 'pkt room_world" where
  "send_member m pkt w = (case lock_session m w of None \<Rightarrow> w
     | Some s \<Rightarrow> w\<lparr>rw_sent := rw_sent w @ [(s, pkt)]\<rparr>)"

definition upd_member :: "nat \<Rightarrow> (member \<Rightarrow> member) \<Rightarrow> 'pkt room_world \<Rightarrow> 'pkt room_world" where
  "upd_member m f w = w\<lparr>rw_heap := (rw_heap w)(m := map_option f (rw_heap w m))\<rparr>"

definition player_id_of :: "nat \<Rightarrow> 'pkt room_world \<Rightarrow> uint64" where
  "player_id_of m w = (case rw_heap w m of None \<Rightarrow> 0 | Some mb \<Rightarrow> mb_player_id mb)"

section \<open>The room\<close>

definition EnterPlayer :: "nat \<Rightarrow> 'pkt room_world \<Rightarrow> bool \<times> 'pkt room_world" where
  "EnterPlayer player w =
     (let pid = player_id_of player w in
      if map_of (rw_members w) pid \<noteq> None then (False, w)
      else (True, upd_member player (mb_in_room_update (\<lambda>_. True))
              (w\<lparr>rw_members := AList.update pid player (rw_members w)\<rparr>)))"

text \<open>
  After \<open>player->room.store({})\<close> the loaded pointer is empty, so \<open>expired()\<close> holds.  The key of
  the map is 64 bits wide: the \<open>int32\<close> argument is sign-extended.
\<close>

definition LeavePlayer :: "(bool \<Rightarrow> 'pkt) \<Rightarrow> int32 \<Rightarrow> 'pkt room_world \<Rightarrow> bool \<times> 'pkt room_world" where
  "LeavePlayer leavePkt player_id w =
     (case map_of (rw_members w) (scast player_id) of
        None \<Rightarrow> (False, w)
      | Some player \<Rightarrow>
          (let w1 = upd_member player (mb_in_room_update (\<lambda>_. False)) w;
               success = True;
               w2 = send_member player (leavePkt success) w1
           in (success, upd_member player (mb_session_update (\<lambda>_. None))
                 (w2\<lparr>rw_members := AList.delete (scast player_id) (rw_members w2)\<rparr>))))"

definition HandleEnterPlayerLocked :: "(bool \<Rightarrow> 'pkt) \<Rightarrow> nat \<Rightarrow> 'pkt room_world \<Rightarrow> bool \<times> 'pkt room_world" where
  "HandleEnterPlayerLocked enterPkt player w =
     (let (success, w1) = EnterPlayer player w in (success, send_member player (enterPkt success) w1))"

definition HandleLeavePlayerLocked :: "(bool \<Rightarrow> 'pkt) \<Rightarrow> int32 \<Rightarrow> 'pkt room_world \<Rightarrow> bool \<times> 'pkt room_world" where
  "HandleLeavePlayerLocked leavePkt player_id w = LeavePlayer leavePkt player_id w"

definition Broadcast :: "'pkt \<Rightarrow> 'pkt room_world \<Rightarrow> 'pkt room_world" where
  "Broadcast pkt w = fold (\<lambda>(pid, player). send_member player pkt) (rw_members w) w"

text \<open>The body of the loop of \<open>GameRoom::Broadcast\<close> is commented out: it sends nothing.\<close>

definition GameRoom_Broadcast :: "'pkt \<Rightarrow> 'pkt room_world \<Rightarrow> 'pkt room_world" where
  "GameRoom_Broadcast pkt w = fold (\<lambda>(pid, player) w. w) (rw_members w) w"

lemma GameRoom_Broadcast_nothing: "GameRoom_Broadcast pkt w = w"
proof -
  have "fold (\<lambda>(pid, player) w. w) ms w = w" for ms :: "(uint64 \<times> nat) list"
    by (induction ms) auto
  then show ?thesis by (simp add: GameRoom_Broadcast_def)
qed

section \<open>The handlers\<close>

text \<open>A new member object for a session, which the session's \<open>player\<close> pointer holds.\<close>

definition new_player :: "uint64 \<Rightarrow> string \<Rightarrow> nat \<Rightarrow> 'pkt room_world \<Rightarrow> nat \<times> 'pkt room_world" where
  "new_player pid name session w =
     (let m = rw_next w in
      (m, w\<lparr>rw_next := Suc m,
        rw_heap := (rw_heap w)(m \<mapsto> \<lparr>mb_player_id = pid, mb_name = name, mb_session = Some session, mb_in_room = False\<rparr>),
        rw_player := (rw_player w)(session \<mapsto> m)\<rparr>))"

definition Handle_REQ_ENTER_GAME :: "nat \<Rightarrow> int32 \<Rightarrow> string \<Rightarrow> game_packet room_world \<Rightarrow> bool \<times> game_packet room_world" where
  "Handle_REQ_ENTER_GAME session player_id name w =
     (let (player, w1) = new_player (scast player_id) name session w
      in (True, snd (HandleEnterPlayerLocked PKT_RES_ENTER_GAME player w1)))"

definition Handle_REQ_LEAVE_GAME :: "nat \<Rightarrow> int32 \<Rightarrow> game_packet room_world \<Rightarrow> bool \<times> game_packet room_world" where
  "Handle_REQ_LEAVE_GAME session player_id w =
     (True, snd (HandleLeavePlayerLocked PKT_RES_LEAVE_GAME player_id (w\<lparr>rw_player := (rw_player w)(session := None)\<rparr>)))"

text \<open>\<^verbatim>\<open>ChatRoom.cpp\<close> repeats \<^verbatim>\<open>GameRoom.cpp\<close> with the chat packets.\<close>

definition ChatRoom_EnterPlayer :: "nat \<Rightarrow> chat_packet room_world \<Rightarrow> bool \<times> chat_packet room_world" where
  [simp]: "ChatRoom_EnterPlayer = EnterPlayer"

definition ChatRoom_LeavePlayer :: "int32 \<Rightarrow> chat_packet room_world \<Rightarrow> bool \<times> chat_packet room_world" where
  [simp]: "ChatRoom_LeavePlayer = LeavePlayer PKT_RES_LEAVE_CHATROOM"

definition ChatRoom_HandleEnterPlayerLocked :: "nat \<Rightarrow> chat_packet room_world \<Rightarrow> bool \<times> chat_packet room_world" where
  "ChatRoom_HandleEnterPlayerLocked player w =
     (let (success, w1) = ChatRoom_EnterPlayer player w
      in (success, send_member player (PKT_RES_ENTER_CHATROOM success) w1))"

definition ChatRoom_HandleLeavePlayerLocked :: "int32 \<Rightarrow> chat_packet room_world \<Rightarrow> bool \<times> chat_packet room_world" where
  "ChatRoom_HandleLeavePlayerLocked player_id w = ChatRoom_LeavePlayer player_id w"

lemma ChatRoom_locked [simp]:
  "ChatRoom_HandleEnterPlayerLocked = HandleEnterPlayerLocked PKT_RES_ENTER_CHATROOM"
  "ChatRoom_HandleLeavePlayerLocked = HandleLeavePlayerLocked PKT_RES_LEAVE_CHATROOM"
  by (simp_all add: fun_eq_iff ChatRoom_HandleEnterPlayerLocked_def HandleEnterPlayerLocked_def
      ChatRoom_HandleLeavePlayerLocked_def HandleLeavePlayerLocked_def)

definition Handle_REQ_ENTER_CHATROOM :: "nat \<Rightarrow> int32 \<Rightarrow> string \<Rightarrow> chat_packet room_world \<Rightarrow> bool \<times> chat_packet room_world" where
  "Handle_REQ_ENTER_CHATROOM session player_id name w =
     (let (player, w1) = new_player (scast player_id) name session w
      in (True, snd (ChatRoom_HandleEnterPlayerLocked player w1)))"

definition Handle_REQ_LEAVE_CHATROOM :: "nat \<Rightarrow> int32 \<Rightarrow> chat_packet room_world \<Rightarrow> bool \<times> chat_packet room_world" where
  "Handle_REQ_LEAVE_CHATROOM session player_id w =
     (True, snd (ChatRoom_HandleLeavePlayerLocked player_id (w\<lparr>rw_player := (rw_player w)(session := None)\<rparr>)))"

definition Handle_REQ_CHAT :: "nat \<Rightarrow> REQ_CHAT \<Rightarrow> chat_packet room_world \<Rightarrow> bool \<times> chat_packet room_world" where
  "Handle_REQ_CHAT session pkt w = (True, Broadcast (PKT_RES_CHAT pkt) w)"

text \<open>A session closes: nothing tells the room.\<close>

definition disconnect :: "nat \<Rightarrow> 'pkt room_world \<Rightarrow> 'pkt room_world" where
  "disconnect session w = w\<lparr>rw_alive := (rw_alive w)(session := False), rw_player := (rw_player w)(session := None)\<rparr>"

section \<open>Invariant\<close>

text \<open>
  Every entry of the map is a live member object under its own id that believes it is in the
  room, and no other object believes so.
\<close>

definition room_inv :: "'pkt room_world \<Rightarrow> bool" where
  "room_inv w \<longleftrightarrow> distinct (map fst (rw_members w))
     \<and> (\<forall>pid m. map_of (rw_members w) pid = Some m \<longleftrightarrow>
          (\<exists>mb. rw_heap w m = Some mb \<and> mb_in_room mb \<and> mb_player_id mb = pid))
     \<and> (\<forall>m mb. rw_heap w m = Some mb \<longrightarrow> m < rw_next w)"

lemma room_inv_init: "room_inv (room_init alive)"
  by (simp add: room_inv_def room_init_def)

lemma send_member_fields [simp]:
  "rw_members (send_member m p w) = rw_members w" "rw_heap (send_member m p w) = rw_heap w"
  "rw_player (send_member m p w) = rw_player w" "rw_alive (send_member m p w) = rw_alive w"
  "rw_next (send_member m p w) = rw_next w"
  by (simp_all add: send_member_def split: option.splits)

lemma upd_member_fields [simp]:
  "rw_members (upd_member m f w) = rw_members w" "rw_player (upd_member m f w) = rw_player w"
  "rw_alive (upd_member m f w) = rw_alive w" "rw_next (upd_member m f w) = rw_next w"
  "rw_sent (upd_member m f w) = rw_sent w"
  "rw_heap (upd_member m f w) = (rw_heap w)(m := map_option f (rw_heap w m))"
  by (simp_all add: upd_member_def)

lemma room_inv_same:
  "rw_members w' = rw_members w \<Longrightarrow> rw_heap w' = rw_heap w \<Longrightarrow> rw_next w' = rw_next w \<Longrightarrow> room_inv w' = room_inv w"
  by (simp add: room_inv_def)

lemma room_inv_new_player: "room_inv w \<Longrightarrow> room_inv (snd (new_player pid name session w))"
  by (fastforce simp: room_inv_def new_player_def Let_def)

lemma room_inv_enter:
  assumes inv: "room_inv w" and mb: "rw_heap w m = Some mb" "\<not> mb_in_room mb"
  shows "room_inv (snd (EnterPlayer m w))"
proof (cases "map_of (rw_members w) (mb_player_id mb) = None")
  case False
  then show ?thesis using inv mb by (simp add: EnterPlayer_def player_id_of_def Let_def)
next
  case True
  let ?w = "snd (EnterPlayer m w)"
  have w: "rw_members ?w = AList.update (mb_player_id mb) m (rw_members w)"
    "rw_heap ?w = (rw_heap w)(m \<mapsto> mb\<lparr>mb_in_room := True\<rparr>)" "rw_next ?w = rw_next w"
    using True mb by (simp_all add: EnterPlayer_def player_id_of_def Let_def)
  have old: "map_of (rw_members w) pid = Some o' \<longleftrightarrow>
      (\<exists>b. rw_heap w o' = Some b \<and> mb_in_room b \<and> mb_player_id b = pid)" for pid o'
    using inv by (simp add: room_inv_def)
  have "map_of (rw_members ?w) pid = Some o' \<longleftrightarrow>
      (\<exists>b. rw_heap ?w o' = Some b \<and> mb_in_room b \<and> mb_player_id b = pid)" for pid o'
    using old [of pid o'] old [of "mb_player_id mb" o'] True mb by (auto simp: w update_conv')
  moreover have "distinct (map fst (rw_members ?w))"
    using inv by (simp add: w distinct_update room_inv_def)
  moreover have "\<forall>o' b. rw_heap ?w o' = Some b \<longrightarrow> o' < rw_next ?w"
    using inv mb by (auto simp: w room_inv_def)
  ultimately show ?thesis by (simp add: room_inv_def)
qed

lemma room_inv_leave:
  assumes inv: "room_inv w"
  shows "room_inv (snd (LeavePlayer leavePkt pid w))"
proof (cases "map_of (rw_members w) (scast pid)")
  case None
  then show ?thesis using inv by (simp add: LeavePlayer_def)
next
  case (Some m)
  let ?w = "snd (LeavePlayer leavePkt pid w)"
  have old: "map_of (rw_members w) q = Some o' \<longleftrightarrow>
      (\<exists>b. rw_heap w o' = Some b \<and> mb_in_room b \<and> mb_player_id b = q)" for q o'
    using inv by (simp add: room_inv_def)
  from old [of "scast pid" m] Some obtain mb where
    mb: "rw_heap w m = Some mb" "mb_in_room mb" "mb_player_id mb = scast pid" by auto
  have w: "rw_members ?w = AList.delete (scast pid) (rw_members w)"
    "rw_heap ?w = (rw_heap w)(m \<mapsto> mb\<lparr>mb_in_room := False, mb_session := None\<rparr>)" "rw_next ?w = rw_next w"
    using Some mb by (simp_all add: LeavePlayer_def Let_def)
  have "map_of (rw_members ?w) q = Some o' \<longleftrightarrow>
      (\<exists>b. rw_heap ?w o' = Some b \<and> mb_in_room b \<and> mb_player_id b = q)" for q o'
    using old [of q o'] old [of "scast pid" o'] old [of q m] Some mb
    by (auto simp: w delete_conv')
  moreover have "distinct (map fst (rw_members ?w))"
    using inv by (simp add: w distinct_delete room_inv_def)
  moreover have "\<forall>o' b. rw_heap ?w o' = Some b \<longrightarrow> o' < rw_next ?w"
    using inv mb by (auto simp: w room_inv_def)
  ultimately show ?thesis by (simp add: room_inv_def)
qed

section \<open>The interface of the two servers\<close>

datatype room_event = Enter nat int32 string | Leave nat int32 | Disconnect nat

fun room_step ::
  "(nat \<Rightarrow> int32 \<Rightarrow> string \<Rightarrow> 'pkt room_world \<Rightarrow> bool \<times> 'pkt room_world) \<Rightarrow>
   (nat \<Rightarrow> int32 \<Rightarrow> 'pkt room_world \<Rightarrow> bool \<times> 'pkt room_world) \<Rightarrow> room_event \<Rightarrow> 'pkt room_world \<Rightarrow> 'pkt room_world" where
  "room_step enter leave (Enter session pid name) w = snd (enter session pid name w)"
| "room_step enter leave (Leave session pid) w = snd (leave session pid w)"
| "room_step enter leave (Disconnect session) w = disconnect session w"

text \<open>What a room promises: a set of player ids.\<close>

fun room_spec :: "room_event \<Rightarrow> uint64 set \<Rightarrow> uint64 set" where
  "room_spec (Enter session pid name) ids = insert (scast pid) ids"
| "room_spec (Leave session pid) ids = ids - {scast pid}"
| "room_spec (Disconnect session) ids = ids"

definition room_ids :: "'pkt room_world \<Rightarrow> uint64 set" where
  "room_ids w = set (map fst (rw_members w))"

lemma room_ids_map: "pid \<in> room_ids w \<longleftrightarrow> map_of (rw_members w) pid \<noteq> None"
  by (metis room_ids_def map_of_eq_None_iff set_map)

lemma EnterPlayer_ids:
  "room_ids (snd (EnterPlayer m w)) = insert (player_id_of m w) (room_ids w)"
  "fst (EnterPlayer m w) \<longleftrightarrow> player_id_of m w \<notin> room_ids w"
  by (auto simp: EnterPlayer_def Let_def room_ids_map set_eq_iff update_conv')

lemma LeavePlayer_ids:
  "room_ids (snd (LeavePlayer pkt pid w)) = room_ids w - {scast pid}"
  by (auto simp: LeavePlayer_def Let_def room_ids_map set_eq_iff delete_conv' split: option.splits)

lemma disconnect_effect: "room_inv w \<Longrightarrow> room_inv (disconnect session w) \<and> room_ids (disconnect session w) = room_ids w"
  by (simp add: disconnect_def room_inv_def room_ids_def)

text \<open>A pair of handlers that enters and leaves a room and answers with its own packets.\<close>

locale room_handlers =
  fixes enter :: "nat \<Rightarrow> int32 \<Rightarrow> string \<Rightarrow> 'pkt room_world \<Rightarrow> bool \<times> 'pkt room_world"
    and leave :: "nat \<Rightarrow> int32 \<Rightarrow> 'pkt room_world \<Rightarrow> bool \<times> 'pkt room_world"
    and enterPkt :: "bool \<Rightarrow> 'pkt" and leavePkt :: "bool \<Rightarrow> 'pkt"
  assumes enter_eq: "enter session pid name w = (True,
      snd (HandleEnterPlayerLocked enterPkt (fst (new_player (scast pid) name session w))
             (snd (new_player (scast pid) name session w))))"
    and leave_eq: "leave session pid w = (True,
      snd (HandleLeavePlayerLocked leavePkt pid (w\<lparr>rw_player := (rw_player w)(session := None)\<rparr>)))"
begin

lemma enter_effect:
  assumes "room_inv w"
  shows "room_inv (snd (enter session pid name w))
    \<and> room_ids (snd (enter session pid name w)) = insert (scast pid) (room_ids w)
    \<and> rw_alive (snd (enter session pid name w)) = rw_alive w
    \<and> rw_sent (snd (enter session pid name w)) = rw_sent w
        @ (if rw_alive w session then [(session, enterPkt (scast pid \<notin> room_ids w))] else [])"
proof -
  obtain m w1 where new: "new_player (scast pid) name session w = (m, w1)" by force
  then have m: "rw_heap w1 m = Some \<lparr>mb_player_id = scast pid, mb_name = name, mb_session = Some session, mb_in_room = False\<rparr>"
    "rw_members w1 = rw_members w" "rw_alive w1 = rw_alive w" "rw_sent w1 = rw_sent w"
    by (auto simp: new_player_def Let_def)
  have inv1: "room_inv w1" using room_inv_new_player [OF assms, of "scast pid" name session] new by simp
  obtain ok w2 where enter: "EnterPlayer m w1 = (ok, w2)" by force
  have pid: "player_id_of m w1 = scast pid" using m by (simp add: player_id_of_def)
  have ids: "room_ids w1 = room_ids w" using m by (simp add: room_ids_def)
  have e: "ok \<longleftrightarrow> scast pid \<notin> room_ids w" "room_ids w2 = insert (scast pid) (room_ids w)"
    using EnterPlayer_ids [of m w1] by (simp_all add: enter pid ids)
  have inv2: "room_inv w2" using room_inv_enter [OF inv1 m(1)] by (simp add: enter)
  have kept: "rw_alive w2 = rw_alive w1" "rw_sent w2 = rw_sent w1" "lock_session m w2 = lock_session m w1"
    using enter m by (auto simp: EnterPlayer_def Let_def lock_session_def split: if_splits)
  have lock: "lock_session m w1 = (if rw_alive w session then Some session else None)"
    using m by (simp add: lock_session_def)
  have "snd (enter session pid name w) = send_member m (enterPkt ok) w2"
    by (simp add: enter_eq new HandleEnterPlayerLocked_def enter)
  then show ?thesis
    using inv2 e kept lock m
    by (auto simp: room_inv_def room_ids_def send_member_def split: option.splits)
qed

lemma leave_effect:
  assumes "room_inv w"
  shows "room_inv (snd (leave session pid w))
    \<and> room_ids (snd (leave session pid w)) = room_ids w - {scast pid}"
proof -
  let ?w = "w\<lparr>rw_player := (rw_player w)(session := None)\<rparr>"
  have "room_inv ?w" "room_ids ?w = room_ids w" using assms by (simp_all add: room_inv_def room_ids_def)
  then show ?thesis
    using room_inv_leave [of ?w leavePkt pid] LeavePlayer_ids [of leavePkt pid ?w]
    by (simp add: leave_eq HandleLeavePlayerLocked_def)
qed

lemma refines:
  "room_inv w \<Longrightarrow> room_inv (fold (room_step enter leave) evs w)
     \<and> room_ids (fold (room_step enter leave) evs w) = fold room_spec evs (room_ids w)"
proof (induction evs arbitrary: w)
  case Nil
  then show ?case by simp
next
  case (Cons ev evs)
  have "room_inv (room_step enter leave ev w) \<and> room_ids (room_step enter leave ev w) = room_spec ev (room_ids w)"
    by (cases ev) (simp_all add: enter_effect leave_effect disconnect_effect Cons.prems)
  with Cons.IH show ?case by simp
qed

end

interpretation game_room: room_handlers Handle_REQ_ENTER_GAME Handle_REQ_LEAVE_GAME PKT_RES_ENTER_GAME PKT_RES_LEAVE_GAME
  by unfold_locales (auto simp: Handle_REQ_ENTER_GAME_def Handle_REQ_LEAVE_GAME_def split: prod.splits)

interpretation chat_room: room_handlers Handle_REQ_ENTER_CHATROOM Handle_REQ_LEAVE_CHATROOM PKT_RES_ENTER_CHATROOM PKT_RES_LEAVE_CHATROOM
  by unfold_locales (auto simp: Handle_REQ_ENTER_CHATROOM_def Handle_REQ_LEAVE_CHATROOM_def split: prod.splits)

section \<open>Properties\<close>

lemma room_ids_init [simp]: "room_ids (room_init alive) = {}"
  by (simp add: room_ids_def room_init_def)

text \<open>
  C32: the game room is a set of player ids.  After any history of enters, leaves and
  disconnects, the room's map is consistent with its member objects (each entry is a live member
  under its own id that believes it is in the room, and no other object does), and the ids in it
  are exactly those the specification computes.
\<close>

theorem game_room_refines_set:
  "room_inv (fold (room_step Handle_REQ_ENTER_GAME Handle_REQ_LEAVE_GAME) evs (room_init alive))
   \<and> room_ids (fold (room_step Handle_REQ_ENTER_GAME Handle_REQ_LEAVE_GAME) evs (room_init alive)) = fold room_spec evs {}"
  using game_room.refines [OF room_inv_init, of evs alive] by simp

text \<open>The same for the chat room.\<close>

theorem chat_room_refines_set:
  "room_inv (fold (room_step Handle_REQ_ENTER_CHATROOM Handle_REQ_LEAVE_CHATROOM) evs (room_init alive))
   \<and> room_ids (fold (room_step Handle_REQ_ENTER_CHATROOM Handle_REQ_LEAVE_CHATROOM) evs (room_init alive)) = fold room_spec evs {}"
  using chat_room.refines [OF room_inv_init, of evs alive] by simp


text \<open>Broadcasting.\<close>

lemma Broadcast_sent:
  "rw_sent (Broadcast pkt w) = rw_sent w @ map (\<lambda>s. (s, pkt)) (List.map_filter (\<lambda>(pid, m). lock_session m w) (rw_members w))"
proof -
  have "rw_sent (fold (\<lambda>(pid, m). send_member m pkt) ms v) = rw_sent v
      @ map (\<lambda>s. (s, pkt)) (List.map_filter (\<lambda>(pid, m). lock_session m v) ms)" for ms and v :: "'a room_world"
  proof (induction ms arbitrary: v)
    case Nil
    then show ?case by (simp add: map_filter_simps)
  next
    case (Cons e ms)
    obtain pid m where e: "e = (pid, m)" by force
    have "lock_session m' (send_member m pkt v) = lock_session m' v" for m'
      by (simp add: lock_session_def cong: option.case_cong)
    with Cons.IH [of "send_member m pkt v"] e show ?case
      by (auto simp: map_filter_simps send_member_def split: option.splits)
  qed
  then show ?thesis by (simp add: Broadcast_def)
qed

definition members_of :: "nat \<Rightarrow> 'pkt room_world \<Rightarrow> nat set" where
  "members_of session w = {m. \<exists>mb. rw_heap w m = Some mb \<and> mb_in_room mb \<and> mb_session mb = Some session}"

lemma members_of_list:
  assumes inv: "room_inv w" and "rw_alive w session"
  shows "length (filter (\<lambda>(pid, m). lock_session m w = Some session) (rw_members w)) = card (members_of session w)"
proof -
  let ?ms = "filter (\<lambda>(pid, m). lock_session m w = Some session) (rw_members w)"
  have entry: "(pid, m) \<in> set (rw_members w) \<longleftrightarrow>
      (\<exists>mb. rw_heap w m = Some mb \<and> mb_in_room mb \<and> mb_player_id mb = pid)" for pid m
    using inv by (simp add: room_inv_def flip: map_of_eq_Some_iff)
  have dist: "distinct (rw_members w)" using inv by (auto simp: room_inv_def distinct_map)
  have inj: "inj_on snd (set ?ms)"
  proof (rule inj_onI)
    fix x y assume xy: "x \<in> set ?ms" "y \<in> set ?ms" "snd x = snd y"
    obtain px mx py my where e: "x = (px, mx)" "y = (py, my)" by (cases x, cases y) auto
    from xy e have "(px, mx) \<in> set (rw_members w)" "(py, mx) \<in> set (rw_members w)" by auto
    then show "x = y" using xy e entry by auto
  qed
  have lock: "lock_session m w = Some session \<longleftrightarrow>
      (\<exists>mb. rw_heap w m = Some mb \<and> mb_session mb = Some session)" for m
    using assms(2) by (auto simp: lock_session_def split: option.splits if_splits)
  have "snd ` set ?ms = {m. \<exists>pid. (pid, m) \<in> set (rw_members w) \<and> lock_session m w = Some session}"
    by force
  also have "\<dots> = members_of session w"
    by (auto simp: entry lock members_of_def)
  finally have "snd ` set ?ms = members_of session w" .
  then show ?thesis
    using card_image [OF inj] distinct_card [OF distinct_filter [OF dist], of "\<lambda>(pid, m). lock_session m w = Some session"]
    by simp
qed

text \<open>
  A chat message reaches the room, and only the room.  Broadcasting sends nothing to a dead
  session, and to every live session one copy per member object of the room that belongs to it:
  one for a player who is in the room, none for anybody else.
\<close>

lemma chat_delivery:
  assumes "room_inv w"
  shows "\<exists>new. rw_sent (snd (Handle_REQ_CHAT sender pkt w)) = rw_sent w @ new
    \<and> (\<forall>s p. count (mset new) (s, p) =
          (if p = PKT_RES_CHAT pkt \<and> rw_alive w s then card (members_of s w) else 0))"
proof -
  let ?to = "List.map_filter (\<lambda>(pid, m). lock_session m w) (rw_members w)"
  let ?new = "map (\<lambda>s. (s, PKT_RES_CHAT pkt)) ?to"
  have alive: "rw_alive w s" if "s \<in> set ?to" for s
    using that by (auto simp: map_filter_def lock_session_def split: option.splits if_splits)
  have cnt: "count (mset ?to) s = length (filter (\<lambda>(pid, m). lock_session m w = Some s) (rw_members w))" for s
  proof -
    have "count (mset (List.map_filter (\<lambda>(pid, m). lock_session m w) ms)) s
        = length (filter (\<lambda>(pid, m). lock_session m w = Some s) ms)" for ms :: "(uint64 \<times> nat) list"
      by (induction ms) (auto simp: map_filter_simps split: option.splits)
    then show ?thesis .
  qed
  have pair: "count (mset ?new) (s, p) = (if p = PKT_RES_CHAT pkt then count (mset ?to) s else 0)" for s p
  proof -
    have "count (mset (map (\<lambda>s. (s, q)) ts)) (s, p) = (if p = q then count (mset ts) s else 0)" for ts :: "nat list" and q
      by (induction ts) auto
    then show ?thesis .
  qed
  have "count (mset ?new) (s, p) = (if p = PKT_RES_CHAT pkt \<and> rw_alive w s then card (members_of s w) else 0)" for s p
  proof (cases "rw_alive w s")
    case True
    then show ?thesis using pair [of s p] cnt [of s] members_of_list [OF assms True] by simp
  next
    case False
    then have "s \<notin> set ?to" using alive by blast
    then have "count (mset ?to) s = 0" by (simp add: count_eq_zero_iff)
    with False pair [of s p] show ?thesis by simp
  qed
  then show ?thesis
    by (intro exI [of _ ?new]) (simp add: Handle_REQ_CHAT_def Broadcast_sent)
qed

section \<open>Witnesses\<close>




definition demo_chat :: "chat_packet room_world" where
  "demo_chat = fold (room_step Handle_REQ_ENTER_CHATROOM Handle_REQ_LEAVE_CHATROOM)
     [Enter 0 7 ''a'', Enter 1 8 ''b'', Leave 0 7] (room_init (\<lambda>_. True))"

lemma demo_chat_inv: "room_inv demo_chat"
  unfolding demo_chat_def using chat_room.refines [OF room_inv_init] by blast

end
