(* ===== verification/GameServer.thy ===== *)
theory GameServer
  imports GameAuction LoginSpec Rooms Codec
begin

text \<open>
  The game server as a whole: the tables of \<^verbatim>\<open>GamePacketHandler.h\<close> (client requests) and
  \<^verbatim>\<open>AuctionServerPacketHandler.h\<close> (the auction server's replies), the \<open>HandlePacket\<close> of
  \<^verbatim>\<open>GameSession.cpp\<close> and \<^verbatim>\<open>AuctionSession.cpp\<close>, over the components: the auction handlers with the
  cache and the session manager, the lobby's database handlers and the room.

  The theorems follow a purchase from the client's bytes to the auction server's worker pool, and
  its result from the auction server's bytes to the client's send queue.
\<close>

section \<open>State and parameters\<close>

record game_world =
  gw_game :: game_server
  gw_db :: db_server
  gw_room :: "game_packet room_world"

text \<open>
  The classes of the requests; the handlers of \<open>REQ_MOVE\<close> and \<open>REQ_ATTACK\<close> look at nothing of their
  messages, whose types stay open.
\<close>

record ('mv, 'at) game_requests =
  gq_auction_list :: "Game_REQ_AUCTION_LIST msg_class"
  gq_receipt_list :: "uint64 msg_class"
  gq_regist_item :: "AuctionItemInfo list msg_class"
  gq_purchase_item :: "AuctionItemInfo list msg_class"
  gq_receipt_item :: "Game_REQ_RECEIPT_ITEM msg_class"
  gq_move :: "'mv msg_class"
  gq_attack :: "'at msg_class"
  gq_check_tokenvalid :: "(uint64 \<times> string) msg_class"
  gq_character_list :: "uint64 msg_class"
  gq_check_nickname :: "string msg_class"
  gq_create_character :: "Game_REQ_CREATE_CHARACTER msg_class"
  gq_delete_character :: "(uint64 \<times> uint64) msg_class"
  gq_enter_game :: "(int32 \<times> string) msg_class"
  gq_leave_game :: "int32 msg_class"

record game_env =
  ge_now :: int
  ge_same_text :: "string \<Rightarrow> string \<Rightarrow> bool"
  ge_create :: factory
  ge_defaults :: schema_defaults

section \<open>Handlers in the process\<close>

fun on_game :: "(game_server \<Rightarrow> bool \<times> game_server) \<Rightarrow> game_world server_process \<Rightarrow> bool \<times> game_world server_process" where
  "on_game f (Up w) = (let (ok, s) = f (gw_game w) in (ok, Up (w\<lparr>gw_game := s\<rparr>)))"
| "on_game f p = (False, p)"

fun on_game_outcome ::
  "(game_server \<Rightarrow> (bool \<times> game_server) outcome) \<Rightarrow> game_world server_process \<Rightarrow> bool \<times> game_world server_process" where
  "on_game_outcome f (Up w) = (case f (gw_game w) of
       Done (ok, s) \<Rightarrow> (ok, Up (w\<lparr>gw_game := s\<rparr>))
     | Crash \<Rightarrow> (False, Undefined))"
| "on_game_outcome f p = (False, p)"

text \<open>A lobby handler replies to its own session.\<close>

fun on_lobby :: "game_classes \<Rightarrow> nat \<Rightarrow> lobby_handler \<Rightarrow> game_world server_process \<Rightarrow> bool \<times> game_world server_process" where
  "on_lobby C session f (Up w) = (case f (gw_db w) of
       (Inl e, d) \<Rightarrow> (False, Ended e (w\<lparr>gw_db := d\<rparr>))
     | (Inr (ok, pkts), d) \<Rightarrow>
         (ok, Up (w\<lparr>gw_db := d, gw_game := fold (send_client C session) pkts (gw_game w)\<rparr>)))"
| "on_lobby C session f p = (False, p)"

text \<open>
  A room handler sends to the members' sessions; a weak pointer to a session locks as long as the
  object lives.
\<close>

fun on_room ::
  "game_classes \<Rightarrow> (game_packet room_world \<Rightarrow> bool \<times> game_packet room_world)
    \<Rightarrow> game_world server_process \<Rightarrow> bool \<times> game_world server_process" where
  "on_room C f (Up w) =
     (let (ok, r) = f ((gw_room w)\<lparr>rw_alive := (\<lambda>obj. sm_heap (gs_manager (gw_game w)) obj \<noteq> None),
                          rw_sent := []\<rparr>)
      in (ok, Up (w\<lparr>gw_room := r\<lparr>rw_sent := []\<rparr>,
            gw_game := fold (\<lambda>(obj, pkt). send_client C obj pkt) (rw_sent r) (gw_game w)\<rparr>)))"
| "on_room C f p = (False, p)"

definition Handle_REQ_MOVE :: "'mv \<Rightarrow> game_world server_process \<Rightarrow> bool \<times> game_world server_process" where
  "Handle_REQ_MOVE pkt p = (True, p)"

definition Handle_REQ_ATTACK :: "'at \<Rightarrow> game_world server_process \<Rightarrow> bool \<times> game_world server_process" where
  "Handle_REQ_ATTACK pkt p = (True, p)"

definition Handle_Game_INVALID :: "game_world server_process packet_handler" where
  "Handle_Game_INVALID body p = (False, p)"

section \<open>The tables\<close>

definition GamePacketHandler_entries ::
  "('mv, 'at) game_requests \<Rightarrow> game_classes \<Rightarrow> game_env \<Rightarrow> nat
    \<Rightarrow> (nat \<times> game_world server_process packet_handler) list" where
  "GamePacketHandler_entries Q C E session =
     [(4000, DispatchPacket (gq_auction_list Q) (\<lambda>pkt. on_game (Game_Handle_REQ_AUCTION_LIST (ge_now E) session pkt))),
      (4002, DispatchPacket (gq_receipt_list Q) (\<lambda>pkt. on_game (Game_Handle_REQ_RECEIPT_LIST session pkt))),
      (4004, DispatchPacket (gq_regist_item Q) (\<lambda>pkt. on_game_outcome (Game_Handle_REQ_REGIST_ITEM session pkt))),
      (4006, DispatchPacket (gq_purchase_item Q) (\<lambda>pkt. on_game (Game_Handle_REQ_PURCHASE_ITEM C (ge_now E) session pkt))),
      (4008, DispatchPacket (gq_receipt_item Q) (\<lambda>pkt. on_game (Game_Handle_REQ_RECEIPT_ITEM session pkt))),
      (2004, DispatchPacket (gq_move Q) Handle_REQ_MOVE),
      (3000, DispatchPacket (gq_attack Q) Handle_REQ_ATTACK),
      (1000, DispatchPacket (gq_check_tokenvalid Q) (\<lambda>(id, token). on_lobby C session
               (Handle_REQ_CHECK_TOKENVALID (ge_same_text E) (ge_create E) id token))),
      (1002, DispatchPacket (gq_character_list Q) (\<lambda>id. on_lobby C session
               (Handle_REQ_CHARACTER_LIST (ge_create E) id))),
      (1004, DispatchPacket (gq_check_nickname Q) (\<lambda>name. on_lobby C session
               (Handle_REQ_CHECK_NICKNAME (ge_same_text E) (ge_create E) name))),
      (1006, DispatchPacket (gq_create_character Q) (\<lambda>pkt. on_lobby C session
               (Handle_REQ_CREATE_CHARACTER (ge_defaults E) (ge_create E) pkt))),
      (1008, DispatchPacket (gq_delete_character Q) (\<lambda>(account_id, character_id). on_lobby C session
               (Handle_REQ_DELETE_CHARACTER (ge_create E) account_id character_id))),
      (1010, DispatchPacket (gq_enter_game Q) (\<lambda>(player_id, name). on_room C
               (Handle_REQ_ENTER_GAME session player_id name))),
      (1012, DispatchPacket (gq_leave_game Q) (\<lambda>player_id. on_room C
               (Handle_REQ_LEAVE_GAME session player_id)))]"

definition GamePacketHandler_Init ::
  "('mv, 'at) game_requests \<Rightarrow> game_classes \<Rightarrow> game_env \<Rightarrow> nat \<Rightarrow> game_world server_process packet_handler list" where
  "GamePacketHandler_Init Q C E session =
     Init_table Handle_Game_INVALID (GamePacketHandler_entries Q C E session)"

definition GamePacketHandler_HandlePacket ::
  "('mv, 'at) game_requests \<Rightarrow> game_classes \<Rightarrow> game_env \<Rightarrow> nat \<Rightarrow> game_world server_process handler" where
  "GamePacketHandler_HandlePacket Q C E session = serve (GamePacketHandler_Init Q C E session)"

definition GameSession_HandlePacket ::
  "('mv, 'at) game_requests \<Rightarrow> game_classes \<Rightarrow> game_env \<Rightarrow> nat \<Rightarrow> game_world server_process handler" where
  "GameSession_HandlePacket Q C E session = GamePacketHandler_HandlePacket Q C E session"

lemma game_entries [simp]: "distinct (map fst (GamePacketHandler_entries Q C E session))"
  by (simp add: GamePacketHandler_entries_def)

text \<open>The auction server's replies.\<close>

record ss_reply_classes =
  ssr_auction_list :: "SS_RES_AUCTION_LIST msg_class"
  ssr_receipt_list :: "SS_RES_RECEIPT_LIST msg_class"
  ssr_regist_item :: "SS_RES_REGIST_ITEM msg_class"
  ssr_purchase_item :: "SS_RES_PURCHASE_ITEM msg_class"
  ssr_receipt_item :: "SS_RES_RECEIPT_ITEM msg_class"

definition Game_Handle_SS_Auction_INVALID :: "game_world server_process packet_handler" where
  "Game_Handle_SS_Auction_INVALID body p = (True, p)"

definition AuctionServerPacketHandler_entries ::
  "ss_reply_classes \<Rightarrow> game_classes \<Rightarrow> int \<Rightarrow> (nat \<times> game_world server_process packet_handler) list" where
  "AuctionServerPacketHandler_entries R C now =
     [(1, DispatchPacket (ssr_auction_list R) (\<lambda>pkt. on_game (Handle_RES_AUCTION_LIST C now pkt))),
      (3, DispatchPacket (ssr_receipt_list R) (\<lambda>pkt. on_game (Handle_RES_RECEIPT_LIST C pkt))),
      (5, DispatchPacket (ssr_regist_item R) (\<lambda>pkt. on_game (Handle_RES_REGIST_ITEM C pkt))),
      (7, DispatchPacket (ssr_purchase_item R) (\<lambda>pkt. on_game (Handle_RES_PURCHASE_ITEM C pkt))),
      (9, DispatchPacket (ssr_receipt_item R) (\<lambda>pkt. on_game (Handle_RES_RECEIPT_ITEM pkt)))]"

definition AuctionServerPacketHandler_Init ::
  "ss_reply_classes \<Rightarrow> game_classes \<Rightarrow> int \<Rightarrow> game_world server_process packet_handler list" where
  "AuctionServerPacketHandler_Init R C now =
     Init_table Game_Handle_SS_Auction_INVALID (AuctionServerPacketHandler_entries R C now)"

definition AuctionServerPacketHandler_HandlePacket ::
  "ss_reply_classes \<Rightarrow> game_classes \<Rightarrow> int \<Rightarrow> game_world server_process handler" where
  "AuctionServerPacketHandler_HandlePacket R C now = serve (AuctionServerPacketHandler_Init R C now)"

definition Game_AuctionSession_HandlePacket ::
  "ss_reply_classes \<Rightarrow> game_classes \<Rightarrow> int \<Rightarrow> game_world server_process handler" where
  "Game_AuctionSession_HandlePacket R C now = AuctionServerPacketHandler_HandlePacket R C now"

lemma auction_reply_entries [simp]: "distinct (map fst (AuctionServerPacketHandler_entries R C now))"
  by (simp add: AuctionServerPacketHandler_entries_def)

section \<open>A purchase over the wire\<close>

lemma game_serve_one:
  assumes "map_of (GamePacketHandler_entries Q C E session) (nat (sint code)) = Some (DispatchPacket M func)"
    and "0 \<le> sint code" and "sendable M m" and "concat chunks = SendPacket M m code"
  shows "rx_world (fold (rx_receive (GameSession_HandlePacket Q C E session)) chunks (rx_init (Up w)))
    = snd (func m (Up w))"
  unfolding GameSession_HandlePacket_def GamePacketHandler_HandlePacket_def GamePacketHandler_Init_def
  by (rule serve_one [OF game_entries assms])

text \<open>
  A purchase the cache does not reject, however its bytes are cut, makes the game server hand the
  auction connection exactly one request, under the client's session id, and changes nothing else.
\<close>

lemma purchase_forwarded:
  assumes "sendable (gq_purchase_item Q) (info # infos)"
    and "concat chunks = SendPacket (gq_purchase_item Q) (info # infos) 4006"
    and "gs_auction (gw_game w) = Some sent"
    and "ValidatePurchase (ge_now E) (ai_list_id info) (ai_count info) (ai_player_id info)
          (gs_cache (gw_game w)) = (verdict, cache)" and "verdict \<in> {Pass, Unknown}"
  shows "rx_world (fold (rx_receive (GameSession_HandlePacket Q C E obj)) chunks (rx_init (Up w)))
    = Up (w\<lparr>gw_game := (gw_game w)\<lparr>gs_cache := cache, gs_auction := Some (sent @ [PKT_SS_REQ_PURCHASE_ITEM
        \<lparr>srpi_session_id = GetSessionId obj (gw_game w), srpi_purchaseinfo = [info]\<rparr>])\<rparr>\<rparr>)"
proof -
  have "rx_world (fold (rx_receive (GameSession_HandlePacket Q C E obj)) chunks (rx_init (Up w)))
      = snd (on_game (Game_Handle_REQ_PURCHASE_ITEM C (ge_now E) obj (info # infos)) (Up w))"
    by (rule game_serve_one [OF _ _ assms(1,2)]) (simp_all add: GamePacketHandler_entries_def)
  then show ?thesis
    using assms(3-5) by (auto simp: Game_Handle_REQ_PURCHASE_ITEM_def to_auction_def GetSessionId_def Let_def)
qed

text \<open>The bytes of that request, however cut, make the auction server post it to the listing's writer.\<close>

lemma purchase_posted:
  assumes "sendable (ssc_purchase_item S) req" and "concat chunks = SendPacket (ssc_purchase_item S) req 6"
    and "srpi_purchaseinfo req = [info]"
  shows "rx_world (fold (rx_receive (AuctionSession_HandlePacket S conn)) chunks (rx_init (Up srv)))
    = Up (PostWrite (ai_list_id info) (conn, PKT_SS_REQ_PURCHASE_ITEM req) srv)"
  using purchases_posted [of "[req]" S chunks conn srv] assms by (simp add: Handle_REQ_PURCHASE_ITEM_def)

text \<open>The results of purchases, from their bytes to the clients' send queues.\<close>

lemma results_delivered:
  assumes "\<And>r. r \<in> set rs \<Longrightarrow> sendable (ssr_purchase_item R) r"
    and "concat chunks = concat (map (\<lambda>r. SendPacket (ssr_purchase_item R) r 7) rs)"
    and "\<And>r. r \<in> set rs \<Longrightarrow> 0 \<le> sint (sspi_session_id r) \<and> sint (sspi_session_id r) < 2 ^ 31"
    and "p = rx_world (fold (rx_receive (Game_AuctionSession_HandlePacket R C now)) chunks (rx_init (Up w)))"
  shows "\<exists>w'. p = Up w' \<and> gw_game w' = (gw_game w)\<lparr>gs_tx := fold (\<lambda>r tx.
      case Find (sspi_session_id r) (gs_manager (gw_game w)) of
        None \<Rightarrow> tx
      | Some obj \<Rightarrow> tx(obj := Send (SendPacket (gc_purchase_item C) (sspi_result r, sspi_gold r) 4007) (tx obj)))
    rs (gs_tx (gw_game w))\<rparr>"
proof -
  define deliver where "deliver r w = (let (ok, s) = Handle_RES_PURCHASE_ITEM C r (gw_game w) in (ok, w\<lparr>gw_game := s\<rparr>))"
    for r and w :: game_world
  have total: "on_game (Handle_RES_PURCHASE_ITEM C r) = total (deliver r)" for r
  proof
    fix p show "on_game (Handle_RES_PURCHASE_ITEM C r) p = total (deliver r) p"
      by (cases p) (auto simp: deliver_def split: prod.splits)
  qed
  have "p = Up (fold (\<lambda>r. snd \<circ> deliver r) rs w)"
    unfolding assms(4) Game_AuctionSession_HandlePacket_def AuctionServerPacketHandler_HandlePacket_def AuctionServerPacketHandler_Init_def
    by (rule serve_many [OF auction_reply_entries])
      (use assms(1,2) in \<open>auto simp: AuctionServerPacketHandler_entries_def total\<close>)
  moreover have "gw_game (fold (\<lambda>r. snd \<circ> deliver r) rs w) = (gw_game w)\<lparr>gs_tx := fold (\<lambda>r tx.
      case Find (sspi_session_id r) (gs_manager (gw_game w)) of
        None \<Rightarrow> tx
      | Some obj \<Rightarrow> tx(obj := Send (SendPacket (gc_purchase_item C) (sspi_result r, sspi_gold r) 4007) (tx obj)))
    rs (gs_tx (gw_game w))\<rparr>"
    using assms(3)
  proof (induction rs arbitrary: w)
    case (Cons r rs)
    have "0 \<le> sint (sspi_session_id r) \<and> sint (sspi_session_id r) < 2 ^ 31" by (rule Cons.prems) simp
    then have "int_session_id (sspi_session_id r) = sspi_session_id r" by (intro int_session_id_id) simp_all
    then have "gw_game (snd (deliver r w)) = (gw_game w)\<lparr>gs_tx :=
        (case Find (sspi_session_id r) (gs_manager (gw_game w)) of
           None \<Rightarrow> gs_tx (gw_game w)
         | Some obj \<Rightarrow> (gs_tx (gw_game w))(obj :=
             Send (SendPacket (gc_purchase_item C) (sspi_result r, sspi_gold r) 4007) (gs_tx (gw_game w) obj)))\<rparr>"
      by (simp add: deliver_def Handle_RES_PURCHASE_ITEM_def reply_client_def send_client_def split: option.splits)
    with Cons show ?case by simp
  qed simp
  ultimately show ?thesis by blast
qed

text \<open>
  C5: the results come back to the clients.  Purchase results that arrive from the auction server,
  however their bytes are cut, are handed one by one and in order to the send queues of the
  sessions registered under their ids (below 2^31), as \<open>RES_PURCHASE_ITEM\<close> packets; a result for a
  session that is gone is dropped, and nothing else is sent.
\<close>

theorem results_over_wire:
  assumes "\<And>r. r \<in> set rs \<Longrightarrow> sendable (ssr_purchase_item R) r"
    and "concat chunks = concat (map (\<lambda>r. SendPacket (ssr_purchase_item R) r 7) rs)"
    and "\<And>r. r \<in> set rs \<Longrightarrow> 0 \<le> sint (sspi_session_id r) \<and> sint (sspi_session_id r) < 2 ^ 31"
    and "p = rx_world (fold (rx_receive (Game_AuctionSession_HandlePacket R C now)) chunks (rx_init (Up w)))"
  shows "\<exists>w'. p = Up w' \<and> gw_game w' = (gw_game w)\<lparr>gs_tx := fold (\<lambda>r tx.
      case Find (sspi_session_id r) (gs_manager (gw_game w)) of
        None \<Rightarrow> tx
      | Some obj \<Rightarrow> tx(obj := Send (SendPacket (gc_purchase_item C) (sspi_result r, sspi_gold r) 4007) (tx obj)))
    rs (gs_tx (gw_game w))\<rparr>"
  using results_delivered [OF assms] .

section \<open>Witnesses\<close>

text \<open>One client, object 5, and its purchase of the listing of \<open>demo_info\<close>.\<close>

definition demo_game_requests :: "(unit, unit) game_requests" where
  "demo_game_requests = \<lparr>gq_auction_list = empty_class \<lparr>gral_player_id = 0, gral_search_item = [], gral_mylist = False\<rparr>,
     gq_receipt_list = empty_class 0, gq_regist_item = empty_class [],
     gq_purchase_item = Game_REQ_PURCHASE_ITEM_class base128,
     gq_receipt_item = empty_class \<lparr>grri_player_id = 0, grri_receipt_id = 0\<rparr>, gq_move = empty_class (),
     gq_attack = empty_class (), gq_check_tokenvalid = empty_class (0, []), gq_character_list = empty_class 0,
     gq_check_nickname = empty_class [],
     gq_create_character = empty_class \<lparr>grcc_account_id = 0, grcc_characters = []\<rparr>,
     gq_delete_character = empty_class (0, 0), gq_enter_game = empty_class (0, []), gq_leave_game = empty_class 0\<rparr>"

definition demo_ss_requests :: ss_request_classes where
  "demo_ss_requests =
     \<lparr>ssc_auction_list = empty_class \<lparr>sral_session_id = 0, sral_request_id = 0, sral_player_id = 0,
        sral_search_item = [], sral_mylist = False\<rparr>,
      ssc_receipt_list = empty_class \<lparr>srrl_session_id = 0, srrl_player_id = 0\<rparr>,
      ssc_regist_item = empty_class \<lparr>srri_session_id = 0, srri_registinfo = []\<rparr>,
      ssc_purchase_item = REQ_PURCHASE_ITEM_class base128,
      ssc_receipt_item = empty_class \<lparr>srrc_session_id = 0, srrc_player_id = 0, srrc_receipt_id = 0\<rparr>\<rparr>"

definition demo_ss_replies :: ss_reply_classes where
  "demo_ss_replies =
     \<lparr>ssr_auction_list = empty_class \<lparr>ssal_session_id = 0, ssal_request_id = 0, ssal_mylist = False, ssal_listinfo = []\<rparr>,
      ssr_receipt_list = empty_class \<lparr>ssrl_session_id = 0, ssrl_receiptlist = []\<rparr>,
      ssr_regist_item = empty_class \<lparr>ssri_session_id = 0, ssri_result = False\<rparr>,
      ssr_purchase_item = RES_PURCHASE_ITEM_class base128,
      ssr_receipt_item = empty_class \<lparr>ssrc_session_id = 0, ssrc_receipt_id = 0, ssrc_gold = 0, ssrc_result = False\<rparr>\<rparr>"

definition demo_game_env :: game_env where
  "demo_game_env = \<lparr>ge_now = 0, ge_same_text = (=), ge_create = (\<lambda>_. None), ge_defaults = demo_sd\<rparr>"

definition demo_game_world :: game_world where
  "demo_game_world = \<lparr>gw_game = demo_game, gw_db = lobby_demo (\<lambda>_ _. None), gw_room = room_init (\<lambda>_. True)\<rparr>"

definition demo_forward :: SS_REQ_PURCHASE_ITEM where
  "demo_forward = \<lparr>srpi_session_id = 1, srpi_purchaseinfo = [demo_info]\<rparr>"

lemma demo_item_size: "item_ok base128 demo_info" "size_items base128 [demo_info] \<le> 100"
  by (simp_all add: item_ok_def demo_info_def AuctionItemInfo_default_def size_items_def base128_def
      LengthDelimitedSize_def Int64Size_def AuctionItemInfo_ByteSizeLong_def varint_bytes.simps)

lemma demo_sendable:
  "sendable (gq_purchase_item demo_game_requests) [demo_info]"
  "sendable (ssc_purchase_item demo_ss_requests) demo_forward"
proof -
  show "sendable (gq_purchase_item demo_game_requests) [demo_info]"
    using demo_item_size game_purchase_codec.message_codec_axioms
    by (auto simp: sendable_def demo_game_requests_def Game_REQ_PURCHASE_ITEM_class_def message_class_def
        Game_REQ_PURCHASE_ITEM_ByteSizeLong_def SHRT_MAX_def)
  have "REQ_PURCHASE_ITEM_ByteSizeLong base128 demo_forward \<le> SHRT_MAX"
    using demo_item_size(2)
    by (simp add: REQ_PURCHASE_ITEM_ByteSizeLong_def demo_forward_def SHRT_MAX_def Int64Size_def base128_def
        varint_bytes.simps)
  then show "sendable (ssc_purchase_item demo_ss_requests) demo_forward"
    using demo_item_size(1) purchase_codec.message_codec_axioms
    by (auto simp: sendable_def demo_ss_requests_def REQ_PURCHASE_ITEM_class_def message_class_def
        demo_forward_def)
qed

theorem results_over_wire_witness:
  "\<exists>w'. rx_world (fold (rx_receive (Game_AuctionSession_HandlePacket demo_ss_replies demo_classes 0))
        [SendPacket (RES_PURCHASE_ITEM_class base128) \<lparr>sspi_session_id = 1, sspi_result = True, sspi_gold = 300\<rparr> 7]
        (rx_init (Up demo_game_world))) = Up w'
    \<and> gs_tx (gw_game w') = (\<lambda>_. tx_init)(5 := Send (SendPacket (gc_purchase_item demo_classes) (True, 300) 4007) tx_init)"
proof -
  let ?r = "\<lparr>sspi_session_id = 1, sspi_result = True, sspi_gold = 300\<rparr>"
  have "RES_PURCHASE_ITEM_ByteSizeLong base128 ?r \<le> SHRT_MAX"
    by (simp add: RES_PURCHASE_ITEM_ByteSizeLong_def SHRT_MAX_def Int64Size_def base128_def varint_bytes.simps)
  then have s: "sendable (ssr_purchase_item demo_ss_replies) ?r"
    using purchase_result_codec.message_codec_axioms
    by (auto simp: sendable_def demo_ss_replies_def RES_PURCHASE_ITEM_class_def message_class_def)
  have "Find 1 (gs_manager (gw_game demo_game_world)) = Some 5" "gs_tx (gw_game demo_game_world) = (\<lambda>_. tx_init)"
    by (simp_all add: demo_game_world_def demo_session) (simp add: demo_game_def)
  moreover obtain w' where
    "rx_world (fold (rx_receive (Game_AuctionSession_HandlePacket demo_ss_replies demo_classes 0))
       [SendPacket (RES_PURCHASE_ITEM_class base128) ?r 7] (rx_init (Up demo_game_world))) = Up w'"
    and "gw_game w' = (gw_game demo_game_world)\<lparr>gs_tx := fold (\<lambda>r tx.
      case Find (sspi_session_id r) (gs_manager (gw_game demo_game_world)) of
        None \<Rightarrow> tx
      | Some obj \<Rightarrow> tx(obj := Send (SendPacket (gc_purchase_item demo_classes) (sspi_result r, sspi_gold r) 4007) (tx obj)))
      [?r] (gs_tx (gw_game demo_game_world))\<rparr>"
    using results_over_wire [of "[?r]" demo_ss_replies "[SendPacket (RES_PURCHASE_ITEM_class base128) ?r 7]", OF _ _ _ refl,
      where w = demo_game_world and C = demo_classes and now = 0] s
    by (auto simp: demo_ss_replies_def)
  ultimately show ?thesis by auto
qed

end
