(* ===== verification/ListRefresh.thy ===== *)
theory ListRefresh
  imports GameServer CacheSound
begin

text \<open>
  A refresh of the game server's cache across the servers: the cache's request at the auction server,
  a reader's query, the reply, and what the purchases checked against it are worth.
\<close>

section \<open>The list for the cache\<close>

lemma no_fault_ticked: "ticked c c' \<Longrightarrow> no_fault c \<Longrightarrow> cn_fault c' n op = None"
  using ticked_no_fault [of c c'] by (simp add: no_fault_def)

lemma GetListings_runs:
  assumes "idle c" and "no_fault c" and "cn_clock c = (\<lambda>_. t)"
  obtains c' where "GetListings datetime False player c
    = (Inr (map (listing_item datetime) (live_rows t (cn_committed c))), c')"
proof -
  obtain r c' where run: "GetListings datetime False player c = (r, c')" by force
  have "wp (GetListings datetime False player) (\<lambda>items _. True) (\<lambda>_ _. \<not> no_fault c) c"
    unfolding GetListings_def fetch_all_def
    by (simp, rule wp_bindI, rule wp_executeQuery [OF well_bound_stmts(8)])
      (auto simp: listQuery_all_def wp_rules Let_def no_fault_ticked split: option.splits)
  with run assms(2) obtain items where r: "r = Inr items" by (cases r) (auto simp: wp_def)
  from GetListings_rows [OF run [unfolded r]] assms have "items = map (listing_item datetime) (live_rows t (cn_committed c))"
    by (simp add: live_rows_def idle_def)
  with run r that show ?thesis by simp
qed

text \<open>The cache's request, and the reply that answers it with the rows of \<open>d\<close> alive at \<open>t\<close>.\<close>

definition refresh_request :: "int32 \<Rightarrow> SS_REQ_AUCTION_LIST" where
  "refresh_request seq = \<lparr>sral_session_id = kCacheSessionId, sral_request_id = seq, sral_player_id = 0,
     sral_search_item = [], sral_mylist = False\<rparr>"

definition refresh_reply :: "(int \<Rightarrow> string) \<Rightarrow> int32 \<Rightarrow> int \<Rightarrow> db \<Rightarrow> SS_RES_AUCTION_LIST" where
  "refresh_reply datetime seq t d = \<lparr>ssal_session_id = kCacheSessionId, ssal_request_id = seq, ssal_mylist = False,
     ssal_listinfo = map (listing_item datetime) (live_rows t d)\<rparr>"

lemma post_and_read:
  assumes "0 < length (wp_readers srv)" and "i = unat (wp_readRoundRobin srv) mod length (wp_readers srv)"
    and "w_queue (wp_readers srv ! i) = []" and "w_conn (wp_readers srv ! i) = Some c"
  shows "wp_conns (run_reader exec i (PostRead t srv)) c = run_task exec t (wp_conns srv c)"
proof -
  have "i < length (wp_readers srv)" using assms(1,2) by simp
  with assms show ?thesis by (auto simp: PostRead_def run_reader_def run_next_def Post_def run_on_def Let_def)
qed

lemma refresh_task:
  assumes "idle (wio_conn io)" and "no_fault (wio_conn io)" and "cn_clock (wio_conn io) = (\<lambda>_. t)"
  obtains c' where "run_task (run_request datetime list_id) (conn, PKT_SS_REQ_AUCTION_LIST (refresh_request seq)) io =
      \<lparr>wio_conn = c', wio_replies = wio_replies io @
        [(conn, PKT_SS_RES_AUCTION_LIST (refresh_reply datetime seq t (cn_committed (wio_conn io))))]\<rparr>"
proof -
  from GetListings_runs [OF assms, of datetime 0] obtain c' where run:
    "GetListings datetime False 0 (wio_conn io)
      = (Inr (map (listing_item datetime) (live_rows t (cn_committed (wio_conn io)))), c')" .
  show ?thesis
    by (rule that) (cases io, use run in \<open>simp add: run_task_def run_request_def on_conn_def
         bindM_def catchM_def returnM_def ProcessAuctionList_def ReplyPacket_def refresh_request_def refresh_reply_def\<close>)
qed

lemma refresh_posted:
  assumes "sendable (ssc_auction_list S) (refresh_request seq)"
    and "concat chunks = SendPacket (ssc_auction_list S) (refresh_request seq) 0"
  shows "rx_world (fold (rx_receive (AuctionSession_HandlePacket S conn)) chunks (rx_init (Up srv)))
    = Up (PostRead (conn, PKT_SS_REQ_AUCTION_LIST (refresh_request seq)) srv)"
proof -
  have "rx_world (fold (rx_receive (AuctionSession_HandlePacket S conn)) chunks (rx_init (Up srv)))
      = snd (total (Handle_REQ_AUCTION_LIST conn (refresh_request seq)) (Up srv))"
    unfolding AuctionSession_HandlePacket_def AuctionPacketHandler_HandlePacket_def AuctionPacketHandler_Init_def
    by (rule serve_one [OF auction_entries _ _ assms]) (simp_all add: AuctionPacketHandler_entries_def)
  then show ?thesis by (simp add: Handle_REQ_AUCTION_LIST_def)
qed

lemma refresh_stored:
  assumes "sendable (ssr_auction_list R) (refresh_reply datetime seq t d)"
    and "concat chunks = SendPacket (ssr_auction_list R) (refresh_reply datetime seq t d) 1"
    and "ca_inFlight (gs_cache (gw_game w))" and "ca_refreshSeq (gs_cache (gw_game w)) = seq"
  shows "\<exists>w'. rx_world (fold (rx_receive (Game_AuctionSession_HandlePacket R C now)) chunks (rx_init (Up w))) = Up w'
    \<and> ca_snapshot (gs_cache (gw_game w')) = Some (list_snapshot (gc_auction_list C) now datetime t d)"
proof -
  have "rx_world (fold (rx_receive (Game_AuctionSession_HandlePacket R C now)) chunks (rx_init (Up w)))
      = snd (on_game (Handle_RES_AUCTION_LIST C now (refresh_reply datetime seq t d)) (Up w))"
    unfolding Game_AuctionSession_HandlePacket_def AuctionServerPacketHandler_HandlePacket_def
      AuctionServerPacketHandler_Init_def
    by (rule serve_one [OF auction_reply_entries _ _ assms(1,2)]) (simp_all add: AuctionServerPacketHandler_entries_def)
  then show ?thesis
    using assms(3,4) by (simp add: Handle_RES_AUCTION_LIST_def refresh_reply_def kCacheSessionId_def
        snapshot_OnRefreshResponse)
qed

text \<open>
  C15: what the cache rejects, the auction server would refuse.  Let the cache's request reach the
  auction server, a reader with nothing else to do run it, at time \<open>t\<close>, and the reply come back, the
  bytes cut in any way.  Then the snapshot is the list of that moment, and from then on, if
  \<open>ValidatePurchase\<close> rejects a purchase, for whatever reason, the purchase is refused by the auction
  server's specification on every state its tables can have reached, at any later time.
\<close>

theorem cache_rejects_soundly:
  assumes "ca_inFlight (gs_cache (gw_game w))" and "ca_refreshSeq (gs_cache (gw_game w)) = seq"
    and "sendable (ssc_auction_list S) (refresh_request seq)"
    and "concat chunks = SendPacket (ssc_auction_list S) (refresh_request seq) 0"
    and "0 < length (wp_readers srv)" and "i = unat (wp_readRoundRobin srv) mod length (wp_readers srv)"
    and "w_queue (wp_readers srv ! i) = []" and "w_conn (wp_readers srv ! i) = Some c"
    and io: "io = wp_conns srv c" "idle (wio_conn io)" "no_fault (wio_conn io)" "cn_clock (wio_conn io) = (\<lambda>_. t)"
    and d0: "d0 = cn_committed (wio_conn io)" "list_fits d0 ai0"
    and "reply = refresh_reply datetime seq t d0" and "sendable (ssr_auction_list R) reply"
    and "concat bytes = SendPacket (ssr_auction_list R) reply 1"
  shows "\<exists>srv1 w'.
      rx_world (fold (rx_receive (AuctionSession_HandlePacket S conn)) chunks (rx_init (Up srv))) = Up srv1
    \<and> wio_replies (wp_conns (run_reader (run_request datetime list_id) i srv1) c)
        = wio_replies io @ [(conn, PKT_SS_RES_AUCTION_LIST reply)]
    \<and> rx_world (fold (rx_receive (Game_AuctionSession_HandlePacket R C now)) bytes (rx_init (Up w))) = Up w'
    \<and> ca_snapshot (gs_cache (gw_game w'))
        = Some (make_snapshot (gc_auction_list C) now (map (listing_item datetime) (live_rows t d0)))
    \<and> (\<forall>now' lid count buyer v c' d1 ai1 t1 fr rid.
        ValidatePurchase now' lid count buyer (gs_cache (gw_game w')) = (v, c') \<longrightarrow> v \<notin> {Pass, Unknown} \<longrightarrow>
        shop_step\<^sup>*\<^sup>* (d0, ai0) (d1, ai1) \<longrightarrow> t \<le> t1 \<longrightarrow>
        purchase_spec fr t1 (sint buyer) (sint lid) (sint count) rid d1 = None)"
proof -
  note posted = refresh_posted [OF assms(3,4), of conn srv]
  from refresh_task [OF io(2-4), of datetime list_id conn seq] obtain c' where task:
    "run_task (run_request datetime list_id) (conn, PKT_SS_REQ_AUCTION_LIST (refresh_request seq)) io =
      \<lparr>wio_conn = c', wio_replies = wio_replies io @ [(conn, PKT_SS_RES_AUCTION_LIST reply)]\<rparr>"
    by (auto simp: assms d0)
  note run = post_and_read [OF assms(5-8), of "run_request datetime list_id"
      "(conn, PKT_SS_REQ_AUCTION_LIST (refresh_request seq))", folded io(1), unfolded task]
  obtain w' where w': "rx_world (fold (rx_receive (Game_AuctionSession_HandlePacket R C now)) bytes (rx_init (Up w))) = Up w'"
    "ca_snapshot (gs_cache (gw_game w')) = Some (list_snapshot (gc_auction_list C) now datetime t d0)"
    using refresh_stored [of R datetime seq t d0 bytes w C now] assms by auto
  show ?thesis
    by (intro exI conjI allI impI, rule posted, simp add: run, rule w'(1), rule w'(2))
      (rule cache_rejection_sound [OF d0(2) w'(2)], assumption+)
qed

section \<open>Witness\<close>

definition demo_read_server :: "unit auction_server" where
  "demo_read_server = demo_server\<lparr>wp_readers := [demo_worker 3],
     wp_conns := (\<lambda>_. \<lparr>wio_conn = demo_conn (\<lambda>_ _. None), wio_replies = []\<rparr>)\<rparr>"

definition demo_refresh_replies :: ss_reply_classes where
  "demo_refresh_replies = demo_ss_replies\<lparr>ssr_auction_list := empty_class (refresh_reply (\<lambda>_. []) 0 500 demo_db)\<rparr>"

definition demo_waiting_world :: game_world where
  "demo_waiting_world = demo_game_world\<lparr>gw_game := demo_game\<lparr>gs_cache := AuctionCache\<lparr>ca_inFlight := True\<rparr>\<rparr>\<rparr>"

lemma empty_sendable: "sendable (empty_class m) m"
proof -
  have "message_codec (empty_class m) (\<lambda>x. x = m)" by unfold_locales (auto simp: empty_class_def)
  then show ?thesis by (auto simp: sendable_def empty_class_def)
qed

lemma demo_list_fits: "list_fits demo_db \<lparr>next_listing_id = 2, next_receipt_id = 1, next_character_id = 3, next_account_id = 21\<rparr>"
  by (simp add: list_fits_def demo_fits) (simp add: demo_db_def in_int32_def)

text \<open>Six of the five units on sale are asked for, eight ticks after the list arrived.\<close>

theorem cache_rejects_soundly_witness:
  "\<exists>w'. rx_world (fold (rx_receive (Game_AuctionSession_HandlePacket demo_refresh_replies demo_classes 7))
      [SendPacket (ssr_auction_list demo_refresh_replies) (refresh_reply (\<lambda>_. []) 0 500 demo_db) 1]
      (rx_init (Up demo_waiting_world))) = Up w'
    \<and> fst (ValidatePurchase 15 1 6 10 (gs_cache (gw_game w'))) = RejectShortage
    \<and> purchase_spec False 600 10 1 6 1 demo_db = None"
proof -
  have s: "sendable (ssc_auction_list demo_ss_requests) (refresh_request 0)"
    "sendable (ssr_auction_list demo_refresh_replies) (refresh_reply (\<lambda>_. []) 0 500 demo_db)"
    using empty_sendable by (simp_all add: demo_ss_requests_def refresh_request_def kCacheSessionId_def demo_refresh_replies_def)
  have g: "ca_inFlight (gs_cache (gw_game demo_waiting_world))" "ca_refreshSeq (gs_cache (gw_game demo_waiting_world)) = 0"
    by (simp_all add: demo_waiting_world_def AuctionCache_def)
  have p: "0 < length (wp_readers demo_read_server)" "0 = unat (wp_readRoundRobin demo_read_server) mod length (wp_readers demo_read_server)"
    "w_queue (wp_readers demo_read_server ! 0) = []" "w_conn (wp_readers demo_read_server ! 0) = Some 3"
    "wp_conns demo_read_server 3 = \<lparr>wio_conn = demo_conn (\<lambda>_ _. None), wio_replies = []\<rparr>"
    by (simp_all add: demo_read_server_def demo_server_def demo_worker_def)
  have c: "idle (wio_conn (wp_conns demo_read_server 3))" "no_fault (wio_conn (wp_conns demo_read_server 3))"
    "cn_clock (wio_conn (wp_conns demo_read_server 3)) = (\<lambda>_. 500)"
    "demo_db = cn_committed (wio_conn (wp_conns demo_read_server 3))"
    by (simp_all add: p(5) demo_facts demo_no_fault)
  have one: "concat [bs] = bs" for bs :: "byte list" by simp
  from cache_rejects_soundly [where C = demo_classes and now = 7, OF g s(1) one p(1-4) refl c demo_list_fits refl s(2) one]
  obtain w' where w': "rx_world (fold (rx_receive (Game_AuctionSession_HandlePacket demo_refresh_replies demo_classes 7))
      [SendPacket (ssr_auction_list demo_refresh_replies) (refresh_reply (\<lambda>_. []) 0 500 demo_db) 1]
      (rx_init (Up demo_waiting_world))) = Up w'"
    and snap: "ca_snapshot (gs_cache (gw_game w')) = Some (make_snapshot (gc_auction_list demo_classes) 7
        (map (listing_item (\<lambda>_. [])) (live_rows 500 demo_db)))"
    and sound: "\<And>v c'. ValidatePurchase 15 1 6 10 (gs_cache (gw_game w')) = (v, c') \<Longrightarrow> v \<notin> {Pass, Unknown} \<Longrightarrow>
        purchase_spec False 600 (sint (10 :: int64)) (sint (1 :: int64)) (sint (6 :: int64)) 1 demo_db = None"
    by (fastforce dest: spec [of _ 15])
  have rows: "\<exists>item. map (listing_item (\<lambda>_. [])) (live_rows 500 demo_db) = [item] \<and> ai_list_id item = 1
      \<and> ai_count item = 5 \<and> ai_player_id item \<noteq> 10"
    by (simp add: live_rows_def demo_db_def listing_item_def getInt_def)
  then have reject: "fst (ValidatePurchase 15 1 6 10 (gs_cache (gw_game w'))) = RejectShortage"
    by (auto simp: ValidatePurchase_def snap make_snapshot_fields IsFresh_def kStaleLimit_def seconds_def Let_def)
  with sound [OF prod.collapse [symmetric]] w' show ?thesis by simp
qed

end
