(* ===== verification/LoginServer.thy ===== *)
theory LoginServer
  imports Wire Codec SessionSend LoginSpec
begin

text \<open>
  The login server as a whole: \<^verbatim>\<open>LoginPacketHandler.h\<close> (the table), \<^verbatim>\<open>LoginSession.cpp\<close>
  (a session's \<open>HandlePacket\<close> and \<open>SendPacket\<close>), over the sign-in functions, the receiving and the
  sending half of a session.  The theorem at the end follows a login from the bytes of the request
  to the bytes of the reply.
\<close>

section \<open>State and parameters\<close>

record login_classes =
  lg_req_login :: "(string \<times> string) msg_class"
  lg_req_check_id :: "string msg_class"
  lg_req_join :: "(string \<times> string) msg_class"
  lg_res_login :: "(int32 \<times> string) msg_class"
  lg_res_check_id :: "bool msg_class"
  lg_res_join :: "bool msg_class"

text \<open>The collation, BCrypt's two functions, the random device and the connection factory.\<close>

record login_env =
  le_same_text :: "string \<Rightarrow> string \<Rightarrow> bool"
  le_validatePassword :: "string \<Rightarrow> string \<Rightarrow> bool"
  le_generateHash :: "string \<Rightarrow> nat \<Rightarrow> string"
  le_rd :: "nat \<Rightarrow> uint32 list"
  le_create :: factory

record login_world =
  lw_db :: db_server
  lw_tx :: "nat \<Rightarrow> session_tx"

section \<open>Replies\<close>

fun login_bytes :: "login_classes \<Rightarrow> login_packet \<Rightarrow> byte list" where
  "login_bytes C (PKT_RES_LOGIN player_id token) = SendPacket (lg_res_login C) (player_id, token) 1"
| "login_bytes C (PKT_RES_CHECK_ID result) = SendPacket (lg_res_check_id C) result 3"
| "login_bytes C (PKT_RES_JOIN result) = SendPacket (lg_res_join C) result 5"

definition LoginSession_SendPacket :: "login_classes \<Rightarrow> nat \<Rightarrow> login_packet \<Rightarrow> login_world \<Rightarrow> login_world" where
  "LoginSession_SendPacket C session msg w =
     w\<lparr>lw_tx := (lw_tx w)(session := Send (login_bytes C msg) (lw_tx w session))\<rparr>"

text \<open>A handler run in the process: it may not return, throw, or send its replies.\<close>

definition on_db ::
  "login_classes \<Rightarrow> nat \<Rightarrow> (db_server \<Rightarrow> ((exn + bool \<times> login_packet list) \<times> db_server) option)
    \<Rightarrow> login_world server_process \<Rightarrow> bool \<times> login_world server_process" where
  "on_db C session f p =
     (case p of
        Up w \<Rightarrow> (case f (lw_db w) of
            None \<Rightarrow> (False, Hung)
          | Some (Inl e, d) \<Rightarrow> (False, Ended e (w\<lparr>lw_db := d\<rparr>))
          | Some (Inr (ok, pkts), d) \<Rightarrow>
              (ok, Up (fold (LoginSession_SendPacket C session) pkts (w\<lparr>lw_db := d\<rparr>))))
      | _ \<Rightarrow> (False, p))"

section \<open>The table and the session\<close>

definition Handle_Login_INVALID :: "login_world server_process packet_handler" where
  "Handle_Login_INVALID body p = (False, p)"

definition LoginPacketHandler_entries ::
  "login_classes \<Rightarrow> login_env \<Rightarrow> nat \<Rightarrow> (nat \<times> login_world server_process packet_handler) list" where
  "LoginPacketHandler_entries C E session =
     [(0, DispatchPacket (lg_req_login C) (\<lambda>(uid, pw). on_db C session
            (Handle_REQ_LOGIN (le_same_text E) (le_validatePassword E) (le_rd E) (le_create E) uid pw))),
      (2, DispatchPacket (lg_req_check_id C) (\<lambda>uid. on_db C session
            (Some \<circ> Handle_REQ_CHECK_ID (le_same_text E) (le_create E) uid))),
      (4, DispatchPacket (lg_req_join C) (\<lambda>(uid, pw). on_db C session
            (Some \<circ> Handle_REQ_JOIN (le_generateHash E) (le_create E) uid pw)))]"

definition LoginPacketHandler_Init ::
  "login_classes \<Rightarrow> login_env \<Rightarrow> nat \<Rightarrow> login_world server_process packet_handler list" where
  "LoginPacketHandler_Init C E session =
     Init_table Handle_Login_INVALID (LoginPacketHandler_entries C E session)"

definition LoginPacketHandler_HandlePacket ::
  "login_classes \<Rightarrow> login_env \<Rightarrow> nat \<Rightarrow> login_world server_process handler" where
  "LoginPacketHandler_HandlePacket C E session = serve (LoginPacketHandler_Init C E session)"

definition LoginSession_HandlePacket ::
  "login_classes \<Rightarrow> login_env \<Rightarrow> nat \<Rightarrow> login_world server_process handler" where
  "LoginSession_HandlePacket C E session = LoginPacketHandler_HandlePacket C E session"

lemma login_entries:
  "distinct (map fst (LoginPacketHandler_entries C E session))"
  by (simp add: LoginPacketHandler_entries_def)

section \<open>A login over the wire\<close>

text \<open>
  C6: a login, from bytes to bytes.  A client sends one \<open>REQ_LOGIN\<close>, however the network cuts it.
  If the sign-in returns, exactly one reply is handed to the session's send queue: the account's
  number and a token of 64 characters if BCrypt accepts the password for the active account of the id,
  \<open>-1\<close> and no token otherwise, and the database keeps its invariant.  If it throws, the exception
  ends the server; if its token loop never ends, the server hangs.
\<close>

theorem login_over_wire:
  assumes "sendable (lg_req_login C) (uid, pw)"
    and "concat chunks = SendPacket (lg_req_login C) (uid, pw) 0"
    and "server_inv (lw_db w)" and "\<not> le_validatePassword E pw []" and "\<forall>k. length (le_rd E k) = 8"
    and "p = rx_world (fold (rx_receive (LoginSession_HandlePacket C E session)) chunks (rx_init (Up w)))"
  shows "case TrySignIn (le_same_text E) (le_validatePassword E) (le_rd E) (le_create E) uid pw (lw_db w) of
      None \<Rightarrow> p = Hung
    | Some (Inl e, d) \<Rightarrow> p = Ended e (w\<lparr>lw_db := d\<rparr>)
    | Some (Inr _, d) \<Rightarrow> server_inv d \<and> (\<exists>acct token.
        p = Up (w\<lparr>lw_db := d, lw_tx := (lw_tx w)(session :=
          Send (SendPacket (lg_res_login C) (acct, token) 1) (lw_tx w session))\<rparr>)
        \<and> (case account_of (le_same_text E) uid (ds_tables (lw_db w)) of
             None \<Rightarrow> acct = -1 \<and> token = []
           | Some a \<Rightarrow> if le_validatePassword E pw (ac_user_password a)
               then acct = getInt (ac_account_id a) \<and> length token = 64
               else acct = -1 \<and> token = []))"
proof -
  let ?login = "Handle_REQ_LOGIN (le_same_text E) (le_validatePassword E) (le_rd E) (le_create E) uid pw"
  let ?run = "TrySignIn (le_same_text E) (le_validatePassword E) (le_rd E) (le_create E) uid pw (lw_db w)"
  have p: "p = snd (on_db C session ?login (Up w))"
    unfolding assms(6) LoginSession_HandlePacket_def LoginPacketHandler_HandlePacket_def LoginPacketHandler_Init_def
    by (subst serve_one [OF login_entries, where M = "lg_req_login C" and m = "(uid, pw)" and code = 0 and
          func = "\<lambda>(uid, pw). on_db C session (Handle_REQ_LOGIN (le_same_text E) (le_validatePassword E)
            (le_rd E) (le_create E) uid pw)"])
      (use assms(1,2) in \<open>simp_all add: LoginPacketHandler_entries_def\<close>)
  show ?thesis
  proof (cases ?run)
    case None
    then show ?thesis by (simp add: p on_db_def Handle_REQ_LOGIN_def)
  next
    case (Some res)
    obtain r d where res: "res = (r, d)" by force
    show ?thesis
    proof (cases r)
      case (Inl e)
      with Some res show ?thesis by (simp add: p on_db_def Handle_REQ_LOGIN_def)
    next
      case (Inr reply)
      obtain acct token where reply: "reply = (acct, token)" by force
      have login: "?login (lw_db w) = Some (Inr (True, [PKT_RES_LOGIN acct token]), d)"
        using Some res Inr reply by (simp add: Handle_REQ_LOGIN_def)
      have "p = Up (w\<lparr>lw_db := d, lw_tx := (lw_tx w)(session :=
          Send (SendPacket (lg_res_login C) (acct, token) 1) (lw_tx w session))\<rparr>)"
        by (simp add: p on_db_def login LoginSession_SendPacket_def)
      with login_reply_sound [OF assms(3-5) login] Some res Inr show ?thesis
        by (auto split: option.splits if_splits)
    qed
  qed
qed

section \<open>Witness\<close>

text \<open>The login of \<open>login_run\<close>, its bytes in the documented encoding, cut after the first three.\<close>

definition demo_login_classes :: login_classes where
  "demo_login_classes = \<lparr>lg_req_login = REQ_LOGIN_class base128, lg_req_check_id = empty_class [],
     lg_req_join = empty_class ([], []), lg_res_login = RES_LOGIN_class base128,
     lg_res_check_id = empty_class False, lg_res_join = empty_class False\<rparr>"

definition demo_login_env :: login_env where
  "demo_login_env = \<lparr>le_same_text = (=), le_validatePassword = demo_validate,
     le_generateHash = (\<lambda>pw cost. ''hash:'' @ pw), le_rd = demo_rd, le_create = (\<lambda>_. None)\<rparr>"

definition demo_login_world :: login_world where
  "demo_login_world = \<lparr>lw_db = login_demo duplicate_token, lw_tx = (\<lambda>_. tx_init)\<rparr>"

definition demo_login_chunks :: "byte list list" where
  "demo_login_chunks = (let bs = SendPacket (REQ_LOGIN_class base128) (''kim'', ''pw'') 0
     in [take 3 bs, drop 3 bs])"

theorem login_over_wire_witness:
  "\<exists>w' token. rx_world (fold (rx_receive (LoginSession_HandlePacket demo_login_classes demo_login_env 5))
      demo_login_chunks (rx_init (Up demo_login_world))) = Up w'
    \<and> length token = 64 \<and> tx_sendQueue (lw_tx w' 5) = [SendPacket (RES_LOGIN_class base128) (7, token) 1]"
proof -
  have "is_utf8 base128 ''kim'' \<and> is_utf8 base128 ''pw''" by (simp add: base128_def)
  then have sendable: "sendable (lg_req_login demo_login_classes) (''kim'', ''pw'')"
    using login_codec.message_codec_axioms
    by (auto simp: sendable_def demo_login_classes_def REQ_LOGIN_class_def message_class_def SHRT_MAX_def
        REQ_LOGIN_ByteSizeLong_def LengthDelimitedSize_def base128_def varint_bytes.simps)
  have bytes: "concat demo_login_chunks = SendPacket (lg_req_login demo_login_classes) (''kim'', ''pw'') 0"
    by (simp add: demo_login_chunks_def demo_login_classes_def Let_def)
  have inv: "server_inv (lw_db demo_login_world)" by (simp add: demo_login_world_def login_demo_inv)
  have no: "\<not> le_validatePassword demo_login_env ''pw'' []" and rd: "\<forall>k. length (le_rd demo_login_env k) = 8"
    by (simp_all add: demo_login_env_def demo_validate_def demo_rd_length)
  obtain acct token s' where "TrySignIn (=) demo_validate demo_rd (\<lambda>_. None) ''kim'' ''pw''
      (login_demo duplicate_token) = Some (Inr (acct, token), s')"
    using login_run_reply login_reply unfolding login_run_def by blast
  then have run: "TrySignIn (le_same_text demo_login_env) (le_validatePassword demo_login_env) (le_rd demo_login_env)
      (le_create demo_login_env) ''kim'' ''pw'' (lw_db demo_login_world) = Some (Inr (acct, token), s')"
    by (simp add: demo_login_env_def demo_login_world_def)
  have "account_of (le_same_text demo_login_env) ''kim'' (ds_tables (lw_db demo_login_world))
      = Some (hd (accounts demo_accounts))"
    by (simp add: demo_login_env_def demo_login_world_def login_demo_def account_of_def demo_accounts_def
        empty_db_def)
  moreover have "le_validatePassword demo_login_env ''pw'' (ac_user_password (hd (accounts demo_accounts)))"
    and "getInt (ac_account_id (hd (accounts demo_accounts))) = 7"
    by (simp_all add: demo_login_env_def demo_accounts_def empty_db_def demo_validate_def getInt_def)
  ultimately obtain w' token where "rx_world (fold (rx_receive (LoginSession_HandlePacket
      demo_login_classes demo_login_env 5)) demo_login_chunks (rx_init (Up demo_login_world))) = Up w'"
    and "length token = 64" and "lw_tx w' 5 =
      Send (SendPacket (lg_res_login demo_login_classes) (7, token) 1) (lw_tx demo_login_world 5)"
    using login_over_wire [OF sendable bytes inv no rd refl, of 5, unfolded run] by auto
  moreover from this(3) have "tx_sendQueue (lw_tx w' 5) = [SendPacket (RES_LOGIN_class base128) (7, token) 1]"
    by (simp add: demo_login_world_def demo_login_classes_def tx_init_def
        Send_def EnqueueSend_def DoWrite_def MaxSendQueue_def Let_def)
  ultimately show ?thesis by blast
qed

end
