(* ===== verification/ChatServer.thy ===== *)
theory ChatServer
  imports Wire SessionSend Rooms
begin

text \<open>
  The chat server as a whole: the table of \<^verbatim>\<open>ChatPacketHandler.h\<close>, \<^verbatim>\<open>ChatSession.cpp\<close>, and
  the room.  The theorem follows a chat message from the sender's bytes to every member's send queue.
\<close>

section \<open>State and parameters\<close>

record chat_classes =
  cc_req_enter :: "(int32 \<times> string) msg_class"
  cc_req_leave :: "int32 msg_class"
  cc_req_chat :: "REQ_CHAT msg_class"
  cc_res_enter :: "bool msg_class"
  cc_res_leave :: "bool msg_class"

record chat_world =
  cw_room :: "chat_packet room_world"
  cw_tx :: "nat \<Rightarrow> session_tx"

text \<open>\<open>Broadcast\<close> sends the request it was given, under the code of the response.\<close>

fun chat_bytes :: "chat_classes \<Rightarrow> chat_packet \<Rightarrow> byte list" where
  "chat_bytes C (PKT_RES_ENTER_CHATROOM result) = SendPacket (cc_res_enter C) result 1"
| "chat_bytes C (PKT_RES_LEAVE_CHATROOM result) = SendPacket (cc_res_leave C) result 3"
| "chat_bytes C (PKT_RES_CHAT pkt) = SendPacket (cc_req_chat C) pkt 5"

definition ChatSession_SendPacket ::
  "chat_classes \<Rightarrow> nat \<times> chat_packet \<Rightarrow> (nat \<Rightarrow> session_tx) \<Rightarrow> nat \<Rightarrow> session_tx" where
  "ChatSession_SendPacket C = (\<lambda>(session, msg) tx. tx(session := Send (chat_bytes C msg) (tx session)))"

text \<open>A handler of the room: what it sends goes to the sessions' send queues.\<close>

definition in_room ::
  "chat_classes \<Rightarrow> (chat_packet room_world \<Rightarrow> bool \<times> chat_packet room_world) \<Rightarrow> chat_world \<Rightarrow> bool \<times> chat_world" where
  "in_room C f w =
     (let (ok, r) = f ((cw_room w)\<lparr>rw_sent := []\<rparr>)
      in (ok, w\<lparr>cw_room := r\<lparr>rw_sent := []\<rparr>, cw_tx := fold (ChatSession_SendPacket C) (rw_sent r) (cw_tx w)\<rparr>))"

section \<open>The table and the session\<close>

definition Handle_Chat_INVALID :: "chat_world server_process packet_handler" where
  "Handle_Chat_INVALID body p = (False, p)"

definition ChatPacketHandler_entries ::
  "chat_classes \<Rightarrow> nat \<Rightarrow> (nat \<times> chat_world server_process packet_handler) list" where
  "ChatPacketHandler_entries C session =
     [(0, DispatchPacket (cc_req_enter C) (\<lambda>(player_id, name). total (in_room C
            (Handle_REQ_ENTER_CHATROOM session player_id name)))),
      (2, DispatchPacket (cc_req_leave C) (\<lambda>player_id. total (in_room C
            (Handle_REQ_LEAVE_CHATROOM session player_id)))),
      (4, DispatchPacket (cc_req_chat C) (\<lambda>pkt. total (in_room C (Handle_REQ_CHAT session pkt))))]"

definition ChatPacketHandler_Init :: "chat_classes \<Rightarrow> nat \<Rightarrow> chat_world server_process packet_handler list" where
  "ChatPacketHandler_Init C session = Init_table Handle_Chat_INVALID (ChatPacketHandler_entries C session)"

definition ChatPacketHandler_HandlePacket ::
  "chat_classes \<Rightarrow> nat \<Rightarrow> chat_world server_process handler" where
  "ChatPacketHandler_HandlePacket C session = serve (ChatPacketHandler_Init C session)"

definition ChatSession_HandlePacket ::
  "chat_classes \<Rightarrow> nat \<Rightarrow> chat_world server_process handler" where
  "ChatSession_HandlePacket C session = ChatPacketHandler_HandlePacket C session"

lemma chat_entries [simp]: "distinct (map fst (ChatPacketHandler_entries C session))"
  by (simp add: ChatPacketHandler_entries_def)

section \<open>A chat message over the wire\<close>

lemma room_inv_sent: "room_inv w \<Longrightarrow> room_inv (w\<lparr>rw_sent := xs\<rparr>)"
  by (simp add: room_inv_def)

lemma members_of_sent [simp]: "members_of s (w\<lparr>rw_sent := xs\<rparr>) = members_of s w"
  by (simp add: members_of_def)

lemma Broadcast_members: "rw_members (Broadcast pkt w) = rw_members w"
proof -
  have "rw_members (fold (\<lambda>(pid, player). send_member player pkt) ms w) = rw_members w" for ms
    by (induction ms arbitrary: w) (auto simp: send_member_def split: option.splits)
  then show ?thesis by (simp add: Broadcast_def)
qed

lemma fold_SendPacket:
  "fold (ChatSession_SendPacket C) sends tx s
    = fold (\<lambda>msg. Send (chat_bytes C msg)) (map snd (filter (\<lambda>p. fst p = s) sends)) (tx s)"
  by (induction sends arbitrary: tx) (auto simp: ChatSession_SendPacket_def)

lemma sends_of_one:
  assumes "\<forall>s p. count (mset sends) (s, p) = (if p = pkt \<and> live s then card (ms s) else 0)"
  shows "map snd (filter (\<lambda>p. fst p = s) sends) = replicate (if live s then card (ms s) else 0) pkt"
proof -
  have cnt: "count (mset xs) y = length (filter (\<lambda>p. p = y) xs)" for xs :: "('a \<times> 'b) list" and y
    by (induction xs) auto
  have all: "snd x = pkt" if "x \<in> set sends" for x
  proof (rule ccontr)
    assume "snd x \<noteq> pkt"
    then have "count (mset sends) (fst x, snd x) = 0" using assms by (simp del: prod.collapse)
    then have "(fst x, snd x) \<notin> set sends" by (simp add: count_eq_zero_iff)
    with that show False by simp
  qed
  have eq: "filter (\<lambda>p. fst p = s) sends = filter (\<lambda>p. p = (s, pkt)) sends"
  proof (rule filter_cong [OF refl])
    fix x assume "x \<in> set sends"
    from all [OF this] show "(fst x = s) = (x = (s, pkt))" by (cases x) auto
  qed
  have "length (filter (\<lambda>p. p = (s, pkt)) sends) = count (mset sends) (s, pkt)" by (simp add: cnt)
  moreover have "map snd (filter (\<lambda>p. p = (s, pkt)) sends)
      = replicate (length (filter (\<lambda>p. p = (s, pkt)) sends)) pkt"
    by (induction sends) auto
  ultimately show ?thesis using assms by (simp add: eq)
qed

lemma chat_send_queues:
  fixes C :: chat_classes and session :: nat and pkt :: REQ_CHAT
  assumes "room_inv (cw_room w)"
  defines "w' \<equiv> snd (in_room C (Handle_REQ_CHAT session pkt) w)"
  shows "(\<forall>s. cw_tx w' s = (Send (SendPacket (cc_req_chat C) pkt 5)
          ^^ (if rw_alive (cw_room w) s then card (members_of s (cw_room w)) else 0)) (cw_tx w s))
    \<and> rw_members (cw_room w') = rw_members (cw_room w)"
proof -
  let ?w = "(cw_room w)\<lparr>rw_sent := []\<rparr>"
  from chat_delivery [OF room_inv_sent [OF assms(1), of "[]"], of session pkt] obtain new where
    new: "rw_sent (snd (Handle_REQ_CHAT session pkt ?w)) = new"
    and cnt: "\<forall>s p. count (mset new) (s, p) =
          (if p = PKT_RES_CHAT pkt \<and> rw_alive (cw_room w) s then card (members_of s (cw_room w)) else 0)"
    by auto
  have "fold (\<lambda>msg. Send (chat_bytes C msg)) (replicate n (PKT_RES_CHAT pkt)) t
      = (Send (SendPacket (cc_req_chat C) pkt 5) ^^ n) t" for n t
    by (induction n arbitrary: t) (simp_all add: funpow_swap1)
  moreover have "cw_tx w' = fold (ChatSession_SendPacket C) new (cw_tx w)"
    using new by (auto simp: w'_def in_room_def split: prod.splits)
  moreover have "rw_members (cw_room w') = rw_members (cw_room w)"
    by (simp add: w'_def in_room_def Handle_REQ_CHAT_def Broadcast_members split: prod.splits)
  ultimately show ?thesis
    using sends_of_one [OF cnt] by (simp add: fold_SendPacket)
qed

text \<open>
  A chat message, from bytes to bytes.  One \<open>REQ_CHAT\<close> that arrives from any session, however its
  bytes are cut, hands the message's packet to the send queue of every live session once per member
  the session has in the room (once for a player in the room), and to no other session; the room does
  not change and the server stays up.
\<close>

lemma chat_over_wire:
  assumes "sendable (cc_req_chat C) pkt" and "concat chunks = SendPacket (cc_req_chat C) pkt 4"
    and "room_inv (cw_room w)"
  shows "\<exists>w'. rx_world (fold (rx_receive (ChatSession_HandlePacket C session)) chunks (rx_init (Up w))) = Up w'
    \<and> (\<forall>s. cw_tx w' s = (Send (SendPacket (cc_req_chat C) pkt 5)
          ^^ (if rw_alive (cw_room w) s then card (members_of s (cw_room w)) else 0)) (cw_tx w s))
    \<and> rw_members (cw_room w') = rw_members (cw_room w)"
proof -
  have run: "rx_world (fold (rx_receive (ChatSession_HandlePacket C session)) chunks (rx_init (Up w)))
      = Up (snd (in_room C (Handle_REQ_CHAT session pkt) w))"
  proof -
    have entry: "map_of (ChatPacketHandler_entries C session) (nat (sint (4 :: int16)))
        = Some (DispatchPacket (cc_req_chat C) (\<lambda>pkt. total (in_room C (Handle_REQ_CHAT session pkt))))"
      by (simp add: ChatPacketHandler_entries_def)
    show ?thesis
      unfolding ChatSession_HandlePacket_def ChatPacketHandler_HandlePacket_def ChatPacketHandler_Init_def
        serve_one [OF chat_entries entry _ assms(1,2), simplified]
      by (simp add: case_prod_beta)
  qed
  from chat_send_queues [OF assms(3), of C session pkt] show ?thesis unfolding run by simp
qed

section \<open>Witness\<close>

text \<open>Message encodings that are their own bytes, for one message.\<close>

definition demo_message :: REQ_CHAT where
  "demo_message = \<lparr>rc_time = [], rc_sender = ''b'', rc_message = ''hi''\<rparr>"

definition demo_chat_classes :: chat_classes where
  "demo_chat_classes = \<lparr>cc_req_enter = empty_class (0, []), cc_req_leave = empty_class 0,
     cc_req_chat = empty_class demo_message, cc_res_enter = empty_class False, cc_res_leave = empty_class False\<rparr>"

lemma demo_message_sendable: "sendable (cc_req_chat demo_chat_classes) demo_message"
proof -
  have "message_codec (empty_class demo_message) (\<lambda>m. m = demo_message)"
    by unfold_locales (auto simp: empty_class_def)
  then show ?thesis by (auto simp: sendable_def demo_chat_classes_def empty_class_def)
qed

lemma demo_chat_members: "members_of 0 demo_chat = {}" "members_of 1 demo_chat = {1}"
  "rw_alive demo_chat = (\<lambda>_. True)"
  by (auto simp: members_of_def demo_chat_def room_init_def Handle_REQ_ENTER_CHATROOM_def new_player_def
      HandleEnterPlayerLocked_def HandleLeavePlayerLocked_def EnterPlayer_def LeavePlayer_def
      Handle_REQ_LEAVE_CHATROOM_def player_id_of_def send_member_def lock_session_def upd_member_def Let_def)

lemma chat_over_wire_witness:
  "\<exists>w'. rx_world (fold (rx_receive (ChatSession_HandlePacket demo_chat_classes 1))
        [SendPacket (empty_class demo_message) demo_message 4]
        (rx_init (Up \<lparr>cw_room = demo_chat, cw_tx = (\<lambda>_. tx_init)\<rparr>))) = Up w'
    \<and> cw_tx w' 0 = tx_init \<and> cw_tx w' 1 = Send (SendPacket (empty_class demo_message) demo_message 5) tx_init"
  using chat_over_wire [OF demo_message_sendable, of "[SendPacket (empty_class demo_message) demo_message 4]"
      "\<lparr>cw_room = demo_chat, cw_tx = (\<lambda>_. tx_init)\<rparr>" 1] demo_chat_inv demo_chat_members
  by (auto simp: demo_chat_classes_def)

end
