(* ===== verification/Server.thy ===== *)
theory Server
  imports LoginServer ChatServer GameServer
begin

text \<open>
  A server's event loop (\<^verbatim>\<open>LoginServer.cpp\<close>, \<^verbatim>\<open>ChatServer.cpp\<close>, \<^verbatim>\<open>AuctionServer.cpp\<close> and
  \<^verbatim>\<open>GameServer.cpp\<close>): one thread runs the completions of the acceptor and of all sessions, in any
  order.  The sessions share the server's state, the world of their handlers.

  A session object is a number, in the order the objects are made.  An exception of any completion
  leaves \<open>io_context::run\<close>, and nothing runs after it.
\<close>

section \<open>State and steps\<close>

record 'w io_server =
  io_next :: nat
  io_waiting :: "nat option"
  io_sessions :: "nat \<Rightarrow> 'w session_rx option"
  io_world :: 'w
  io_ended :: "exn option"

text \<open>\<open>StartAccept\<close> makes the session the next connection will get.\<close>

definition StartAccept :: "'w io_server \<Rightarrow> 'w io_server" where
  "StartAccept s = s\<lparr>io_waiting := Some (io_next s), io_next := Suc (io_next s)\<rparr>"

text \<open>Each server class has its own copy of it.\<close>

definition ChatServer_StartAccept :: "'w io_server \<Rightarrow> 'w io_server" where
  [simp]: "ChatServer_StartAccept = StartAccept"

definition AuctionServer_StartAccept :: "'w io_server \<Rightarrow> 'w io_server" where
  [simp]: "AuctionServer_StartAccept = StartAccept"

definition GameServer_StartAccept :: "'w io_server \<Rightarrow> 'w io_server" where
  [simp]: "GameServer_StartAccept = StartAccept"

text \<open>What a server does with a session besides: register it, unregister it, handle its packets.\<close>

record 'w server_ops =
  so_register :: "nat \<Rightarrow> 'w \<Rightarrow> 'w"
  so_close :: "nat \<Rightarrow> 'w \<Rightarrow> 'w"
  so_handle :: "nat \<Rightarrow> 'w handler"

definition OnAccept :: "'w server_ops \<Rightarrow> bool \<Rightarrow> 'w io_server \<Rightarrow> 'w io_server" where
  "OnAccept ops err s =
     (case io_waiting s of
        None \<Rightarrow> s
      | Some session \<Rightarrow>
          StartAccept (if \<not> err
            then (let w = so_register ops session (io_world s)
                  in s\<lparr>io_waiting := None, io_world := w, io_sessions := (io_sessions s)(session \<mapsto> rx_init w)\<rparr>)
            else s\<lparr>io_waiting := None\<rparr>))"

text \<open>Bytes arrive on a session: its reads complete, with the server's state as their world.\<close>

definition OnBytes :: "'w server_ops \<Rightarrow> nat \<Rightarrow> byte list \<Rightarrow> 'w io_server \<Rightarrow> 'w io_server" where
  "OnBytes ops session bs s =
     (case io_sessions s session of
        None \<Rightarrow> s
      | Some rx \<Rightarrow>
          (let rx' = rx_receive (so_handle ops session) bs (rx\<lparr>rx_world := io_world s\<rparr>)
           in s\<lparr>io_sessions := (io_sessions s)(session \<mapsto> rx'), io_world := rx_world rx',
                io_ended := (case rx_status rx' of Crashed e \<Rightarrow> Some e | _ \<Rightarrow> None)\<rparr>))"

text \<open>A session's read fails: the completion handler closes the session, once.\<close>

definition OnLost :: "'w server_ops \<Rightarrow> nat \<Rightarrow> 'w io_server \<Rightarrow> 'w io_server" where
  "OnLost ops session s =
     (case io_sessions s session of
        None \<Rightarrow> s
      | Some rx \<Rightarrow>
          if rx_status rx = Running
          then s\<lparr>io_sessions := (io_sessions s)(session \<mapsto> OnHeaderRead True [] rx),
                 io_world := so_close ops session (io_world s)\<rparr>
          else s)"

datatype io_event = Accepted bool | Bytes nat "byte list" | Lost nat

fun io_step :: "'w server_ops \<Rightarrow> io_event \<Rightarrow> 'w io_server \<Rightarrow> 'w io_server" where
  "io_step ops (Accepted err) s = (if io_ended s \<noteq> None then s else OnAccept ops err s)"
| "io_step ops (Bytes session bs) s = (if io_ended s \<noteq> None then s else OnBytes ops session bs s)"
| "io_step ops (Lost session) s = (if io_ended s \<noteq> None then s else OnLost ops session s)"

definition io_init :: "'w \<Rightarrow> 'w io_server" where
  "io_init w = StartAccept \<lparr>io_next = 0, io_waiting = None, io_sessions = Map.empty, io_world = w, io_ended = None\<rparr>"

definition io_run :: "'w server_ops \<Rightarrow> io_event list \<Rightarrow> 'w \<Rightarrow> 'w io_server" where
  "io_run ops evs w = fold (io_step ops) evs (io_init w)"

section \<open>The four servers\<close>

text \<open>Only the game server registers its sessions.\<close>

definition plain_ops :: "(nat \<Rightarrow> 'w handler) \<Rightarrow> 'w server_ops" where
  "plain_ops handle = \<lparr>so_register = (\<lambda>session w. w), so_close = (\<lambda>session w. w), so_handle = handle\<rparr>"

definition LoginServer_OnAccept ::
  "login_classes \<Rightarrow> login_env \<Rightarrow> bool \<Rightarrow> login_world server_process io_server \<Rightarrow> login_world server_process io_server" where
  "LoginServer_OnAccept C E = OnAccept (plain_ops (LoginSession_HandlePacket C E))"

text \<open>A lost session of the chat server is destroyed: its member's weak pointer no longer locks.\<close>

fun on_chat_lost :: "nat \<Rightarrow> chat_world server_process \<Rightarrow> chat_world server_process" where
  "on_chat_lost session (Up w) =
     Up (w\<lparr>cw_room := (cw_room w)\<lparr>rw_alive := (rw_alive (cw_room w))(session := False)\<rparr>\<rparr>)"
| "on_chat_lost session p = p"

definition chat_ops :: "chat_classes \<Rightarrow> chat_world server_process server_ops" where
  "chat_ops C = \<lparr>so_register = (\<lambda>session w. w), so_close = on_chat_lost, so_handle = ChatSession_HandlePacket C\<rparr>"

definition ChatServer_OnAccept ::
  "chat_classes \<Rightarrow> bool \<Rightarrow> chat_world server_process io_server \<Rightarrow> chat_world server_process io_server" where
  "ChatServer_OnAccept C = OnAccept (chat_ops C)"

definition AuctionServer_OnAccept ::
  "ss_request_classes \<Rightarrow> bool \<Rightarrow> 'p auction_server server_process io_server \<Rightarrow> 'p auction_server server_process io_server" where
  "AuctionServer_OnAccept S = OnAccept (plain_ops (AuctionSession_HandlePacket S))"

fun on_manager :: "sm_event \<Rightarrow> game_world server_process \<Rightarrow> game_world server_process" where
  "on_manager ev (Up w) = Up (w\<lparr>gw_game := (gw_game w)\<lparr>gs_manager := sm_step ev (gs_manager (gw_game w))\<rparr>\<rparr>)"
| "on_manager ev p = p"

definition game_ops ::
  "('mv, 'at) game_requests \<Rightarrow> game_classes \<Rightarrow> game_env \<Rightarrow> game_world server_process server_ops" where
  "game_ops Q C E = \<lparr>so_register = (\<lambda>session. on_manager (Accept session)),
     so_close = (\<lambda>session. on_manager (CloseSession session)), so_handle = GameSession_HandlePacket Q C E\<rparr>"

definition GameServer_OnAccept ::
  "('mv, 'at) game_requests \<Rightarrow> game_classes \<Rightarrow> game_env \<Rightarrow> bool \<Rightarrow> game_world server_process io_server
    \<Rightarrow> game_world server_process io_server" where
  "GameServer_OnAccept Q C E = OnAccept (game_ops Q C E)"

text \<open>
  The programs of the login and the chat server.  \<open>Inl\<close>: the exception of the connection pool, which is
  made before the \<^verbatim>\<open>try\<close>; an exception of the loop is caught, and is \<open>io_ended\<close>.
\<close>

definition LoginServer_main ::
  "login_classes \<Rightarrow> login_env \<Rightarrow> db_server \<Rightarrow> io_event list \<Rightarrow> exn + login_world server_process io_server" where
  "LoginServer_main C E db evs =
     (case Init (le_create E) 10 of
        Inl e \<Rightarrow> Inl e
      | Inr p \<Rightarrow> Inr (io_run (plain_ops (LoginSession_HandlePacket C E)) evs
          (Up \<lparr>lw_db = db\<lparr>ds_pool := p\<rparr>, lw_tx = (\<lambda>_. tx_init)\<rparr>)))"

definition ChatServer_main :: "chat_classes \<Rightarrow> io_event list \<Rightarrow> chat_world server_process io_server" where
  "ChatServer_main C evs = io_run (chat_ops C) evs
     (Up \<lparr>cw_room = room_init (\<lambda>_. True), cw_tx = (\<lambda>_. tx_init)\<rparr>)"

section \<open>The server always accepts\<close>

definition io_inv :: "'w io_server \<Rightarrow> bool" where
  "io_inv s \<longleftrightarrow> io_waiting s = Some (io_next s - 1) \<and> 0 < io_next s \<and> (\<forall>i \<in> dom (io_sessions s). Suc i < io_next s)"

lemma io_inv_init: "io_inv (io_init w)"
  by (simp add: io_inv_def io_init_def StartAccept_def)

lemma io_step_inv: "io_inv s \<Longrightarrow> io_inv (io_step ops ev s)"
  by (cases ev) (auto simp: io_inv_def OnAccept_def StartAccept_def OnBytes_def OnLost_def Let_def less_Suc_eq
      split: option.splits if_splits)

lemma io_fold_inv: "io_inv s \<Longrightarrow> io_inv (fold (io_step ops) evs s)"
  by (induction evs arbitrary: s) (auto intro: io_step_inv)

text \<open>What registering, closing and every handler keep of the server's state, the loop keeps.\<close>

lemma io_step_keeps:
  assumes "\<And>i w. P w \<Longrightarrow> P (so_register ops i w)" and "\<And>i w. P w \<Longrightarrow> P (so_close ops i w)"
    and "\<And>i h b w. P w \<Longrightarrow> P (snd (so_handle ops i h b w))" and "P (io_world s)"
  shows "P (io_world (io_step ops ev s))"
proof (cases ev)
  case (Bytes session bs)
  have "P (rx_world (rx_receive (so_handle ops session) bs (rx\<lparr>rx_world := io_world s\<rparr>)))" for rx
    by (rule rx_receive_keeps) (simp_all add: assms)
  with Bytes assms(4) show ?thesis by (simp add: OnBytes_def Let_def split: option.splits)
qed (use assms in \<open>simp_all add: OnAccept_def StartAccept_def OnLost_def Let_def split: option.splits\<close>)

section \<open>Projections of a handler's world\<close>

text \<open>A receiving session does the same over a projection of its world.\<close>

definition rx_map :: "('w \<Rightarrow> 'v) \<Rightarrow> 'w session_rx \<Rightarrow> 'v session_rx" where
  "rx_map f s = \<lparr>rx_header = rx_header s, rx_offset = rx_offset s, rx_pending = rx_pending s,
     rx_status = rx_status s, rx_socket = rx_socket s, rx_world = f (rx_world s)\<rparr>"

lemma rx_map_simps [simp]:
  "rx_header (rx_map f s) = rx_header s" "rx_offset (rx_map f s) = rx_offset s"
  "rx_pending (rx_map f s) = rx_pending s" "rx_status (rx_map f s) = rx_status s"
  "rx_socket (rx_map f s) = rx_socket s" "rx_world (rx_map f s) = f (rx_world s)"
  by (simp_all add: rx_map_def)

text \<open>As long as the handlers return.\<close>

definition projects :: "('w \<Rightarrow> 'v) \<Rightarrow> 'w handler \<Rightarrow> 'v handler \<Rightarrow> bool" where
  "projects f handle handle' \<longleftrightarrow>
     (\<forall>h b w w'. handle h b w = (None, w') \<longrightarrow> handle' h b (f w) = (None, f w'))"

definition crashed :: "'w session_rx \<Rightarrow> bool" where
  "crashed s \<longleftrightarrow> (case rx_status s of Crashed e \<Rightarrow> True | _ \<Rightarrow> False)"

lemma crashed_run: "crashed s \<Longrightarrow> rx_run handle s = s"
  by (auto simp: crashed_def rx_run.simps [of handle s] rx_ready_def)

lemma rx_complete_map:
  assumes "projects f handle handle'" and "\<not> crashed (rx_complete handle s)"
  shows "rx_complete handle' (rx_map f s) = rx_map f (rx_complete handle s)"
  using assms
  by (auto simp: projects_def crashed_def rx_complete_def Let_def pending_bytes_def OnHeaderRead_def OnBodyRead_def
      AsyncHeaderRead_def AsyncBodyRead_def rx_Close_def rx_map_def split: read_op.splits option.splits prod.splits)

lemma rx_run_map:
  assumes "projects f handle handle'" and "\<not> crashed (rx_run handle s)"
  shows "rx_run handle' (rx_map f s) = rx_map f (rx_run handle s)"
  using assms
proof (induction handle s rule: rx_run.induct)
  case (1 handle s)
  have ready: "rx_ready (rx_map f s) = rx_ready s"
    by (simp add: rx_ready_def pending_bytes_def)
  show ?case
  proof (cases "rx_ready s")
    case True
    then have run: "rx_run handle s = rx_run handle (rx_complete handle s)" by (simp add: rx_run.simps [of handle s])
    with "1.prems" crashed_run have "\<not> crashed (rx_complete handle s)" by metis
    with 1 True run show ?thesis
      by (simp add: rx_run.simps [of handle' "rx_map f s"] ready rx_complete_map [OF "1.prems"(1)])
  next
    case False
    then show ?thesis
      by (simp add: rx_run.simps [of handle' "rx_map f s"] rx_run.simps [of handle s] ready)
  qed
qed

lemma rx_receive_map:
  assumes "projects f handle handle'" and "\<not> crashed (rx_receive handle bs s)"
  shows "rx_receive handle' bs (rx_map f s) = rx_map f (rx_receive handle bs s)"
proof -
  have "(rx_map f s)\<lparr>rx_socket := rx_socket (rx_map f s) @ bs\<rparr> = rx_map f (s\<lparr>rx_socket := rx_socket s @ bs\<rparr>)"
    by (simp add: rx_map_def)
  with assms show ?thesis unfolding rx_receive_def by (metis rx_run_map)
qed

lemma rx_run_idle_world: "rx_world (rx_run (\<lambda>h b w. (None, w)) s) = rx_world s"
proof (induction "\<lambda>(h :: PacketHeader) (b :: byte list) (w :: 'a). (None :: exn option, w)" s rule: rx_run.induct)
  case (1 s)
  have "rx_world (rx_complete (\<lambda>h b w. (None, w)) s) = rx_world s"
    by (auto simp: rx_complete_def Let_def OnHeaderRead_def OnBodyRead_def AsyncHeaderRead_def
        AsyncBodyRead_def rx_Close_def split: read_op.splits option.splits)
  with 1 show ?case by (simp add: rx_run.simps [of _ s])
qed

text \<open>A projection a handler does not change.\<close>

lemma rx_receive_unchanged:
  assumes "\<And>h b w. f (snd (handle h b w)) = f w" and "\<not> crashed (rx_receive handle bs s)"
  shows "f (rx_world (rx_receive handle bs s)) = f (rx_world s)"
proof -
  have "projects f handle (\<lambda>h b w. (None, w))" using assms(1) unfolding projects_def by (metis snd_conv)
  from rx_receive_map [OF this assms(2)]
  have "f (rx_world (rx_receive handle bs s)) = rx_world (rx_receive (\<lambda>h b w. (None, w)) bs (rx_map f s))"
    by simp
  also have "\<dots> = f (rx_world s)" by (simp add: rx_receive_def rx_run_idle_world)
  finally show ?thesis .
qed

section \<open>Sessions do not mix\<close>

text \<open>A server that keeps a log of the packets its sessions handle, with the session's number.\<close>

type_synonym packet_log = "(nat \<times> PacketHeader \<times> byte list) list"

definition logging :: "'w server_ops \<Rightarrow> ('w \<times> packet_log) server_ops" where
  "logging ops = \<lparr>so_register = (\<lambda>session w. (so_register ops session (fst w), snd w)),
     so_close = (\<lambda>session w. (so_close ops session (fst w), snd w)),
     so_handle = (\<lambda>session h body w. (case so_handle ops session h body (fst w) of
        (e, v) \<Rightarrow> (e, v, snd w @ [(session, h, body)])))\<rparr>"

definition log_of :: "nat \<Rightarrow> 'w \<times> packet_log \<Rightarrow> (PacketHeader \<times> byte list) list" where
  "log_of i w = map snd (filter (\<lambda>p. fst p = i) (snd w))"

text \<open>The bytes that reached a session: those that arrived while its socket was open.\<close>

definition open_session :: "nat \<Rightarrow> 'w io_server \<Rightarrow> bool" where
  "open_session i s \<longleftrightarrow> (case io_sessions s i of None \<Rightarrow> False | Some rx \<Rightarrow> rx_status rx = Running)"

fun reached1 :: "nat \<Rightarrow> io_event \<Rightarrow> 'w io_server \<Rightarrow> byte list" where
  "reached1 i (Bytes j bs) s = (if j = i \<and> open_session i s then bs else [])"
| "reached1 i ev s = []"

fun reached :: "'w server_ops \<Rightarrow> nat \<Rightarrow> io_event list \<Rightarrow> 'w io_server \<Rightarrow> byte list" where
  "reached ops i [] s = []"
| "reached ops i (ev # evs) s =
     reached1 i ev s @ reached ops i evs (io_step ops ev s)"

lemma log_receive_own:
  "\<not> crashed (rx_receive (so_handle (logging ops) i) bs s) \<Longrightarrow>
   rx_map (log_of i) (rx_receive (so_handle (logging ops) i) bs s) = rx_receive log_handle bs (rx_map (log_of i) s)"
  by (rule rx_receive_map [symmetric])
    (auto simp: projects_def logging_def log_handle_def log_of_def split: prod.splits)

lemma log_receive_other:
  "j \<noteq> i \<Longrightarrow> \<not> crashed (rx_receive (so_handle (logging ops) j) bs s) \<Longrightarrow>
   log_of i (rx_world (rx_receive (so_handle (logging ops) j) bs s)) = log_of i (rx_world s)"
  by (rule rx_receive_unchanged) (auto simp: logging_def log_of_def split: prod.splits)

text \<open>A session's state, its packets taken from the common log.\<close>

definition own :: "nat \<Rightarrow> ('w \<times> packet_log) io_server \<Rightarrow> (PacketHeader \<times> byte list) list session_rx option" where
  "own i s = map_option (\<lambda>rx. rx_map (log_of i) (rx\<lparr>rx_world := io_world s\<rparr>)) (io_sessions s i)"

lemma OnBytes_not_crashed:
  assumes "io_ended (OnBytes ops j bs s) = None" and "io_sessions s j = Some rx"
  shows "\<not> crashed (rx_receive (so_handle ops j) bs (rx\<lparr>rx_world := io_world s\<rparr>))"
  using assms by (simp add: OnBytes_def crashed_def Let_def split: rx_status.splits)

lemma own_OnBytes:
  assumes "io_ended (OnBytes (logging ops) j bs s) = None"
  shows "own i (OnBytes (logging ops) j bs s)
    = (if j = i then map_option (rx_receive log_handle bs) (own i s) else own i s)"
proof (cases "io_sessions s j")
  case None
  then show ?thesis by (auto simp: OnBytes_def own_def)
next
  case (Some rx)
  let ?rx = "rx_receive (so_handle (logging ops) j) bs (rx\<lparr>rx_world := io_world s\<rparr>)"
  note live = OnBytes_not_crashed [OF assms Some]
  show ?thesis
  proof (cases "j = i")
    case True
    have "?rx\<lparr>rx_world := rx_world ?rx\<rparr> = ?rx" by simp
    then show ?thesis using Some True live log_receive_own [of ops i bs "rx\<lparr>rx_world := io_world s\<rparr>"]
      by (simp add: OnBytes_def own_def Let_def)
  next
    case False
    then have "log_of i (rx_world ?rx) = log_of i (io_world s)" using live by (simp add: log_receive_other)
    with False Some show ?thesis
      by (cases "io_sessions s i") (auto simp: OnBytes_def own_def Let_def rx_map_def)
  qed
qed

text \<open>
  \<open>follows i B s\<close>: session \<open>i\<close> has done in the server what it would have done alone with the bytes \<open>B\<close>.
\<close>

definition follows :: "nat \<Rightarrow> byte list \<Rightarrow> ('w \<times> packet_log) io_server \<Rightarrow> bool" where
  "follows i B s \<longleftrightarrow>
     (case io_sessions s i of
        None \<Rightarrow> B = [] \<and> log_of i (io_world s) = []
      | Some rx \<Rightarrow> log_of i (io_world s) = rx_world (rx_receive log_handle B (rx_init []))
          \<and> (rx_status rx = Running \<longrightarrow> own i s = Some (rx_receive log_handle B (rx_init []))))"

lemma rx_receive_closed: "rx_status s \<noteq> Running \<Longrightarrow> rx_receive handle bs s = s\<lparr>rx_socket := rx_socket s @ bs\<rparr>"
  by (simp add: rx_receive_def rx_run.simps [of handle] rx_ready_def)

lemma rx_receive_none [simp]: "rx_receive handle [] (rx_init w) = rx_init w"
  using rx_run_init [of handle w] by (simp add: rx_receive_def)

lemma rx_init_simps [simp]:
  "rx_world (rx_init w) = w" "rx_status (rx_init w) = Running" "(rx_init w)\<lparr>rx_world := v\<rparr> = rx_init v"
  "rx_map f (rx_init w) = rx_init (f w)"
  by (simp_all add: rx_init_def rx_map_def)

lemma follows_same:
  assumes "io_sessions s' i = io_sessions s i" and "log_of i (io_world s') = log_of i (io_world s)"
  shows "follows i B s' = follows i B s"
proof -
  have "own i s' = own i s" using assms by (simp add: own_def rx_map_def)
  with assms show ?thesis by (cases "io_sessions s i") (simp_all add: follows_def)
qed

lemma follows_OnAccept:
  assumes "follows i B s" and "io_inv s"
  shows "follows i B (OnAccept (logging ops) err s)"
proof -
  have fresh: "io_sessions s (io_next s - 1) = None"
    using assms(2) by (auto simp: io_inv_def dom_def)
  show ?thesis
  proof (cases "i = io_next s - 1 \<and> \<not> err")
    case True
    with assms fresh show ?thesis
      by (auto simp: follows_def OnAccept_def StartAccept_def logging_def log_of_def own_def io_inv_def Let_def)
  next
    case False
    with assms have "io_sessions (OnAccept (logging ops) err s) i = io_sessions s i"
      and "log_of i (io_world (OnAccept (logging ops) err s)) = log_of i (io_world s)"
      by (auto simp: OnAccept_def StartAccept_def logging_def log_of_def io_inv_def Let_def)
    with assms(1) follows_same show ?thesis by metis
  qed
qed

lemma follows_OnLost:
  assumes "follows i B s"
  shows "follows i B (OnLost (logging ops) j s)"
proof (cases "j = i")
  case True
  with assms show ?thesis
    by (auto simp: follows_def OnLost_def logging_def log_of_def OnHeaderRead_def rx_Close_def
        split: option.splits if_splits)
next
  case False
  then have "io_sessions (OnLost (logging ops) j s) i = io_sessions s i"
    and "log_of i (io_world (OnLost (logging ops) j s)) = log_of i (io_world s)"
    by (auto simp: OnLost_def logging_def log_of_def split: option.splits)
  with assms follows_same show ?thesis by metis
qed

lemma follows_OnBytes:
  assumes "follows i B s" and "io_ended (OnBytes (logging ops) j bs s) = None"
  shows "follows i (B @ reached1 i (Bytes j bs) s) (OnBytes (logging ops) j bs s)"
proof -
  let ?s = "OnBytes (logging ops) j bs s"
  note O = own_OnBytes [OF assms(2), of i]
  show ?thesis
  proof (cases "io_sessions s i")
    case None
    then have "own i ?s = None" using O by (auto simp: own_def)
    then have "io_sessions ?s i = None" by (simp add: own_def)
    moreover have "log_of i (io_world ?s) = log_of i (io_world s)"
      using None by (cases "j = i")
        (auto simp: OnBytes_def Let_def log_receive_other dest: OnBytes_not_crashed [OF assms(2)] split: option.splits)
    ultimately show ?thesis using assms(1) None by (simp add: follows_def open_session_def)
  next
    case (Some rx)
    then obtain rx' where rx': "io_sessions ?s i = Some rx'"
      by (cases "io_sessions ?s i") (auto simp: OnBytes_def Let_def split: option.splits if_splits)
    have world: "\<And>r. own i ?s = Some r \<Longrightarrow> log_of i (io_world ?s) = rx_world r"
      by (auto simp: own_def)
    have status: "\<And>r. own i ?s = Some r \<Longrightarrow> rx_status rx' = rx_status r"
      using rx' by (auto simp: own_def)
    show ?thesis
    proof (cases "j = i \<and> rx_status rx = Running")
      case True
      then have "own i ?s = Some (rx_receive log_handle (B @ bs) (rx_init []))"
        using O assms(1) Some by (simp add: follows_def rx_receive_append)
      with rx' world True Some show ?thesis by (simp add: follows_def open_session_def)
    next
      case False
      obtain r where r: "own i s = Some r" "rx_world r = log_of i (io_world s)" "rx_status r = rx_status rx"
        using Some by (simp add: own_def)
      obtain r' where r': "own i ?s = Some r'" "rx_world r' = log_of i (io_world ?s)" "rx_status r' = rx_status rx'"
        using rx' by (simp add: own_def)
      have "r' = r \<or> rx_status r \<noteq> Running \<and> r' = r\<lparr>rx_socket := rx_socket r @ bs\<rparr>"
        using O False r r' by (cases "j = i") (auto simp: rx_receive_closed)
      then have "log_of i (io_world ?s) = log_of i (io_world s)
          \<and> (rx_status rx' = Running \<longrightarrow> own i ?s = own i s \<and> rx_status rx = Running)"
        using r r' by auto
      with False assms(1) Some rx' show ?thesis by (auto simp: follows_def open_session_def)
    qed
  qed
qed

lemma io_ended_step: "io_ended (io_step ops ev s) = None \<Longrightarrow> io_ended s = None"
  by (cases ev) (auto split: if_splits)

lemma io_ended_fold: "io_ended (fold (io_step ops) evs s) = None \<Longrightarrow> io_ended s = None"
  by (induction evs arbitrary: s) (auto dest: io_ended_step)

lemma follows_fold:
  "follows i B s \<Longrightarrow> io_inv s \<Longrightarrow> io_ended (fold (io_step (logging ops)) evs s) = None \<Longrightarrow>
   follows i (B @ reached (logging ops) i evs s) (fold (io_step (logging ops)) evs s)"
proof (induction evs arbitrary: B s)
  case (Cons ev evs)
  let ?s = "io_step (logging ops) ev s"
  have "io_ended ?s = None" using Cons.prems(3) io_ended_fold by auto
  moreover from this have "io_ended s = None" by (rule io_ended_step)
  ultimately have "follows i (B @ reached1 i ev s) ?s"
    using Cons.prems(1,2)
    by (cases ev) (simp_all add: follows_OnAccept follows_OnLost follows_OnBytes del: reached1.simps(1))
  from Cons.IH [OF this io_step_inv [OF Cons.prems(2)]] Cons.prems(3) show ?case by simp
qed simp

lemma follows_init: "follows i [] (io_init (w, []))"
  by (simp add: follows_def io_init_def StartAccept_def log_of_def)

text \<open>
  C8: connections do not mix.  Whatever the interleaving of connections, arriving bytes and losses,
  and whatever the server's handlers do with its state, the packets a server hands to the handler of
  a connection are exactly those of the bytes that this connection received while it was open,
  framed as if it were alone; they are handled in order and each once.
\<close>

theorem sessions_independent:
  assumes "io_ended (io_run (logging ops) evs (w, [])) = None"
  shows "log_of i (io_world (io_run (logging ops) evs (w, [])))
    = rx_world (rx_receive log_handle (reached (logging ops) i evs (io_init (w, []))) (rx_init []))"
proof -
  let ?B = "reached (logging ops) i evs (io_init (w, []))" and ?s = "io_run (logging ops) evs (w, [])"
  have "follows i ?B ?s"
    using follows_fold [OF follows_init io_inv_init] assms by (simp add: io_run_def)
  then show ?thesis by (cases "io_sessions ?s i") (simp_all add: follows_def)
qed

text \<open>
  A server that runs is ready for the next client.  In every state a server reaches, a session
  waits for the next connection, and no event has happened to it yet; a failed accept only replaces it.
\<close>

lemma server_always_accepting:
  "\<exists>session. io_waiting (io_run ops evs w) = Some session \<and> io_sessions (io_run ops evs w) session = None"
proof -
  have "io_inv (io_run ops evs w)" unfolding io_run_def by (rule io_fold_inv [OF io_inv_init])
  then show ?thesis by (fastforce simp: io_inv_def dom_def)
qed

lemma io_ended_stays: "io_ended s \<noteq> None \<Longrightarrow> fold (io_step ops) evs s = s"
proof (induction evs)
  case (Cons ev evs)
  then show ?case by (cases ev) auto
qed simp

text \<open>
  C35: one client stops the server.  Any client can send, as its first bytes, a header whose length is
  negative: the exception leaves the server's only event loop, and from then on no event of any
  connection changes anything.
\<close>

theorem one_client_stops_server:
  assumes "io_ended (io_run ops evs w) = None" and "io_sessions (io_run ops evs w) i = Some (rx_init v)"
    and "sint len < 0"
  shows "io_ended (io_run ops (evs @ [Bytes i (header_bytes \<lparr>Length = len, Code = code\<rparr> @ rest)]) w)
      = Some (StdException ''length_error'')
    \<and> io_run ops (evs @ Bytes i (header_bytes \<lparr>Length = len, Code = code\<rparr> @ rest) # evs') w
      = io_run ops (evs @ [Bytes i (header_bytes \<lparr>Length = len, Code = code\<rparr> @ rest)]) w"
proof -
  let ?bs = "header_bytes \<lparr>Length = len, Code = code\<rparr> @ rest"
  let ?s = "io_step ops (Bytes i ?bs) (io_run ops evs w)"
  have s: "io_run ops (evs @ [Bytes i ?bs]) w = ?s" by (simp add: io_run_def)
  have ended: "io_ended (io_run ops (evs @ [Bytes i ?bs]) w) = Some (StdException ''length_error'')"
    unfolding s using assms(1,2) by (simp add: OnBytes_def Let_def negative_length [OF assms(3)])
  moreover have "io_run ops (evs @ Bytes i ?bs # evs') w = io_run ops (evs @ [Bytes i ?bs]) w"
    using io_ended_stays [of "io_run ops (evs @ [Bytes i ?bs]) w" ops evs'] ended by (simp add: io_run_def)
  ultimately show ?thesis ..
qed

section \<open>Witnesses\<close>

theorem sessions_independent_witness:
  "log_of 1 (io_world (io_run (logging (plain_ops (\<lambda>session h body w. (None, w + length body))))
      [Accepted False, Accepted False, Bytes 0 [1, 0], Bytes 1 [1, 0, 7, 0], Bytes 0 [9, 0, 65], Bytes 1 [66]] (0, [])))
   = [(\<lparr>Length = 1, Code = 7\<rparr>, [66])]"
proof -
  let ?ops = "plain_ops (\<lambda>session (h :: PacketHeader) (body :: byte list) (w :: nat). (None :: exn option, w + length body))"
  let ?evs = "[Accepted False, Accepted False, Bytes 0 [1, 0], Bytes 1 [1, 0, 7, 0], Bytes 0 [9, 0, 65], Bytes 1 [66 :: byte]]"
  have "io_ended (io_run (logging ?ops) ?evs (0, [])) = None" by code_simp
  moreover have "reached (logging ?ops) 1 ?evs (io_init (0, [])) = [1, 0, 7, 0, 66]" by code_simp
  moreover have "rx_world (rx_receive log_handle [1, 0, 7, 0, 66] (rx_init [])) = [(\<lparr>Length = 1, Code = 7\<rparr>, [66])]"
    by code_simp
  ultimately show ?thesis using sessions_independent [of ?ops ?evs 0 1] by (simp only:)
qed

theorem one_client_stops_server_witness:
  "io_ended (io_run (plain_ops (\<lambda>session h body w. (None, w))) [Accepted False, Bytes 0 [255, 255, 0, 0]] ())
   = Some (StdException ''length_error'')"
proof -
  let ?ops = "plain_ops (\<lambda>session (h :: PacketHeader) (body :: byte list) (w :: unit). (None :: exn option, w))"
  have "io_ended (io_run ?ops [Accepted False] ()) = None"
    and "io_sessions (io_run ?ops [Accepted False] ()) 0 = Some (rx_init ())"
    by (simp_all add: io_run_def io_init_def StartAccept_def OnAccept_def plain_ops_def)
  note O = one_client_stops_server [OF this, of "-1" 0 "[]"]
  have "header_bytes \<lparr>Length = -1, Code = 0\<rparr> @ [] = [255, 255, 0, 0]" by code_simp
  with O show ?thesis by simp
qed

end
