(* ===== verification/ServerInvariant.thy ===== *)
theory ServerInvariant
  imports Server
begin

text \<open>
  Invariants of a server's state, for any server: what registering, closing and the handlers of the
  packets keep holds in every state its event loop reaches.  The login server's instance is
  \<open>LoginState\<close>; \<open>GameInvariant\<close> adds the game server's second thread.
\<close>

section \<open>Processes\<close>

text \<open>\<open>while_up P p\<close>: as long as the process is \<open>Up\<close>, its state satisfies \<open>P\<close>.\<close>

fun while_up :: "('w \<Rightarrow> bool) \<Rightarrow> 'w server_process \<Rightarrow> bool" where
  "while_up P (Up w) = P w"
| "while_up P p = True"

text \<open>A process that is not \<open>Up\<close> stays so.\<close>

fun is_up :: "'w server_process \<Rightarrow> bool" where
  "is_up (Up w) = True"
| "is_up p = False"

lemma serve_down: "\<not> is_up p \<Longrightarrow> \<not> is_up (snd (serve entries h body p))"
  by (cases p) (simp_all add: serve_def)

text \<open>Between packets and inside one; without a crash an open session stays open.\<close>

definition at_read :: "'w session_rx \<Rightarrow> bool" where
  "at_read s \<longleftrightarrow> (rx_pending s = ReadHeader \<longrightarrow> rx_offset s = 0)"

lemma rx_complete_open:
  assumes "at_read s" and "rx_ready s"
  shows "crashed (rx_complete handle s) \<or> at_read (rx_complete handle s) \<and> rx_status (rx_complete handle s) = Running"
proof -
  have "ParseHeader (take HeaderBufferSize (rx_socket s)) 0 \<noteq> None" if "HeaderBufferSize \<le> length (rx_socket s)"
    using that by (simp add: ParseHeader_def HeaderBufferSize_def sizeof_PacketHeader_def Let_def)
  with assms show ?thesis
    by (auto simp: at_read_def crashed_def rx_ready_def rx_complete_def pending_bytes_def Let_def OnHeaderRead_def
        OnBodyRead_def AsyncHeaderRead_def AsyncBodyRead_def split: read_op.splits option.splits prod.splits)
qed

lemma rx_run_open:
  "at_read s \<Longrightarrow> \<not> crashed (rx_run handle s) \<Longrightarrow>
   at_read (rx_run handle s) \<and> rx_status (rx_run handle s) = rx_status s"
proof (induction handle s rule: rx_run.induct)
  case (1 handle s)
  show ?case
  proof (cases "rx_ready s")
    case True
    then have run: "rx_run handle s = rx_run handle (rx_complete handle s)" by (simp add: rx_run.simps [of handle s])
    with "1.prems"(2) crashed_run have "\<not> crashed (rx_complete handle s)" by metis
    with 1 True run rx_complete_open [OF "1.prems"(1) True, of handle] show ?thesis
      by (simp add: rx_ready_def)
  next
    case False
    with "1.prems"(1) show ?thesis by (simp add: rx_run.simps [of handle s])
  qed
qed

lemma rx_receive_open:
  assumes "at_read s" and "\<not> crashed (rx_receive handle bs s)"
  shows "at_read (rx_receive handle bs s)" and "rx_status (rx_receive handle bs s) = rx_status s"
  using rx_run_open [of "s\<lparr>rx_socket := rx_socket s @ bs\<rparr>" handle] assms
  by (simp_all add: rx_receive_def at_read_def)

text \<open>What a handler keeps, its entry in the table keeps.\<close>

lemma dispatch_keeps:
  "A (Up w) \<Longrightarrow> (\<And>pkt. A (snd (func pkt (Up w)))) \<Longrightarrow> A (snd (DispatchPacket M func body (Up w)))"
  by (auto simp: DispatchPacket_def split: option.splits)

section \<open>The interface\<close>

locale server_invariant =
  fixes ops :: "'w server_process server_ops" and ok :: "'w \<Rightarrow> bool"
  assumes register: "while_up ok p \<Longrightarrow> while_up ok (so_register ops i p)"
    and close: "while_up ok p \<Longrightarrow> while_up ok (so_close ops i p)"
    and handle: "while_up ok p \<Longrightarrow> while_up ok (snd (so_handle ops i h b p))"
begin

lemma step: "while_up ok (io_world s) \<Longrightarrow> while_up ok (io_world (io_step ops ev s))"
  by (rule io_step_keeps [where P = "while_up ok"]) (simp_all add: register close handle)

lemma run: "while_up ok (io_world s) \<Longrightarrow> while_up ok (io_world (fold (io_step ops) evs s))"
  by (induction evs arbitrary: s) (simp_all add: step)

lemma reachable: "while_up ok p \<Longrightarrow> while_up ok (io_world (io_run ops evs p))"
  unfolding io_run_def by (rule run) (simp add: io_init_def StartAccept_def)

end

section \<open>A packet between others\<close>

text \<open>A session between two packets handles the bytes of one message like a new session.\<close>

lemma serve_one_at:
  assumes "distinct (map fst entries)"
    and "map_of entries (nat (sint code)) = Some (DispatchPacket M func)" and "0 \<le> sint code"
    and "sendable M m" and "at_header s" and "rx_socket s = []" and "rx_world s = Up w"
    and "snd (func m (Up w)) = Up w'"
  shows "rx_world (rx_receive (serve (Init_table bad entries)) (SendPacket M m code) s) = Up w'
    \<and> at_header (rx_receive (serve (Init_table bad entries)) (SendPacket M m code) s)
    \<and> rx_socket (rx_receive (serve (Init_table bad entries)) (SendPacket M m code) s) = []"
proof -
  let ?handle = "serve (Init_table bad entries)"
  obtain bs where bs: "SendPacket M m code = frame (code, bs)" "frameable (code, bs)"
    "Parse M bs (length bs) 4 = Some (m, 4 + ByteSizeLong M m)"
    by (rule SendPacket_frame_sendable [OF assms(4)])
  have "?handle (frame_header (code, bs)) bs (Up w) = (None, Up w')"
    using serve_message [OF assms(1-3) bs(3), of bad w] assms(8) by simp
  then show ?thesis
    using rx_run_frames [of "s\<lparr>rx_socket := frame (code, bs)\<rparr>" "[(code, bs)]" "[]" ?handle "Up w'"] bs assms(5-7)
    by (auto simp: rx_receive_def at_header_def rx_run_short)
qed

text \<open>The bytes of one session, in any pieces, when nothing else happens and nothing throws.\<close>

lemma crashed_receive: "crashed s \<Longrightarrow> crashed (rx_receive handle bs s)"
  using crashed_run [of "s\<lparr>rx_socket := rx_socket s @ bs\<rparr>" handle] by (simp add: rx_receive_def crashed_def)

lemma bytes_fold:
  assumes "io_ended s = None" and "io_sessions s i = Some rx"
    and "rx' = rx_receive (so_handle ops i) (concat chunks) (rx\<lparr>rx_world := io_world s\<rparr>)" and "\<not> crashed rx'"
    and "chunks \<noteq> []"
  shows "fold (io_step ops) (map (Bytes i) chunks) s
    = s\<lparr>io_sessions := (io_sessions s)(i \<mapsto> rx'), io_world := rx_world rx'\<rparr>"
  using assms
proof (induction chunks arbitrary: s rx)
  case (Cons bs chunks)
  let ?rx = "rx_receive (so_handle ops i) bs (rx\<lparr>rx_world := io_world s\<rparr>)"
  let ?s = "s\<lparr>io_sessions := (io_sessions s)(i \<mapsto> ?rx), io_world := rx_world ?rx\<rparr>"
  have rx': "rx' = rx_receive (so_handle ops i) (concat chunks) ?rx" using Cons.prems(3) by (simp add: rx_receive_append)
  with Cons.prems(4) crashed_receive have "\<not> crashed ?rx" by metis
  with Cons.prems(1,2) have step: "io_step ops (Bytes i bs) s = ?s"
    by (auto simp: OnBytes_def Let_def crashed_def split: rx_status.splits)
  show ?case
  proof (cases "chunks = []")
    case True
    then have "rx' = ?rx" using rx' by (simp add: rx_receive_append)
    with True step show ?thesis by (simp only: list.map fold_simps)
  next
    case False
    have "fold (io_step ops) (map (Bytes i) chunks) ?s = ?s\<lparr>io_sessions := (io_sessions ?s)(i \<mapsto> rx'), io_world := rx_world rx'\<rparr>"
      by (rule Cons.IH [of _ ?rx]) (use Cons.prems rx' False in simp_all)
    also have "\<dots> = s\<lparr>io_sessions := (io_sessions s)(i \<mapsto> rx'), io_world := rx_world rx'\<rparr>" by simp
    finally show ?thesis unfolding list.map fold_simps step .
  qed
qed simp

end
