(* ===== verification/LoginState.thy ===== *)
theory LoginState
  imports ServerInvariant
begin

text \<open>
  The login server's database in every state its program reaches: accounts and sessions belong
  together, and nothing that was there is lost.
\<close>

section \<open>Accounts and sessions\<close>

text \<open>Account ids are distinct and used up; every session is one of an account.\<close>

definition accounts_ok :: "autoinc \<Rightarrow> db \<Rightarrow> bool" where
  "accounts_ok ai d \<longleftrightarrow>
     (let ids = map ac_account_id (accounts d)
      in distinct ids \<and> (\<forall>k \<in> set ids. k < next_account_id ai)
        \<and> (\<forall>se \<in> set (sessions d). \<exists>k \<in> set ids. se_account_id se = sint (getInt k)))"

definition credentials :: "account \<Rightarrow> int \<times> string \<times> string \<times> bool" where
  "credentials a = (ac_account_id a, ac_user_id a, ac_user_password a, ac_is_active a)"

text \<open>Accounts and sessions are only ever added; an account keeps its id, name, password and state.\<close>

definition grows :: "db \<Rightarrow> db \<Rightarrow> bool" where
  "grows d0 d \<longleftrightarrow> (\<exists>new. map credentials (accounts d) = map credentials (accounts d0) @ new)
     \<and> (\<exists>new. sessions d = sessions d0 @ new)"

lemma grows_refl [simp]: "grows d d"
  by (simp add: grows_def)

lemma grows_trans: "grows d0 d1 \<Longrightarrow> grows d1 d2 \<Longrightarrow> grows d0 d2"
  by (fastforce simp: grows_def)

text \<open>What each request does to the tables.\<close>

lemma session_added:
  assumes "accounts_ok ai d" and "account_of same_text uid d = Some a"
  shows "accounts_ok ai (d\<lparr>sessions := sessions d @ [new_session (getInt (ac_account_id a)) token now]\<rparr>)
    \<and> grows d (d\<lparr>sessions := sessions d @ [new_session (getInt (ac_account_id a)) token now]\<rparr>)"
  using assms account_of_Some [OF assms(2)] by (auto simp: accounts_ok_def grows_def new_session_def Let_def)

lemma login_time_updated:
  assumes "accounts_ok ai d"
  shows "accounts_ok ai (d\<lparr>accounts := map (\<lambda>a. if P a then a\<lparr>ac_last_login := t\<rparr> else a) (accounts d)\<rparr>)
    \<and> grows d (d\<lparr>accounts := map (\<lambda>a. if P a then a\<lparr>ac_last_login := t\<rparr> else a) (accounts d)\<rparr>)"
proof -
  have "ac_account_id \<circ> (\<lambda>a. if P a then a\<lparr>ac_last_login := t\<rparr> else a) = ac_account_id"
    and "credentials \<circ> (\<lambda>a. if P a then a\<lparr>ac_last_login := t\<rparr> else a) = credentials"
    by (auto simp: credentials_def)
  with assms show ?thesis unfolding accounts_ok_def grows_def by simp
qed

lemma login_outcome_ok:
  assumes "accounts_ok ai d" and "login_outcome same_text validatePassword rd uid pw clock d r d'"
  shows "accounts_ok ai d' \<and> grows d d'"
proof -
  consider (same) "d' = d"
    | (opened) a token now where "account_of same_text uid d = Some a"
        "d' = d\<lparr>sessions := sessions d @ [new_session (getInt (ac_account_id a)) token now]\<rparr>"
    | (full) a token now now' where "account_of same_text uid d = Some a"
        "d' = login_effect same_text uid (getInt (ac_account_id a)) token now now' d"
    using assms(2) by (auto simp: login_outcome_def Let_def split: sum.splits)
  then show ?thesis
  proof cases
    case opened
    with session_added [OF assms(1)] show ?thesis by simp
  next
    case full
    let ?d = "d\<lparr>sessions := sessions d @ [new_session (getInt (ac_account_id a)) token now]\<rparr>"
    have d: "accounts_ok ai ?d" "grows d ?d" using session_added [OF assms(1) full(1)] by simp_all
    have "d' = ?d\<lparr>accounts := map (\<lambda>a. if same_text (ac_user_id a) uid then a\<lparr>ac_last_login := Some now'\<rparr> else a) (accounts ?d)\<rparr>"
      by (simp add: full(2) login_effect_def)
    with login_time_updated [OF d(1)] grows_trans [OF d(2)] show ?thesis by simp
  qed (simp add: assms(1))
qed

lemma account_added:
  assumes "accounts_ok ai d" and "k = next_account_id ai" and "next_account_id ai' = k + 1"
  shows "accounts_ok ai' (d\<lparr>accounts := accounts d @ [new_account k uid hash now]\<rparr>)
    \<and> grows d (d\<lparr>accounts := accounts d @ [new_account k uid hash now]\<rparr>)"
  using assms by (auto simp: accounts_ok_def grows_def new_account_def Let_def dest: bspec)

section \<open>The handlers\<close>

text \<open>BCrypt refuses the empty hash, which \<open>TrySignIn\<close> checks when there is no account.\<close>

definition login_ok :: "login_env \<Rightarrow> db \<Rightarrow> login_world \<Rightarrow> bool" where
  "login_ok E d0 w \<longleftrightarrow> (\<forall>pw. \<not> le_validatePassword E pw []) \<longrightarrow>
     server_inv (lw_db w) \<and> accounts_ok (ds_autoinc (lw_db w)) (ds_tables (lw_db w)) \<and> grows d0 (ds_tables (lw_db w))"

lemma login_ok_on_db:
  assumes "login_ok E d0 w"
    and "\<And>pkts ok d. \<lbrakk>\<forall>pw. \<not> le_validatePassword E pw []; server_inv (lw_db w);
        accounts_ok (ds_autoinc (lw_db w)) (ds_tables (lw_db w)); f (lw_db w) = Some (Inr (ok, pkts), d)\<rbrakk>
      \<Longrightarrow> server_inv d \<and> accounts_ok (ds_autoinc d) (ds_tables d) \<and> grows (ds_tables (lw_db w)) (ds_tables d)"
  shows "while_up (login_ok E d0) (snd (on_db C session f (Up w)))"
proof -
  have db: "lw_db (fold (LoginSession_SendPacket C session) pkts v) = lw_db v" for pkts v
    by (induction pkts arbitrary: v) (simp_all add: LoginSession_SendPacket_def)
  show ?thesis
    using assms grows_trans
    by (fastforce simp: on_db_def login_ok_def db split: option.splits prod.splits sum.splits)
qed

lemma login_entry_ok:
  assumes "(code, h) \<in> set (LoginPacketHandler_entries C E session)" and w: "login_ok E d0 w"
  shows "while_up (login_ok E d0) (snd (h body (Up w)))"
proof -
  let ?ok = "\<lambda>p. while_up (login_ok E d0) p"
  have "?ok (snd (on_db C session (Handle_REQ_LOGIN (le_same_text E) (le_validatePassword E) (le_rd E)
      (le_create E) uid pw) (Up w)))" for uid pw
  proof (rule login_ok_on_db [OF w])
    fix pkts ok d
    assume no: "\<forall>pw. \<not> le_validatePassword E pw []" and inv: "server_inv (lw_db w)"
      and acc: "accounts_ok (ds_autoinc (lw_db w)) (ds_tables (lw_db w))"
      and run: "Handle_REQ_LOGIN (le_same_text E) (le_validatePassword E) (le_rd E) (le_create E) uid pw (lw_db w)
        = Some (Inr (ok, pkts), d)"
    from login_reply [OF run] obtain acct token where
      "TrySignIn (le_same_text E) (le_validatePassword E) (le_rd E) (le_create E) uid pw (lw_db w) = Some (Inr (acct, token), d)"
      by blast
    note T = TrySignIn_outcome [OF inv no [rule_format] this]
    with login_outcome_ok [OF acc] show "server_inv d \<and> accounts_ok (ds_autoinc d) (ds_tables d)
        \<and> grows (ds_tables (lw_db w)) (ds_tables d)" by fastforce
  qed
  moreover have "?ok (snd (on_db C session (Some \<circ> Handle_REQ_CHECK_ID (le_same_text E) (le_create E) uid) (Up w)))" for uid
  proof (rule login_ok_on_db [OF w])
    fix pkts ok d
    assume inv: "server_inv (lw_db w)" and acc: "accounts_ok (ds_autoinc (lw_db w)) (ds_tables (lw_db w))"
      and run: "(Some \<circ> Handle_REQ_CHECK_ID (le_same_text E) (le_create E) uid) (lw_db w) = Some (Inr (ok, pkts), d)"
    have "read_only (bindM (executeQuery (Query_CheckID (le_same_text E)) [ArgString uid]) (\<lambda>rows.
      bindM (db_step OpFetch) (\<lambda>_. returnM (rows \<noteq> []))))"
      by (intro read_only_bindM read_only_executeQuery read_only_db_step read_only_returnM well_bound_login)
    from with_conn_read_only [OF inv _ this] run acc
    show "server_inv d \<and> accounts_ok (ds_autoinc d) (ds_tables d) \<and> grows (ds_tables (lw_db w)) (ds_tables d)"
      by (fastforce simp: Handle_REQ_CHECK_ID_def TryCheckID_def bindM_def [of "with_conn _ _"] returnM_def
          split: sum.splits prod.splits)
  qed
  moreover have "?ok (snd (on_db C session (Some \<circ> Handle_REQ_JOIN (le_generateHash E) (le_create E) uid pw) (Up w)))" for uid pw
  proof (rule login_ok_on_db [OF w])
    fix pkts ok d
    assume inv: "server_inv (lw_db w)" and acc: "accounts_ok (ds_autoinc (lw_db w)) (ds_tables (lw_db w))"
      and run: "(Some \<circ> Handle_REQ_JOIN (le_generateHash E) (le_create E) uid pw) (lw_db w) = Some (Inr (ok, pkts), d)"
    then have "Handle_REQ_JOIN (le_generateHash E) (le_create E) uid pw (lw_db w) = (Inr (ok, pkts), d)" by simp
    from join_outcome [OF inv this] obtain now where "server_inv d"
      and "ds_tables d = (ds_tables (lw_db w))\<lparr>accounts := accounts (ds_tables (lw_db w)) @
        [new_account (next_account_id (ds_autoinc (lw_db w))) uid (le_generateHash E pw 12) now]\<rparr>"
      and "next_account_id (ds_autoinc d) = next_account_id (ds_autoinc (lw_db w)) + 1" by blast
    with account_added [OF acc refl] show "server_inv d \<and> accounts_ok (ds_autoinc d) (ds_tables d)
        \<and> grows (ds_tables (lw_db w)) (ds_tables d)" by simp
  qed
  ultimately have "list_all (\<lambda>(code, h). ?ok (snd (h body (Up w)))) (LoginPacketHandler_entries C E session)"
    unfolding LoginPacketHandler_entries_def list.pred_inject prod.case
    by (intro conjI dispatch_keeps [where A = ?ok] TrueI) (simp_all add: w split: prod.split)
  with assms(1) show ?thesis by (auto simp: list_all_iff)
qed

section \<open>Every reachable state\<close>

interpretation login: server_invariant "plain_ops (LoginSession_HandlePacket C E)" "login_ok E d0" for C E d0
proof
  show "while_up (login_ok E d0) (snd (so_handle (plain_ops (LoginSession_HandlePacket C E)) i h b p))"
    if "while_up (login_ok E d0) p" for p i h b
    unfolding plain_ops_def server_ops.simps LoginSession_HandlePacket_def LoginPacketHandler_HandlePacket_def
      LoginPacketHandler_Init_def
    by (rule serve_keeps [where P = "while_up (login_ok E d0)", OF login_entries _ _ _ that])
      (simp_all add: login_entry_ok Handle_Login_INVALID_def)
qed (simp_all add: plain_ops_def)

text \<open>
  C26: the login server keeps its accounts.  Started on connections with autocommit on and consistent
  tables, it keeps, whatever clients send, however their bytes arrive and whatever calls to the
  database fail: the ids of accounts are distinct, every session (and so every token the game server
  accepts) is one of an existing account, no account or session is ever lost, and no account changes
  its id, its name, its password or its state.
\<close>

theorem login_state_well_formed:
  assumes "LoginServer_main C E db evs = Inr s" and "io_world s = Up w"
    and "\<forall>i. cn_autocommit (ds_conns db i)" and "accounts_ok (ds_autoinc db) (ds_tables db)"
    and "\<forall>pw. \<not> le_validatePassword E pw []"
  shows "server_inv (lw_db w) \<and> accounts_ok (ds_autoinc (lw_db w)) (ds_tables (lw_db w))
    \<and> grows (ds_tables db) (ds_tables (lw_db w))"
proof -
  obtain p where p: "Init (le_create E) 10 = Inr p"
    and s: "s = io_run (plain_ops (LoginSession_HandlePacket C E)) evs (Up \<lparr>lw_db = db\<lparr>ds_pool := p\<rparr>, lw_tx = (\<lambda>_. tx_init)\<rparr>)"
    using assms(1) by (auto simp: LoginServer_main_def split: sum.splits)
  have "server_inv (db\<lparr>ds_pool := p\<rparr>)" using Init_full [OF p] assms(3) by (simp add: server_inv_def)
  then have "while_up (login_ok E (ds_tables db)) (io_world s)"
    unfolding s using assms(4) by (intro login.reachable) (simp add: login_ok_def)
  with assms(2,5) show ?thesis by (simp add: login_ok_def)
qed

definition account_demo :: "(nat \<Rightarrow> dbop \<Rightarrow> int option) \<Rightarrow> db_server" where
  "account_demo fault = (login_demo fault)\<lparr>ds_autoinc := (ds_autoinc (login_demo fault))\<lparr>next_account_id := 8\<rparr>\<rparr>"

theorem login_state_well_formed_witness:
  "\<exists>s w. LoginServer_main demo_login_classes demo_login_env (account_demo duplicate_token)
       [Accepted False, Accepted True, Lost 0] = Inr s
     \<and> io_world s = Up w \<and> accounts_ok (ds_autoinc (lw_db w)) (ds_tables (lw_db w))
     \<and> map credentials (accounts (ds_tables (lw_db w))) \<noteq> []"
proof -
  let ?db = "account_demo duplicate_token" and ?evs = "[Accepted False, Accepted True, Lost 0]"
  obtain p where p: "Init (\<lambda>_. None) 10 = Inr p" using Init_all by blast
  define s where "s = io_run (plain_ops (LoginSession_HandlePacket demo_login_classes demo_login_env)) ?evs
    (Up \<lparr>lw_db = ?db\<lparr>ds_pool := p\<rparr>, lw_tx = (\<lambda>_. tx_init)\<rparr>)"
  have main: "LoginServer_main demo_login_classes demo_login_env ?db ?evs = Inr s"
    using p by (simp add: LoginServer_main_def s_def demo_login_env_def)
  obtain w where w: "io_world s = Up w"
    by (simp add: s_def io_run_def io_init_def StartAccept_def OnAccept_def OnLost_def plain_ops_def Let_def)
  have "\<forall>i. cn_autocommit (ds_conns ?db i)" and "accounts_ok (ds_autoinc ?db) (ds_tables ?db)"
    and "accounts (ds_tables ?db) \<noteq> []" and "\<forall>pw. \<not> le_validatePassword demo_login_env pw []"
    by (simp_all add: account_demo_def login_demo_def lobby_demo_def demo_accounts_def empty_db_def accounts_ok_def demo_login_env_def demo_validate_def
        demo_conn_def)
  with login_state_well_formed [OF main w] main w show ?thesis by (auto simp: grows_def)
qed

end
