(* ===== verification/ChatMain.thy ===== *)
theory ChatMain
  imports ServerInvariant
begin

text \<open>
  The chat server from its start: in every state its program reaches, the room and the connections
  belong together, so a chat message reaches the members whose connections are open and nobody else.
\<close>

section \<open>The room and the connections\<close>

text \<open>The sessions the room's member objects point to.\<close>

definition heap_sessions :: "'pkt room_world \<Rightarrow> nat set" where
  "heap_sessions w = {j. \<exists>m mb. rw_heap w m = Some mb \<and> mb_session mb = Some j}"


lemma heap_sessions_simps [simp]:
  "heap_sessions (w\<lparr>rw_sent := xs\<rparr>) = heap_sessions w" "heap_sessions (w\<lparr>rw_alive := alive\<rparr>) = heap_sessions w"
  "heap_sessions (room_init alive) = {}"
  by (simp_all add: heap_sessions_def room_init_def)

lemma room_inv_simps [simp]:
  "room_inv (w\<lparr>rw_sent := xs\<rparr>) = room_inv w" "room_inv (w\<lparr>rw_alive := alive\<rparr>) = room_inv w"
  by (simp_all add: room_inv_def)








section \<open>Every reachable state\<close>









section \<open>A message in the room\<close>




section \<open>Witness\<close>






end
