(* ===== verification/AuctionLink.thy ===== *)
theory AuctionLink
  imports GameServer
begin

text \<open>
  The game server's connection to the auction server (\<^verbatim>\<open>AuctionSession.cpp\<close>): \<open>Connect\<close>,
  its completion \<open>OnConnect\<close>, and \<open>Disconnect\<close>.  \<open>al_rx\<close> is the receiving session over the game
  server's state; its first read starts when the connection is made.
\<close>

record auction_link =
  al_connected :: bool
  al_open :: bool
  al_connecting :: "(string \<times> int) option"
  al_reading :: bool
  al_rx :: "game_world server_process session_rx"

definition AuctionSession :: "game_world server_process \<Rightarrow> auction_link" where
  "AuctionSession p =
     \<lparr>al_connected = False, al_open = False, al_connecting = None, al_reading = False, al_rx = rx_init p\<rparr>"

text \<open>\<open>async_connect\<close> opens the socket and leaves the connection to the completion handler.\<close>

definition AuctionSession_Connect :: "string \<Rightarrow> int \<Rightarrow> auction_link \<Rightarrow> auction_link" where
  "AuctionSession_Connect host port l = l\<lparr>al_open := True, al_connecting := Some (host, port)\<rparr>"

definition AuctionSession_Disconnect :: "auction_link \<Rightarrow> auction_link" where
  "AuctionSession_Disconnect l =
     (let was = al_connected l; l1 = l\<lparr>al_connected := False\<rparr>
      in if was = False then l1 else l1\<lparr>al_open := False\<rparr>)"

fun refresh_on_connect :: "int \<Rightarrow> game_world server_process \<Rightarrow> game_world server_process" where
  "refresh_on_connect now (Up w) = Up (w\<lparr>gw_game := (gw_game w)\<lparr>gs_cache :=
      RequestRefresh (gs_auction (gw_game w) \<noteq> None) now (gs_cache (gw_game w))\<rparr>\<rparr>)"
| "refresh_on_connect now p = p"

definition AuctionSession_OnConnect :: "int \<Rightarrow> bool \<Rightarrow> auction_link \<Rightarrow> auction_link" where
  "AuctionSession_OnConnect now err l =
     (if \<not> err then l\<lparr>al_connecting := None, al_reading := True,
        al_rx := AsyncHeaderRead ((al_rx l)\<lparr>rx_world := refresh_on_connect now (rx_world (al_rx l))\<rparr>)\<rparr>
      else l\<lparr>al_connecting := None\<rparr>)"

datatype link_op = ConnectTo string int | ConnectDone int bool | DisconnectNow

fun link_step :: "link_op \<Rightarrow> auction_link \<Rightarrow> auction_link" where
  "link_step (ConnectTo host port) l = AuctionSession_Connect host port l"
| "link_step (ConnectDone now err) l = (if al_connecting l = None then l else AuctionSession_OnConnect now err l)"
| "link_step DisconnectNow l = AuctionSession_Disconnect l"

section \<open>The connection once made\<close>

text \<open>
  When the first connection is made, the game server asks the auction server for its list, with the
  cache's session id and request id 1, and reads with the handlers of \<open>AuctionServerPacketHandler\<close>.
\<close>

lemma connect_refreshes:
  assumes "gs_cache (gw_game w) = cache_Init AuctionCache" and "gs_auction (gw_game w) \<noteq> None"
  shows "\<exists>w'. rx_world (al_rx (fold link_step [ConnectTo host port, ConnectDone now False] (AuctionSession (Up w)))) = Up w'
    \<and> ca_inFlight (gs_cache (gw_game w'))
    \<and> ca_sent (gs_cache (gw_game w')) = [\<lparr>sral_session_id = kCacheSessionId, sral_request_id = 1,
        sral_player_id = 0, sral_search_item = [], sral_mylist = False\<rparr>]
    \<and> at_header (al_rx (fold link_step [ConnectTo host port, ConnectDone now False] (AuctionSession (Up w))))"
  using assms
  by (simp add: AuctionSession_def AuctionSession_Connect_def AuctionSession_OnConnect_def AsyncHeaderRead_def
      rx_init_def at_header_def RequestRefresh_def Let_def cache_Init_def AuctionCache_def)

lemma link_never_connected: "\<not> al_connected l \<Longrightarrow> \<not> al_connected (fold link_step ops l)"
proof (induction ops arbitrary: l)
  case (Cons op ops)
  then show ?case
    by (cases op) (auto simp: AuctionSession_Connect_def AuctionSession_OnConnect_def AuctionSession_Disconnect_def Let_def)
qed simp

text \<open>
  \<open>Disconnect\<close> never closes the connection: nothing sets \<open>_connected\<close>, so after any use of the
  session it returns at its first line.
\<close>

lemma disconnect_does_nothing:
  "AuctionSession_Disconnect (fold link_step ops (AuctionSession p)) = fold link_step ops (AuctionSession p)"
proof -
  have "\<not> al_connected (fold link_step ops (AuctionSession p))"
    by (rule link_never_connected) (simp add: AuctionSession_def)
  then show ?thesis by (simp add: AuctionSession_Disconnect_def Let_def)
qed

end
