(* ===== verification/AuctionMain.thy ===== *)
theory AuctionMain
  imports Server
begin

text \<open>
  The auction server from start to end (\<open>main\<close> of \<^verbatim>\<open>AuctionServer.cpp\<close>): the connection pool, the
  worker pool over it, the event loop of the one network thread with the workers running beside it,
  and the clean-up that follows the loop, also when an exception ended it.
\<close>

section \<open>The program\<close>






section \<open>The handlers only post\<close>

text \<open>The pool after some posted tasks and some run ones, unless the behaviour is undefined.\<close>

definition pool_run ::
  "(auction_task \<Rightarrow> (worker_io, unit) xm) \<Rightarrow> 'p auction_server \<Rightarrow> 'p auction_server server_process \<Rightarrow> bool" where
  "pool_run exec srv p \<longleftrightarrow> p = Undefined \<or> (\<exists>es. p = Up (wp_run exec es srv))"

lemma pool_run_Undefined [simp]: "pool_run exec srv Undefined"
  by (simp add: pool_run_def)






section \<open>Start to end\<close>



end
