(* ===== verification/GameMain.thy ===== *)
theory GameMain
  imports ServerInvariant AuctionLink
begin

text \<open>
  The game server from start to end (\<open>main\<close> of \<^verbatim>\<open>GameServer.cpp\<close>): the network thread with its
  clients, and beside it the auction thread with the connection to the auction server and the cache's
  timers.  The two threads share the server's state; each completion handler of either is one step.
\<close>

section \<open>The program\<close>

text \<open>The cache's timers on the auction thread: a wait falls due, and its completion runs.\<close>

datatype cache_tick = TimerDue | TimerRun | TimeoutDue | TimeoutRun

fun tick :: "cache_tick \<Rightarrow> int \<Rightarrow> bool \<Rightarrow> auction_cache \<Rightarrow> auction_cache" where
  "tick TimerDue now connected c = (case tm_wait c of
     None \<Rightarrow> c
   | Some t \<Rightarrow> if t \<le> now then c\<lparr>tm_wait := None, tm_ready := Suc (tm_ready c)\<rparr> else c)"
| "tick TimerRun now connected c = (case tm_ready c of
     0 \<Rightarrow> c
   | Suc n \<Rightarrow> OnTimer connected now (c\<lparr>tm_ready := n\<rparr>))"
| "tick TimeoutDue now connected c = (case to_wait c of
     None \<Rightarrow> c
   | Some (t, seq) \<Rightarrow> if t \<le> now then c\<lparr>to_wait := None, to_ready := to_ready c @ [seq]\<rparr> else c)"
| "tick TimeoutRun now connected c = (case to_ready c of
     [] \<Rightarrow> c
   | seq # rest \<Rightarrow> on_timeout_wait now seq (c\<lparr>to_ready := rest\<rparr>))"

fun on_cache :: "(bool \<Rightarrow> auction_cache \<Rightarrow> auction_cache) \<Rightarrow> game_world server_process \<Rightarrow> game_world server_process" where
  "on_cache f (Up w) = Up (w\<lparr>gw_game := (gw_game w)\<lparr>gs_cache :=
     f (gs_auction (gw_game w) \<noteq> None) (gs_cache (gw_game w))\<rparr>\<rparr>)"
| "on_cache f p = p"

datatype game_event =
    Client int io_event
  | AuctionConnected int bool
  | AuctionBytes int "byte list"
  | AuctionLost
  | CacheTick int cache_tick

record game_main =
  gm_io :: "game_world server_process io_server"
  gm_link :: auction_link
  gm_auction_ended :: "exn option"

text \<open>A step of the auction thread, over the shared state; an exception ends the thread.\<close>

definition on_auction :: "(auction_link \<Rightarrow> auction_link) \<Rightarrow> game_main \<Rightarrow> game_main" where
  "on_auction f s =
     (if gm_auction_ended s \<noteq> None then s
      else let l = f ((gm_link s)\<lparr>al_rx := (al_rx (gm_link s))\<lparr>rx_world := io_world (gm_io s)\<rparr>\<rparr>)
           in s\<lparr>gm_link := l, gm_io := (gm_io s)\<lparr>io_world := rx_world (al_rx l)\<rparr>,
                gm_auction_ended := (case rx_status (al_rx l) of Crashed e \<Rightarrow> Some e | _ \<Rightarrow> None)\<rparr>)"

definition link_receive ::
  "ss_reply_classes \<Rightarrow> game_classes \<Rightarrow> int \<Rightarrow> byte list \<Rightarrow> auction_link \<Rightarrow> auction_link" where
  "link_receive R C now bs l =
     (if al_reading l then l\<lparr>al_rx := rx_receive (Game_AuctionSession_HandlePacket R C now) bs (al_rx l)\<rparr> else l)"

definition link_lost :: "auction_link \<Rightarrow> auction_link" where
  "link_lost l = (if al_reading l \<and> rx_status (al_rx l) = Running
     then l\<lparr>al_rx := OnHeaderRead True [] (al_rx l)\<rparr> else l)"

definition link_tick :: "int \<Rightarrow> cache_tick \<Rightarrow> auction_link \<Rightarrow> auction_link" where
  "link_tick now t l = l\<lparr>al_rx := (al_rx l)\<lparr>rx_world := on_cache (tick t now) (rx_world (al_rx l))\<rparr>\<rparr>"

fun game_step ::
  "('mv, 'at) game_requests \<Rightarrow> game_classes \<Rightarrow> game_env \<Rightarrow> ss_reply_classes \<Rightarrow> game_event \<Rightarrow> game_main \<Rightarrow> game_main" where
  "game_step Q C E R (Client now ev) s = s\<lparr>gm_io := io_step (game_ops Q C (E\<lparr>ge_now := now\<rparr>)) ev (gm_io s)\<rparr>"
| "game_step Q C E R (AuctionConnected now err) s = on_auction (link_step (ConnectDone now err)) s"
| "game_step Q C E R (AuctionBytes now bs) s = on_auction (link_receive R C now bs) s"
| "game_step Q C E R AuctionLost s = on_auction link_lost s"
| "game_step Q C E R (CacheTick now t) s = on_auction (link_tick now t) s"

text \<open>\<open>AuctionCache::Init\<close> and \<open>Connect\<close> follow the creation of the acceptor and of the auction session.\<close>

definition game_start :: "db_server \<Rightarrow> conn_pool \<Rightarrow> game_main" where
  "game_start db p =
     (let w = Up \<lparr>gw_game = \<lparr>gs_manager = GameSessionManager, gs_tx = (\<lambda>_. tx_init),
                gs_cache = cache_Init AuctionCache, gs_auction = Some []\<rparr>,
              gw_db = db\<lparr>ds_pool := p\<rparr>, gw_room = room_init (\<lambda>_. True)\<rparr>
      in \<lparr>gm_io = io_init w, gm_link = AuctionSession_Connect ''127.0.0.1'' 9003 (AuctionSession w),
          gm_auction_ended = None\<rparr>)"

definition GameServer_main ::
  "('mv, 'at) game_requests \<Rightarrow> game_classes \<Rightarrow> game_env \<Rightarrow> ss_reply_classes \<Rightarrow> db_server \<Rightarrow> game_event list
   \<Rightarrow> exn + game_main" where
  "GameServer_main Q C E R db evs =
     (case Init (ge_create E) 10 of
        Inl e \<Rightarrow> Inl e
      | Inr p \<Rightarrow> Inr (fold (game_step Q C E R) evs (game_start db p)))"

section \<open>What the handlers leave alone\<close>

text \<open>The cache without its counters: what the refresh cycle is about.\<close>

definition cycle :: "auction_cache \<Rightarrow> auction_cache" where
  "cycle c = c\<lparr>ca_hit := 0, ca_miss := 0, ca_rejected := 0\<rparr>"

lemma cycle_snapshot: "cycle c' = cycle c \<Longrightarrow> ca_snapshot c' = ca_snapshot c"
  by (drule arg_cong [where f = ca_snapshot]) (simp add: cycle_def)

lemma TrySendList_cycle: "TrySendList now tx c = (b, tx', c') \<Longrightarrow> cycle c' = cycle c"
  by (auto simp: TrySendList_def cycle_def split: option.splits if_splits)

lemma ValidatePurchase_cycle: "ValidatePurchase now l n b c = (v, c') \<Longrightarrow> cycle c' = cycle c"
  by (auto simp: ValidatePurchase_def cycle_def Let_def split: option.splits if_splits)

text \<open>The session table and the cache.\<close>

definition table_and_cycle :: "game_world \<Rightarrow> session_manager \<times> auction_cache" where
  "table_and_cycle w = (gs_manager (gw_game w), cycle (gs_cache (gw_game w)))"

abbreviation still :: "('w \<Rightarrow> 'v) \<Rightarrow> 'v \<Rightarrow> 'w server_process \<Rightarrow> bool" where
  "still f v \<equiv> while_up (\<lambda>w. f w = v)"

lemma fold_send_client:
  "gs_manager (fold (send_client C session) pkts s) = gs_manager s"
  "gs_cache (fold (send_client C session) pkts s) = gs_cache s"
  by (induction pkts arbitrary: s) (simp_all add: send_client_def)

lemma fold_send_clients:
  "gs_manager (fold (\<lambda>(obj, pkt). send_client C obj pkt) sent s) = gs_manager s"
  "gs_cache (fold (\<lambda>(obj, pkt). send_client C obj pkt) sent s) = gs_cache s"
  by (induction sent arbitrary: s) (auto simp: send_client_def)

lemma still_on_lobby:
  "table_and_cycle w = v \<Longrightarrow> still table_and_cycle v (snd (on_lobby C session f (Up w)))"
  by (auto simp: table_and_cycle_def fold_send_client split: prod.splits sum.splits)

lemma still_on_room: "table_and_cycle w = v \<Longrightarrow> still table_and_cycle v (snd (on_room C f (Up w)))"
  by (auto simp: table_and_cycle_def fold_send_clients split: prod.splits)

lemma still_on_pair:
  "table_and_cycle w = v \<Longrightarrow> still table_and_cycle v (snd ((case pkt of (x, y) \<Rightarrow> on_lobby C session (f x y)) (Up w)))"
  "table_and_cycle w = v \<Longrightarrow> still table_and_cycle v (snd ((case pkt of (x, y) \<Rightarrow> on_room C (g x y)) (Up w)))"
  by (cases pkt; simp only: prod.case still_on_lobby still_on_room)+

lemma still_on_game:
  assumes "table_and_cycle w = v" and "gs_manager (snd (f (gw_game w))) = gs_manager (gw_game w)"
    and "cycle (gs_cache (snd (f (gw_game w)))) = cycle (gs_cache (gw_game w))"
  shows "still table_and_cycle v (snd (on_game f (Up w)))"
  using assms by (auto simp: table_and_cycle_def split: prod.splits)

lemma still_on_game_outcome:
  assumes "table_and_cycle w = v"
    and "\<And>ok s. f (gw_game w) = Done (ok, s) \<Longrightarrow> gs_manager s = gs_manager (gw_game w)
      \<and> cycle (gs_cache s) = cycle (gs_cache (gw_game w))"
  shows "still table_and_cycle v (snd (on_game_outcome f (Up w)))"
proof (cases "f (gw_game w)")
  case (Done r)
  obtain ok s where r: "r = (ok, s)" by force
  have "table_and_cycle (w\<lparr>gw_game := s\<rparr>) = v"
    using assms(1) assms(2) [of ok s] Done r by (simp add: table_and_cycle_def)
  with Done r show ?thesis by simp
qed simp

lemma game_entry_still:
  assumes "(code, h) \<in> set (GamePacketHandler_entries Q C E session)" and "still table_and_cycle v (Up w)"
  shows "still table_and_cycle v (snd (h body (Up w)))"
proof -
  have v: "table_and_cycle w = v" using assms(2) by simp
  have "still table_and_cycle v (snd (on_game (Game_Handle_REQ_AUCTION_LIST (ge_now E) session pkt) (Up w)))" for pkt
    by (rule still_on_game [OF v]) (auto simp: Game_Handle_REQ_AUCTION_LIST_def Let_def to_auction_def
        dest: TrySendList_cycle split: prod.splits)
  moreover have "still table_and_cycle v (snd (on_game (Game_Handle_REQ_RECEIPT_LIST session pkt) (Up w)))" for pkt
    by (rule still_on_game [OF v]) (simp_all add: Game_Handle_REQ_RECEIPT_LIST_def to_auction_def)
  moreover have "still table_and_cycle v (snd (on_game_outcome (Game_Handle_REQ_REGIST_ITEM session pkt) (Up w)))" for pkt
    by (rule still_on_game_outcome [OF v]) (auto simp: Game_Handle_REQ_REGIST_ITEM_def to_auction_def split: list.splits)
  moreover have "still table_and_cycle v (snd (on_game (Game_Handle_REQ_PURCHASE_ITEM C (ge_now E) session pkt) (Up w)))" for pkt
    by (rule still_on_game [OF v]) (auto simp: Game_Handle_REQ_PURCHASE_ITEM_def Let_def to_auction_def send_client_def
        dest: ValidatePurchase_cycle split: prod.splits list.splits)
  moreover have "still table_and_cycle v (snd (on_game (Game_Handle_REQ_RECEIPT_ITEM session pkt) (Up w)))" for pkt
    by (rule still_on_game [OF v]) (simp_all add: Game_Handle_REQ_RECEIPT_ITEM_def to_auction_def)
  ultimately have "list_all (\<lambda>(code, h). still table_and_cycle v (snd (h body (Up w))))
      (GamePacketHandler_entries Q C E session)"
    unfolding GamePacketHandler_entries_def list.pred_inject prod.case
    by (intro conjI dispatch_keeps [where A = "still table_and_cycle v"] assms(2) TrueI) (simp_all only: Handle_REQ_MOVE_def Handle_REQ_ATTACK_def snd_conv assms(2) list.pred_inject
        still_on_lobby [OF v] still_on_room [OF v] still_on_pair [OF v])
  with assms(1) show ?thesis by (auto simp: list_all_iff)
qed

lemma game_session_still:
  "still table_and_cycle v p \<Longrightarrow>
   still table_and_cycle v (snd (GameSession_HandlePacket Q C E session h body p))"
  unfolding GameSession_HandlePacket_def GamePacketHandler_HandlePacket_def GamePacketHandler_Init_def
  by (rule serve_keeps [where P = "still table_and_cycle v", OF game_entries])
    (erule (1) game_entry_still | simp add: Handle_Game_INVALID_def)+

text \<open>The auction server's replies change the snapshot, but not the session table.\<close>

abbreviation table :: "game_world \<Rightarrow> session_manager" where
  "table w \<equiv> gs_manager (gw_game w)"

lemma reply_client_manager: "gs_manager (reply_client C sid pkt s) = gs_manager s"
  by (simp add: reply_client_def send_client_def split: option.splits)

lemma reply_client_cache [simp]: "gs_cache (reply_client C sid pkt s) = gs_cache s"
  by (simp add: reply_client_def send_client_def split: option.splits)

lemma reply_entry_still:
  assumes "(code, h) \<in> set (AuctionServerPacketHandler_entries R C now)" and "still table v (Up w)"
  shows "still table v (snd (h body (Up w)))"
  using assms
  by (auto simp: AuctionServerPacketHandler_entries_def Handle_RES_AUCTION_LIST_def Handle_RES_RECEIPT_LIST_def
      Handle_RES_REGIST_ITEM_def Handle_RES_PURCHASE_ITEM_def Handle_RES_RECEIPT_ITEM_def reply_client_manager
      Let_def intro!: dispatch_keeps [where A = "while_up P" for P] split: prod.splits)

lemma auction_session_still:
  "still table v p \<Longrightarrow> still table v (snd (Game_AuctionSession_HandlePacket R C now h body p))"
  unfolding Game_AuctionSession_HandlePacket_def AuctionServerPacketHandler_HandlePacket_def
    AuctionServerPacketHandler_Init_def
  by (rule serve_keeps [where P = "still table v", OF auction_reply_entries])
    (erule (1) reply_entry_still | simp add: Game_Handle_SS_Auction_INVALID_def)+

section \<open>The auction thread after an exception\<close>

text \<open>A projection of the table and the cache.\<close>

lemma game_session_keeps:
  assumes "still g v p" and "\<And>w w'. table_and_cycle w' = table_and_cycle w \<Longrightarrow> g w' = g w"
  shows "still g v (snd (GameSession_HandlePacket Q C E session h body p))"
proof (cases p)
  case (Up w)
  let ?p = "snd (GameSession_HandlePacket Q C E session h body (Up w))"
  have tas: "still table_and_cycle (table_and_cycle w) ?p" by (rule game_session_still) simp
  have "still g v ?p"
  proof (cases ?p)
    case (Up w')
    with tas have "g w' = g w" by (intro assms(2)) simp
    with Up assms(1) \<open>p = Up w\<close> show ?thesis by simp
  qed simp_all
  with Up show ?thesis by simp
qed (simp_all add: GameSession_HandlePacket_def GamePacketHandler_HandlePacket_def serve_def)

abbreviation snapshot :: "game_world \<Rightarrow> Snapshot option" where
  "snapshot w \<equiv> ca_snapshot (gs_cache (gw_game w))"

lemma client_step_snapshot:
  assumes "still snapshot v (io_world s)"
  shows "still snapshot v (io_world (io_step (game_ops Q C E) ev s))"
proof (rule io_step_keeps [where P = "still snapshot v", OF _ _ _ assms])
  show "still snapshot v (so_register (game_ops Q C E) i p)" if "still snapshot v p" for i p
    using that by (cases p) (simp_all add: game_ops_def)
  show "still snapshot v (so_close (game_ops Q C E) i p)" if "still snapshot v p" for i p
    using that by (cases p) (simp_all add: game_ops_def)
  show "still snapshot v (snd (so_handle (game_ops Q C E) i h b p))" if "still snapshot v p" for i h b p
    unfolding game_ops_def server_ops.simps
    by (rule game_session_keeps [OF that], rule cycle_snapshot) (simp add: table_and_cycle_def)
qed

lemma auction_ended_stays:
  assumes "gm_auction_ended s \<noteq> None" and "still snapshot v (io_world (gm_io s))"
  shows "gm_auction_ended (fold (game_step Q C E R) evs s) = gm_auction_ended s
    \<and> still snapshot v (io_world (gm_io (fold (game_step Q C E R) evs s)))"
  using assms
proof (induction evs arbitrary: s)
  case (Cons ev evs)
  have "gm_auction_ended (game_step Q C E R ev s) = gm_auction_ended s
    \<and> still snapshot v (io_world (gm_io (game_step Q C E R ev s)))"
    using Cons.prems by (cases ev) (simp_all add: on_auction_def client_step_snapshot)
  with Cons.IH [of "game_step Q C E R ev s"] Cons.prems(1) show ?case by simp
qed simp

text \<open>
  C34: one long list ends the auction house.  When the auction server's list, for the cache or for a
  client, serialises to 32768 to 65535 bytes, its packet has a negative length, which ends the game
  server's auction thread.  The network thread goes on, but from then on, whatever happens, the cache's
  snapshot stays as it is: three minutes after it was taken it answers no list request and passes every purchase
  unchecked, and nobody reads what the auction server sends.
\<close>

theorem long_list_ends_auction:
  assumes "message_codec (ssr_auction_list R) ok"
    and "SHRT_MAX < ByteSizeLong (ssr_auction_list R) pkt" and "ByteSizeLong (ssr_auction_list R) pkt < 65536"
    and "gm_auction_ended s = None" and "al_reading (gm_link s)"
    and "at_header (al_rx (gm_link s))" and "rx_socket (al_rx (gm_link s)) = []"
    and "io_world (gm_io s) = Up w"
    and "s' = fold (game_step Q C E R) (AuctionBytes now (SendPacket (ssr_auction_list R) pkt 1) # evs) s"
  shows "gm_auction_ended s' = Some (StdException ''length_error'')
    \<and> (\<forall>w'. io_world (gm_io s') = Up w' \<longrightarrow> snapshot w' = snapshot w \<and>
      (\<forall>snap later. snapshot w = Some snap \<longrightarrow> sn_fetchedAt snap + seconds 180 \<le> later \<longrightarrow>
        (\<forall>tx. \<not> fst (TrySendList later tx (gs_cache (gw_game w'))))
        \<and> (\<forall>lid n buyer. fst (ValidatePurchase later lid n buyer (gs_cache (gw_game w'))) = Unknown)))"
proof -
  let ?bs = "SendPacket (ssr_auction_list R) pkt 1"
  obtain len bs where pkt: "?bs = header_bytes \<lparr>Length = len, Code = 1\<rparr> @ bs" and neg: "sint len < 0"
    by (rule oversized_packet [OF assms(1-3), of 1])
  let ?rx = "(al_rx (gm_link s))\<lparr>rx_world := Up w\<rparr>"
  let ?h = "Game_AuctionSession_HandlePacket R C now"
  have "at_header (?rx\<lparr>rx_socket := ?bs\<rparr>)" using assms(6) by (simp add: at_header_def)
  from negative_header [OF this _ neg, of 1 bs ?h]
  have rx: "rx_status (rx_receive ?h ?bs ?rx) = Crashed (StdException ''length_error'')"
    "rx_world (rx_receive ?h ?bs ?rx) = Up w"
    using pkt assms(7) by (simp_all add: rx_receive_def)
  let ?s = "game_step Q C E R (AuctionBytes now ?bs) s"
  have "gm_auction_ended ?s = Some (StdException ''length_error'')" "io_world (gm_io ?s) = Up w"
    using rx assms(4,5,8) by (simp_all add: on_auction_def link_receive_def Let_def)
  with auction_ended_stays [of ?s "snapshot w" Q C E R evs] assms(9)
  have "gm_auction_ended s' = Some (StdException ''length_error'')" "still snapshot (snapshot w) (io_world (gm_io s'))"
    by simp_all
  then show ?thesis by (auto simp: TrySendList_def ValidatePurchase_def IsFresh_def kStaleLimit_def)
qed

section \<open>The session table and the connections\<close>

lemma on_manager_up [simp]: "is_up (on_manager ev p) = is_up p"
  by (cases p) simp_all

lemma client_step_up: "is_up (io_world (io_step (game_ops Q C E) ev s)) \<Longrightarrow> is_up (io_world s)"
proof (rule ccontr)
  assume "\<not> is_up (io_world s)"
  then have "\<not> is_up (io_world (io_step (game_ops Q C E) ev s))"
    by (rule io_step_keeps [where P = "\<lambda>p. \<not> is_up p", rotated 3])
      (simp_all add: game_ops_def GameSession_HandlePacket_def GamePacketHandler_HandlePacket_def serve_down)
  moreover assume "is_up (io_world (io_step (game_ops Q C E) ev s))"
  ultimately show False by simp
qed

text \<open>
  \<open>connected objs s\<close>: \<open>objs\<close> are the connections made so far, in their order; a connection's object has
  the id it was given, and is closed in the table exactly when its socket is.
\<close>

definition connected :: "nat list \<Rightarrow> game_world server_process io_server \<Rightarrow> bool" where
  "connected objs s \<longleftrightarrow> io_inv s \<and> (\<forall>w. io_ended s = None \<longrightarrow> io_world s = Up w \<longrightarrow>
     sm_inv objs (table w) \<and> distinct objs \<and> set objs = dom (io_sessions s)
     \<and> (\<forall>i rx. io_sessions s i = Some rx \<longrightarrow> at_read rx
          \<and> (\<exists>g. sm_heap (table w) i = Some g \<and> (gsn_closed g \<longleftrightarrow> rx_status rx \<noteq> Running))))"

lemma connectedI:
  assumes "io_inv s" and "\<And>w. io_ended s = None \<Longrightarrow> io_world s = Up w \<Longrightarrow>
     sm_inv objs (table w) \<and> distinct objs \<and> set objs = dom (io_sessions s)
     \<and> (\<forall>i rx. io_sessions s i = Some rx \<longrightarrow> at_read rx
          \<and> (\<exists>g. sm_heap (table w) i = Some g \<and> (gsn_closed g \<longleftrightarrow> rx_status rx \<noteq> Running)))"
  shows "connected objs s"
  using assms by (simp add: connected_def)

lemma connectedD:
  assumes "connected objs s" and "io_ended s = None" and "io_world s = Up w"
  shows "sm_inv objs (table w)" and "distinct objs" and "set objs = dom (io_sessions s)"
    and "io_sessions s i = Some rx \<Longrightarrow> at_read rx"
    and "io_sessions s i = Some rx \<Longrightarrow> \<exists>g. sm_heap (table w) i = Some g \<and> (gsn_closed g \<longleftrightarrow> rx_status rx \<noteq> Running)"
  using assms by (auto simp: connected_def)

text \<open>A step that leaves the sessions and the table alone.\<close>

lemma connected_same:
  assumes "connected objs s" and "io_inv s'" and "io_sessions s' = io_sessions s"
    and "io_ended s' = None \<Longrightarrow> io_ended s = None"
    and "\<And>w'. io_world s' = Up w' \<Longrightarrow> \<exists>w. io_world s = Up w \<and> table w' = table w"
  shows "connected objs s'"
proof (rule connectedI [OF assms(2)])
  fix w' assume "io_ended s' = None" "io_world s' = Up w'"
  with assms(4,5) obtain w where "io_ended s = None" "io_world s = Up w" "table w' = table w" by blast
  with assms(1,3) show "sm_inv objs (table w') \<and> distinct objs \<and> set objs = dom (io_sessions s')
     \<and> (\<forall>i rx. io_sessions s' i = Some rx \<longrightarrow> at_read rx
          \<and> (\<exists>g. sm_heap (table w') i = Some g \<and> (gsn_closed g \<longleftrightarrow> rx_status rx \<noteq> Running)))"
    by (simp add: connected_def)
qed

lemma heap_accept: "sm_heap (sm_step (Accept obj) m) i =
    (if i = obj then Some \<lparr>gsn_session_id = sm_nextId m, gsn_closed = False\<rparr> else sm_heap m i)"
  by (simp add: Register_def Let_def)

lemma heap_close: "sm_heap (sm_step (CloseSession obj) m) i =
    (if i = obj then map_option (gsn_closed_update (\<lambda>_. True)) (sm_heap m i) else sm_heap m i)"
  by (auto simp: GameSession_Close_def Unregister_def split: option.splits)

lemma connected_accept:
  assumes "connected objs s" and "Suc (length objs) < 2 ^ 64" and "\<not> err" and "io_ended s = None"
  shows "connected (objs @ [io_next s - 1]) (OnAccept (game_ops Q C E) err s)"
proof (rule connectedI)
  let ?j = "io_next s - 1" and ?s = "OnAccept (game_ops Q C E) err s"
  have inv: "io_inv s" using assms(1) by (simp add: connected_def)
  then show "io_inv ?s" using io_step_inv [of s "game_ops Q C E" "Accepted err"] assms(4) by simp
  have s: "io_sessions ?s = (io_sessions s)(?j \<mapsto> rx_init (on_manager (Accept ?j) (io_world s)))"
    "io_world ?s = on_manager (Accept ?j) (io_world s)"
    using inv assms(3) by (simp_all add: OnAccept_def StartAccept_def io_inv_def game_ops_def Let_def)
  fix w' assume "io_world ?s = Up w'"
  with s(2) obtain w where w: "io_world s = Up w" "table w' = sm_step (Accept ?j) (table w)"
    by (cases "io_world s") auto
  note C = connectedD [OF assms(1,4) w(1)]
  have new: "?j \<notin> set objs" using C(3) inv by (auto simp: io_inv_def dom_def)
  have "sm_inv (objs @ [?j]) (table w')" unfolding w(2) by (rule sm_inv_accept [OF C(1) assms(2)])
  moreover have "at_read rx \<and> (\<exists>g. sm_heap (table w') i = Some g \<and> (gsn_closed g \<longleftrightarrow> rx_status rx \<noteq> Running))"
    if "io_sessions ?s i = Some rx" for i rx
    using that C(4,5) [of i rx] unfolding s(1) w(2)
    by (auto simp: heap_accept at_read_def rx_init_def simp del: sm_step.simps split: if_splits)
  ultimately show "sm_inv (objs @ [?j]) (table w') \<and> distinct (objs @ [?j]) \<and> set (objs @ [?j]) = dom (io_sessions ?s)
     \<and> (\<forall>i rx. io_sessions ?s i = Some rx \<longrightarrow> at_read rx
          \<and> (\<exists>g. sm_heap (table w') i = Some g \<and> (gsn_closed g \<longleftrightarrow> rx_status rx \<noteq> Running)))"
    using C(2,3) new s(1) by auto
qed

lemma game_session_table:
  "still table v p \<Longrightarrow> still table v (snd (GameSession_HandlePacket Q C E session h body p))"
  by (erule game_session_keeps) (simp add: table_and_cycle_def)

lemma game_session_down: "\<not> is_up p \<Longrightarrow> \<not> is_up (snd (GameSession_HandlePacket Q C E session h body p))"
  by (simp add: GameSession_HandlePacket_def GamePacketHandler_HandlePacket_def serve_down)

text \<open>A run that keeps the table and revives no process.\<close>

lemma receive_table:
  assumes "\<And>v h b p. still table v p \<Longrightarrow> still table v (snd (handle h b p))"
    and "\<And>h b p. \<not> is_up p \<Longrightarrow> \<not> is_up (snd (handle h b p))"
    and "rx_world (rx_receive handle bs rx) = Up w'"
  shows "\<exists>w. rx_world rx = Up w \<and> table w' = table w"
proof -
  have "is_up (rx_world rx)"
    using rx_receive_keeps [where P = "\<lambda>p. \<not> is_up p" and handle = handle and s = rx and bs = bs, OF assms(2)] assms(3) by fastforce
  then obtain w where "rx_world rx = Up w" by (cases "rx_world rx") auto
  with rx_receive_keeps [where P = "still table (table w)" and handle = handle and s = rx and bs = bs, OF assms(1)] assms(3)
  show ?thesis by simp
qed

lemma connected_bytes:
  assumes "connected objs s" and "io_ended s = None"
  shows "connected objs (OnBytes (game_ops Q C E) j bs s)"
proof (cases "io_sessions s j")
  case None
  with assms show ?thesis by (simp add: OnBytes_def)
next
  case (Some rx)
  let ?s = "OnBytes (game_ops Q C E) j bs s"
  let ?rx = "rx_receive (GameSession_HandlePacket Q C E j) bs (rx\<lparr>rx_world := io_world s\<rparr>)"
  have s: "io_sessions ?s = (io_sessions s)(j \<mapsto> ?rx)" "io_world ?s = rx_world ?rx"
    using Some by (simp_all add: OnBytes_def game_ops_def Let_def)
  show ?thesis
  proof (rule connectedI)
    show "io_inv ?s" using io_step_inv [of s "game_ops Q C E" "Bytes j bs"] assms by (simp add: connected_def)
    fix w' assume live: "io_ended ?s = None" and "io_world ?s = Up w'"
    with s(2) have "rx_world ?rx = Up w'" by simp
    from receive_table [OF game_session_table game_session_down this] obtain w
      where w: "io_world s = Up w" "table w' = table w" by auto
    note C = connectedD [OF assms w(1)]
    have "\<not> crashed ?rx" using OnBytes_not_crashed [OF live Some] by (simp add: game_ops_def)
    with rx_receive_open [of "rx\<lparr>rx_world := io_world s\<rparr>"] C(4) [OF Some]
    have rx: "at_read ?rx" "rx_status ?rx = rx_status rx" by (simp_all add: at_read_def)
    have "at_read r \<and> (\<exists>g. sm_heap (table w') i = Some g \<and> (gsn_closed g \<longleftrightarrow> rx_status r \<noteq> Running))"
      if "io_sessions ?s i = Some r" for i r
      using that C(4,5) [of i r] C(5) [OF Some] rx unfolding s(1) w(2) by (auto split: if_splits)
    with C(1-3) Some show "sm_inv objs (table w') \<and> distinct objs \<and> set objs = dom (io_sessions ?s)
       \<and> (\<forall>i rx. io_sessions ?s i = Some rx \<longrightarrow> at_read rx
            \<and> (\<exists>g. sm_heap (table w') i = Some g \<and> (gsn_closed g \<longleftrightarrow> rx_status rx \<noteq> Running)))"
      unfolding s(1) w(2) by auto
  qed
qed

lemma connected_lost:
  assumes "connected objs s" and "Suc (length objs) < 2 ^ 64" and "io_ended s = None"
  shows "connected objs (OnLost (game_ops Q C E) j s)"
proof (cases "\<exists>rx. io_sessions s j = Some rx \<and> rx_status rx = Running")
  case False
  with assms show ?thesis by (auto simp: OnLost_def split: option.splits)
next
  case True
  then obtain rx where rx: "io_sessions s j = Some rx" "rx_status rx = Running" by blast
  let ?s = "OnLost (game_ops Q C E) j s"
  have s: "io_sessions ?s = (io_sessions s)(j \<mapsto> rx_Close rx)" "io_world ?s = on_manager (CloseSession j) (io_world s)"
    using rx by (simp_all add: OnLost_def game_ops_def OnHeaderRead_def)
  show ?thesis
  proof (rule connectedI)
    show "io_inv ?s" using io_step_inv [of s "game_ops Q C E" "Lost j"] assms by (simp add: connected_def)
    fix w' assume "io_world ?s = Up w'"
    with s(2) obtain w where w: "io_world s = Up w" "table w' = sm_step (CloseSession j) (table w)"
      by (cases "io_world s") auto
    note C = connectedD [OF assms(1,3) w(1)]
    have "sm_inv objs (table w')" unfolding w(2) by (rule sm_inv_close [OF C(1) assms(2) C(2)])
    moreover have "at_read r \<and> (\<exists>g. sm_heap (table w') i = Some g \<and> (gsn_closed g \<longleftrightarrow> rx_status r \<noteq> Running))"
      if "io_sessions ?s i = Some r" for i r
      using that C(4,5) [of i r] C(4,5) [OF rx(1)] unfolding s(1) w(2)
      by (auto simp: heap_close at_read_def rx_Close_def simp del: sm_step.simps split: if_splits)
    ultimately show "sm_inv objs (table w') \<and> distinct objs \<and> set objs = dom (io_sessions ?s)
       \<and> (\<forall>i rx. io_sessions ?s i = Some rx \<longrightarrow> at_read rx
            \<and> (\<exists>g. sm_heap (table w') i = Some g \<and> (gsn_closed g \<longleftrightarrow> rx_status rx \<noteq> Running)))"
      using C(2,3) rx(1) unfolding s(1) by auto
  qed
qed

text \<open>The auction thread changes neither the connections nor the session table.\<close>

lemma connected_auction:
  assumes "connected objs (gm_io s)"
    and "\<And>l w'. rx_world (al_rx (f l)) = Up w' \<Longrightarrow> \<exists>w. rx_world (al_rx l) = Up w \<and> table w' = table w"
  shows "connected objs (gm_io (on_auction f s))"
proof (cases "gm_auction_ended s = None")
  case True
  let ?l = "(gm_link s)\<lparr>al_rx := (al_rx (gm_link s))\<lparr>rx_world := io_world (gm_io s)\<rparr>\<rparr>"
  have io: "gm_io (on_auction f s) = (gm_io s)\<lparr>io_world := rx_world (al_rx (f ?l))\<rparr>"
    using True by (simp add: on_auction_def Let_def)
  show ?thesis
    unfolding io using assms(1)
    by (rule connected_same) (use assms(1) assms(2) [of ?l] in \<open>auto simp: connected_def io_inv_def\<close>)
qed (simp add: on_auction_def assms(1))

lemma link_connect_table:
  "rx_world (al_rx (link_step (ConnectDone now err) l)) = Up w' \<Longrightarrow> \<exists>w. rx_world (al_rx l) = Up w \<and> table w' = table w"
  by (cases "rx_world (al_rx l)") (auto simp: AuctionSession_OnConnect_def AsyncHeaderRead_def split: if_splits)

lemma link_receive_table:
  "rx_world (al_rx (link_receive R C now bs l)) = Up w' \<Longrightarrow> \<exists>w. rx_world (al_rx l) = Up w \<and> table w' = table w"
proof (cases "al_reading l")
  case True
  assume "rx_world (al_rx (link_receive R C now bs l)) = Up w'"
  with True have "rx_world (rx_receive (Game_AuctionSession_HandlePacket R C now) bs (al_rx l)) = Up w'"
    by (simp add: link_receive_def)
  from receive_table [OF auction_session_still _ this] show ?thesis
    by (simp add: Game_AuctionSession_HandlePacket_def AuctionServerPacketHandler_HandlePacket_def serve_down)
qed (auto simp: link_receive_def)

lemma link_tick_table:
  "rx_world (al_rx (link_tick now t l)) = Up w' \<Longrightarrow> \<exists>w. rx_world (al_rx l) = Up w \<and> table w' = table w"
  by (cases "rx_world (al_rx l)") (auto simp: link_tick_def)

lemma link_lost_table:
  "rx_world (al_rx (link_lost l)) = Up w' \<Longrightarrow> \<exists>w. rx_world (al_rx l) = Up w \<and> table w' = table w"
  by (auto simp: link_lost_def OnHeaderRead_def rx_Close_def split: if_splits)

lemma connected_io_step:
  assumes "connected objs s" and "Suc (length objs) < 2 ^ 64"
  shows "\<exists>objs'. length objs' \<le> Suc (length objs) \<and> connected objs' (io_step (game_ops Q C E) ev s)"
proof (cases "io_ended s = None")
  case True
  show ?thesis
  proof (cases ev)
    case (Accepted err)
    show ?thesis
    proof (cases err)
      case True
      have "connected objs (OnAccept (game_ops Q C E) err s)"
        using assms(1) io_step_inv [of s "game_ops Q C E" ev] \<open>io_ended s = None\<close> Accepted True
        by (intro connected_same [OF assms(1)])
          (auto simp: connected_def OnAccept_def StartAccept_def split: option.splits)
      with Accepted \<open>io_ended s = None\<close> show ?thesis by (intro exI [of _ objs]) simp
    next
      case False
      with connected_accept [OF assms False \<open>io_ended s = None\<close>] Accepted \<open>io_ended s = None\<close> show ?thesis
        by (intro exI [of _ "objs @ [io_next s - 1]"]) simp
    qed
  next
    case (Bytes j bs)
    with connected_bytes [OF assms(1) True] True show ?thesis by (intro exI [of _ objs]) simp
  next
    case (Lost j)
    with connected_lost [OF assms True] True show ?thesis by (intro exI [of _ objs]) simp
  qed
next
  case False
  with assms(1) show ?thesis by (intro exI [of _ objs]) (cases ev, simp_all)
qed

lemma connected_step:
  assumes "connected objs (gm_io s)" and "Suc (length objs) < 2 ^ 64"
  shows "\<exists>objs'. length objs' \<le> Suc (length objs) \<and> connected objs' (gm_io (game_step Q C E R ev s))"
proof -
  have auction: "\<exists>objs'. length objs' \<le> Suc (length objs) \<and> connected objs' (gm_io (on_auction f s))"
    if "\<And>l w'. rx_world (al_rx (f l)) = Up w' \<Longrightarrow> \<exists>w. rx_world (al_rx l) = Up w \<and> table w' = table w" for f
    using connected_auction [OF assms(1) that] by (intro exI [of _ objs]) simp
  show ?thesis
  proof (cases ev)
    case (Client now e)
    with connected_io_step [OF assms] show ?thesis by simp
  qed (simp_all only: game_step.simps, (rule auction, erule link_connect_table link_receive_table link_lost_table link_tick_table)+)
qed

lemma connected_run:
  "connected objs (gm_io s) \<Longrightarrow> Suc (length objs + length evs) < 2 ^ 64 \<Longrightarrow>
   \<exists>objs'. Suc (length objs') < 2 ^ 64 \<and> connected objs' (gm_io (fold (game_step Q C E R) evs s))"
proof (induction evs arbitrary: objs s)
  case (Cons ev evs)
  then obtain objs' where "length objs' \<le> Suc (length objs)" "connected objs' (gm_io (game_step Q C E R ev s))"
    using connected_step [of objs s] by fastforce
  with Cons.IH [of objs' "game_step Q C E R ev s"] Cons.prems(2) show ?case by simp
qed auto

lemma connected_start: "connected [] (gm_io (game_start db p))"
  by (rule connectedI)
    (auto simp: game_start_def io_init_def StartAccept_def io_inv_def sm_inv_init Let_def)

text \<open>
  C30: replies find their client.  While the game server's loop runs, whatever its clients and the
  auction thread have done, \<open>Find\<close> of an id returns a client's session exactly when that client's
  connection is open and the id is the one its requests carry; the id is never the 0 the cache
  uses.  So a reply goes to the client that asked, or, once its connection is lost, to nobody.
\<close>

theorem replies_find_their_client:
  assumes "GameServer_main Q C E R db evs = Inr s" and "Suc (length evs) < 2 ^ 64"
    and "io_ended (gm_io s) = None" and "io_world (gm_io s) = Up w"
  shows "(Find sid (table w) = Some i \<longleftrightarrow>
      sid = GetSessionId i (gw_game w) \<and> (\<exists>rx. io_sessions (gm_io s) i = Some rx \<and> rx_status rx = Running))
    \<and> Find 0 (table w) = None"
proof -
  obtain p where s: "s = fold (game_step Q C E R) evs (game_start db p)"
    using assms(1) by (auto simp: GameServer_main_def split: sum.splits)
  have "\<exists>objs. Suc (length objs) < 2 ^ 64 \<and> connected objs (gm_io s)"
    unfolding s by (rule connected_run [OF connected_start]) (use assms(2) in simp)
  then obtain objs where len: "Suc (length objs) < 2 ^ 64" and con: "connected objs (gm_io s)" by blast
  note C = connectedD [OF con assms(3,4)]
  note F = sm_inv_Find [OF C(1,2)]
  have mem: "obj \<in> set objs" if "sm_heap (table w) obj = Some g" for obj g
    using that C(1) issued_mem by (fastforce simp: sm_inv_def)
  have "Find sid (table w) = Some i \<longleftrightarrow>
    sid = GetSessionId i (gw_game w) \<and> (\<exists>rx. io_sessions (gm_io s) i = Some rx \<and> rx_status rx = Running)"
  proof
    assume "Find sid (table w) = Some i"
    with F obtain g where g: "sm_heap (table w) i = Some g" "\<not> gsn_closed g" "gsn_session_id g = sid" by blast
    with mem C(3) obtain rx where "io_sessions (gm_io s) i = Some rx" by blast
    with C(5) g show "sid = GetSessionId i (gw_game w) \<and> (\<exists>rx. io_sessions (gm_io s) i = Some rx \<and> rx_status rx = Running)"
      by (fastforce simp: GetSessionId_def)
  next
    assume "sid = GetSessionId i (gw_game w) \<and> (\<exists>rx. io_sessions (gm_io s) i = Some rx \<and> rx_status rx = Running)"
    with C(5) F show "Find sid (table w) = Some i" by (fastforce simp: GetSessionId_def)
  qed
  moreover have "Find 0 (table w) = None"
  proof (rule ccontr)
    assume "Find 0 (table w) \<noteq> None"
    with sm_inv_Find [OF C(1,2), of 0] obtain obj g where "sm_heap (table w) obj = Some g" "gsn_session_id g = 0" by blast
    with C(1) issued_nonzero [OF _ len] show False by (fastforce simp: sm_inv_def)
  qed
  ultimately show ?thesis ..
qed

section \<open>Witnesses\<close>

text \<open>A list whose encoding has 40000 bytes.\<close>

definition demo_long_list :: SS_RES_AUCTION_LIST where
  "demo_long_list = \<lparr>ssal_session_id = 0, ssal_request_id = 1, ssal_mylist = False, ssal_listinfo = []\<rparr>"

definition long_class :: "SS_RES_AUCTION_LIST msg_class" where
  "long_class = \<lparr>ByteSizeLong = (\<lambda>m. 40000), SerializeToArray = (\<lambda>m n. if 40000 \<le> n then Some (replicate 40000 7) else None),
     ParseFromArray = (\<lambda>bs. Some demo_long_list)\<rparr>"

lemma long_class_codec: "message_codec long_class (\<lambda>m. m = demo_long_list)"
  by unfold_locales (auto simp: long_class_def split: if_splits)

definition demo_connected :: "db_server \<Rightarrow> conn_pool \<Rightarrow> game_main" where
  "demo_connected db p = game_step demo_game_requests demo_classes demo_game_env demo_ss_replies
     (AuctionConnected 0 False) (game_start db p)"

lemma demo_connected_link:
  "gm_auction_ended (demo_connected db p) = None" "al_reading (gm_link (demo_connected db p))"
  "at_header (al_rx (gm_link (demo_connected db p)))" "rx_socket (al_rx (gm_link (demo_connected db p))) = []"
  "\<exists>w. io_world (gm_io (demo_connected db p)) = Up w"
  by (simp_all add: demo_connected_def game_start_def on_auction_def Let_def AuctionSession_Connect_def AuctionSession_def
      AuctionSession_OnConnect_def AsyncHeaderRead_def rx_init_def at_header_def io_init_def StartAccept_def)

theorem long_list_ends_auction_witness:
  "\<forall>db p. gm_auction_ended (fold (game_step demo_game_requests demo_classes demo_game_env (demo_ss_replies\<lparr>ssr_auction_list := long_class\<rparr>))
      [AuctionBytes 1 (SendPacket long_class demo_long_list 1), Client 2 (Accepted False)] (demo_connected db p))
    = Some (StdException ''length_error'')"
proof (intro allI)
  fix db p
  let ?R = "demo_ss_replies\<lparr>ssr_auction_list := long_class\<rparr>"
  have R: "message_codec (ssr_auction_list ?R) (\<lambda>m. m = demo_long_list)" "SHRT_MAX < ByteSizeLong (ssr_auction_list ?R) demo_long_list"
    "ByteSizeLong (ssr_auction_list ?R) demo_long_list < 65536"
    using long_class_codec by (simp_all add: long_class_def SHRT_MAX_def)
  obtain w where "io_world (gm_io (demo_connected db p)) = Up w" using demo_connected_link(5) by blast
  from long_list_ends_auction [OF R demo_connected_link(1-4) this refl, of demo_game_requests demo_classes demo_game_env 1 "[Client 2 (Accepted False)]"]
  show "gm_auction_ended (fold (game_step demo_game_requests demo_classes demo_game_env ?R)
      [AuctionBytes 1 (SendPacket long_class demo_long_list 1), Client 2 (Accepted False)] (demo_connected db p))
    = Some (StdException ''length_error'')" by simp
qed

theorem replies_find_their_client_witness:
  "\<exists>s w. GameServer_main demo_game_requests demo_classes demo_game_env demo_ss_replies (lobby_demo (\<lambda>_ _. None))
       [Client 0 (Accepted False), Client 1 (Accepted False), Client 2 (Lost 0)] = Inr s
    \<and> io_world (gm_io s) = Up w
    \<and> Find (GetSessionId 1 (gw_game w)) (table w) = Some 1 \<and> Find (GetSessionId 0 (gw_game w)) (table w) \<noteq> Some 0"
proof -
  let ?evs = "[Client 0 (Accepted False), Client 1 (Accepted False), Client 2 (Lost 0)]"
  let ?db = "lobby_demo (\<lambda>_ _. None)"
  obtain p where p: "Init (\<lambda>_. None) 10 = Inr p" using Init_all by blast
  define s where "s = fold (game_step demo_game_requests demo_classes demo_game_env demo_ss_replies) ?evs (game_start ?db p)"
  have main: "GameServer_main demo_game_requests demo_classes demo_game_env demo_ss_replies ?db ?evs = Inr s"
    using p by (simp add: GameServer_main_def s_def demo_game_env_def)
  have st: "io_ended (gm_io s) = None" "is_up (io_world (gm_io s))"
    "map_option rx_status (io_sessions (gm_io s) 1) = Some Running"
    "map_option rx_status (io_sessions (gm_io s) 0) = Some Closed"
    by (simp_all add: s_def game_start_def io_init_def StartAccept_def OnAccept_def OnLost_def game_ops_def Let_def
        rx_init_def OnHeaderRead_def rx_Close_def)
  then obtain w where w: "io_world (gm_io s) = Up w" by (cases "io_world (gm_io s)") auto
  have "Suc (length ?evs) < 2 ^ 64" by simp
  note T = replies_find_their_client [OF main this st(1) w]
  have "Find (GetSessionId 1 (gw_game w)) (table w) = Some 1" using T [of _ 1] st(3) by auto
  moreover have "Find (GetSessionId 0 (gw_game w)) (table w) \<noteq> Some 0" using T [of _ 0] st(4) by auto
  ultimately show ?thesis using main w by blast
qed

end
