(* ===== verification/GameInvariant.thy ===== *)
theory GameInvariant
  imports GameMain
begin

text \<open>
  Invariants of the game server's state, once for all: a property that every handler of either
  table, the session manager and the cache's steps keep holds in every state \<open>GameServer_main\<close> reaches.
\<close>

section \<open>The clock of a run\<close>

fun event_time :: "game_event \<Rightarrow> int option" where
  "event_time (Client now ev) = Some now"
| "event_time (AuctionConnected now err) = Some now"
| "event_time (AuctionBytes now bs) = Some now"
| "event_time AuctionLost = None"
| "event_time (CacheTick now t) = Some now"

text \<open>The time after an event, that times do not decrease, and the time after a run.\<close>

definition time_after :: "int \<Rightarrow> game_event \<Rightarrow> int" where
  "time_after now ev = (case event_time ev of None \<Rightarrow> now | Some now' \<Rightarrow> now')"

fun in_time :: "int \<Rightarrow> game_event list \<Rightarrow> bool" where
  "in_time now [] = True"
| "in_time now (ev # evs) = (now \<le> time_after now ev \<and> in_time (time_after now ev) evs)"

definition run_time :: "game_event list \<Rightarrow> int" where
  "run_time evs = fold (\<lambda>ev now. time_after now ev) evs 0"

section \<open>The interface\<close>

abbreviation with_manager :: "game_world \<Rightarrow> session_manager \<Rightarrow> game_world" where
  "with_manager w m \<equiv> w\<lparr>gw_game := (gw_game w)\<lparr>gs_manager := m\<rparr>\<rparr>"

abbreviation with_cache :: "game_world \<Rightarrow> auction_cache \<Rightarrow> game_world" where
  "with_cache w c \<equiv> w\<lparr>gw_game := (gw_game w)\<lparr>gs_cache := c\<rparr>\<rparr>"

locale game_invariant =
  fixes Q :: "('mv, 'at) game_requests" and C :: game_classes and R :: ss_reply_classes
    and ok :: "int \<Rightarrow> game_world \<Rightarrow> bool"
  assumes later: "ok now w \<Longrightarrow> now \<le> now' \<Longrightarrow> ok now' w"
    and client: "(code, h) \<in> set (GamePacketHandler_entries Q C E session) \<Longrightarrow> ok now w \<Longrightarrow>
      while_up (ok now) (snd (h body (Up w)))"
    and reply: "(code, h) \<in> set (AuctionServerPacketHandler_entries R C now) \<Longrightarrow> ok now w \<Longrightarrow>
      while_up (ok now) (snd (h body (Up w)))"
    and manager: "ok now w \<Longrightarrow> ok now (with_manager w (sm_step mev (table w)))"
    and refresh: "ok now w \<Longrightarrow> ok now (with_cache w (RequestRefresh b now (gs_cache (gw_game w))))"
    and ticks: "ok now w \<Longrightarrow> ok now (with_cache w (tick t now b (gs_cache (gw_game w))))"
begin

lemma session:
  "while_up (ok now) p \<Longrightarrow> while_up (ok now) (snd (GameSession_HandlePacket Q C E session h body p))"
  unfolding GameSession_HandlePacket_def GamePacketHandler_HandlePacket_def GamePacketHandler_Init_def
  by (rule serve_keeps [where P = "while_up (ok now)", OF game_entries])
    (simp_all add: client Handle_Game_INVALID_def)

lemma auction_session:
  "while_up (ok now) p \<Longrightarrow> while_up (ok now) (snd (Game_AuctionSession_HandlePacket R C now h body p))"
  unfolding Game_AuctionSession_HandlePacket_def AuctionServerPacketHandler_HandlePacket_def
    AuctionServerPacketHandler_Init_def
  by (rule serve_keeps [where P = "while_up (ok now)", OF auction_reply_entries])
    (simp_all add: reply Game_Handle_SS_Auction_INVALID_def)

lemma on_manager: "while_up (ok now) p \<Longrightarrow> while_up (ok now) (on_manager ev p)"
  by (cases p) (simp_all add: manager)

lemma client_step:
  "while_up (ok now) (io_world s) \<Longrightarrow> while_up (ok now) (io_world (io_step (game_ops Q C E) ev s))"
  by (rule io_step_keeps [where P = "while_up (ok now)"]) (simp_all add: game_ops_def session on_manager)

lemma link:
  assumes "while_up (ok now) (rx_world (al_rx l))"
  shows "while_up (ok now) (rx_world (al_rx (link_step (ConnectDone now err) l)))"
    and "while_up (ok now) (rx_world (al_rx (link_receive R C now bs l)))"
    and "while_up (ok now) (rx_world (al_rx (link_lost l)))"
    and "while_up (ok now) (rx_world (al_rx (link_tick now t l)))"
proof -
  show "while_up (ok now) (rx_world (al_rx (link_step (ConnectDone now err) l)))"
    using assms by (cases "rx_world (al_rx l)") (auto simp: AuctionSession_OnConnect_def AsyncHeaderRead_def refresh)
  show "while_up (ok now) (rx_world (al_rx (link_receive R C now bs l)))"
    using assms by (auto simp: link_receive_def intro!: rx_receive_keeps [where P = "while_up (ok now)"] auction_session)
  show "while_up (ok now) (rx_world (al_rx (link_lost l)))"
    using assms by (auto simp: link_lost_def OnHeaderRead_def rx_Close_def)
  show "while_up (ok now) (rx_world (al_rx (link_tick now t l)))"
    using assms by (cases "rx_world (al_rx l)") (auto simp: link_tick_def ticks)
qed

lemma auction_step:
  assumes "\<And>l. while_up (ok now) (rx_world (al_rx l)) \<Longrightarrow> while_up (ok now) (rx_world (al_rx (f l)))"
    and "while_up (ok now) (io_world (gm_io s))"
  shows "while_up (ok now) (io_world (gm_io (on_auction f s)))"
  using assms by (simp add: on_auction_def Let_def)

lemma step:
  assumes "while_up (ok now) (io_world (gm_io s))" and "now \<le> time_after now ev"
  shows "while_up (ok (time_after now ev)) (io_world (gm_io (game_step Q C E R ev s)))"
proof -
  have "while_up (ok (time_after now ev)) (io_world (gm_io s))"
    using assms by (cases "io_world (gm_io s)") (auto intro: later)
  then show ?thesis
    by (cases ev) (simp_all add: time_after_def client_step auction_step link del: link_step.simps)
qed

lemma run:
  "while_up (ok now) (io_world (gm_io s)) \<Longrightarrow> in_time now evs \<Longrightarrow>
   while_up (ok (fold (\<lambda>ev now. time_after now ev) evs now)) (io_world (gm_io (fold (game_step Q C E R) evs s)))"
  by (induction evs arbitrary: now s) (simp_all add: step)

end

text \<open>A property that does not mention the time needs no clock.\<close>

locale timeless_game_invariant = game_invariant Q C R "\<lambda>now. ok"
  for Q :: "('mv, 'at) game_requests" and C :: game_classes and R :: ss_reply_classes
    and ok :: "game_world \<Rightarrow> bool"
begin

lemma run_always:
  "while_up ok (io_world (gm_io s)) \<Longrightarrow> while_up ok (io_world (gm_io (fold (game_step Q C E R) evs s)))"
proof (induction evs arbitrary: s)
  case (Cons ev evs)
  have "while_up ok (io_world (gm_io (game_step Q C E R ev s)))"
    using step [where now = "case event_time ev of None \<Rightarrow> 0 | Some t \<Rightarrow> t" and s = s and ev = ev] Cons.prems
    by (auto simp: time_after_def split: option.splits)
  with Cons.IH show ?case by simp
qed simp

end

end
