(* ===== verification/GameState.thy ===== *)
theory GameState
  imports GameInvariant
begin

text \<open>
  The state of the game server stays well formed: its database connections and tables, the room and
  the cache's snapshot, in everything \<open>GameServer_main\<close> can reach.
\<close>

section \<open>Well-formed parts\<close>

text \<open>
  The connections and the character tables; the latter as long as no generated key has outgrown the
  \<open>int\<close> it is read into.
\<close>

definition db_ok :: "db_server \<Rightarrow> bool" where
  "db_ok d \<longleftrightarrow> server_inv d \<and> (key_in_int32 d \<longrightarrow> character_inv (ds_autoinc d) (ds_tables d))"

text \<open>The snapshot's index points to items, the ones with the ids looked up.\<close>

definition index_ok :: "Snapshot \<Rightarrow> bool" where
  "index_ok sn \<longleftrightarrow> (\<forall>lid i. sn_index sn lid = Some i \<longrightarrow> i < length (sn_items sn) \<and> ai_list_id (sn_items sn ! i) = lid)"

definition world_ok :: "game_world \<Rightarrow> bool" where
  "world_ok w \<longleftrightarrow> db_ok (gw_db w) \<and> room_inv (gw_room w) \<and> pred_option index_ok (snapshot w)"

section \<open>The database\<close>

lemma db_ok_same:
  "db_ok d \<Longrightarrow> server_inv d' \<Longrightarrow> ds_tables d' = ds_tables d \<Longrightarrow> ds_autoinc d' = ds_autoinc d \<Longrightarrow> db_ok d'"
  by (simp add: db_ok_def key_in_int32_def)

lemma db_ok_read:
  "db_ok d \<Longrightarrow> with_conn create body d = (r, d') \<Longrightarrow> read_only body \<Longrightarrow> db_ok d'"
  using with_conn_read_only [of d create body r d'] by (auto simp: db_ok_def key_in_int32_def)

lemma db_ok_serve: "db_ok d \<Longrightarrow> db_ok (lobby_serve sd create req d)"
  using lobby_serve_server [of d sd create req] lobby_serve_inv [of d sd create req]
  by (fastforce simp: db_ok_def lobby_inv_def key_in_int32_def ids_le_def)

lemmas db_ok_writes = db_ok_serve [where req = "CreateCharacter pkt" for pkt, simplified]
  db_ok_serve [where req = "DeleteCharacter a c" for a c, simplified]

lemma db_ok_reads:
  "db_ok d \<Longrightarrow> db_ok (snd (Handle_REQ_CHECK_TOKENVALID same_text create pid token d))"
  "db_ok d \<Longrightarrow> db_ok (snd (Handle_REQ_CHARACTER_LIST create pid d))"
  "db_ok d \<Longrightarrow> db_ok (snd (Handle_REQ_CHECK_NICKNAME same_text create name d))"
proof -
  have "read_only (bindM (executeQuery (checkToken same_text) [ArgInt32 (ucast pid), ArgString token]) (\<lambda>rows.
      bindM (db_step OpFetch) (\<lambda>_. returnM (True, [PKT_RES_CHECK_TOKENVALID (rows \<noteq> [])]))))"
    by (intro read_only_bindM read_only_executeQuery read_only_db_step read_only_returnM well_bound_login)
  then show "db_ok d \<Longrightarrow> db_ok (snd (Handle_REQ_CHECK_TOKENVALID same_text create pid token d))"
    by (metis db_ok_read Handle_REQ_CHECK_TOKENVALID_def prod.collapse)
  have "read_only (if pid > 0
      then bindM (executeQuery FindList [ArgUInt64 pid]) (\<lambda>rows.
           bindM (db_step OpFetch) (\<lambda>_. returnM (True, [PKT_RES_CHARACTER_LIST True (map lobby_character rows)])))
      else returnM (True, [PKT_RES_CHARACTER_LIST False []]))"
    by (auto intro!: read_only_bindM read_only_executeQuery well_bound_FindList)
  then show "db_ok d \<Longrightarrow> db_ok (snd (Handle_REQ_CHARACTER_LIST create pid d))"
    by (metis db_ok_read Handle_REQ_CHARACTER_LIST_def prod.collapse)
  have "well_bound (nicknameQuery same_text) [ArgString name]"
    by (simp add: well_bound_def nicknameQuery_def)
  then have "read_only (bindM (executeQuery (nicknameQuery same_text) [ArgString name]) (\<lambda>rows.
      bindM (db_step OpFetch) (\<lambda>_. returnM (True, [PKT_RES_CHECK_NICKNAME (rows \<noteq> [])]))))"
    by (intro read_only_bindM read_only_executeQuery read_only_db_step read_only_returnM)
  then show "db_ok d \<Longrightarrow> db_ok (snd (Handle_REQ_CHECK_NICKNAME same_text create name d))"
    by (metis db_ok_read Handle_REQ_CHECK_NICKNAME_def prod.collapse)
qed

section \<open>The clients' handlers\<close>

lemma world_ok_on_lobby:
  assumes "world_ok w" and "db_ok (snd (f (gw_db w)))"
  shows "while_up world_ok (snd (on_lobby C session f (Up w)))"
  using assms by (auto simp: world_ok_def fold_send_client split: prod.splits sum.splits)

lemma world_ok_on_room:
  assumes "world_ok w" and "\<And>r. room_inv r \<Longrightarrow> room_inv (snd (f r))"
  shows "while_up world_ok (snd (on_room C f (Up w)))"
proof -
  let ?r = "(gw_room w)\<lparr>rw_alive := (\<lambda>obj. sm_heap (gs_manager (gw_game w)) obj \<noteq> None), rw_sent := []\<rparr>"
  have "room_inv ?r" using assms(1) by (simp add: world_ok_def room_inv_def)
  from assms(2) [OF this] have "room_inv ((snd (f ?r))\<lparr>rw_sent := []\<rparr>)" by (simp add: room_inv_def)
  with assms(1) show ?thesis by (auto simp: world_ok_def fold_send_clients split: prod.splits)
qed

text \<open>The auction handlers leave the database and the room alone.\<close>

definition rest_same :: "game_world \<Rightarrow> game_world server_process \<Rightarrow> bool" where
  "rest_same w p \<longleftrightarrow> (\<forall>w'. p = Up w' \<longrightarrow> gw_db w' = gw_db w \<and> gw_room w' = gw_room w)"

lemma on_game_rest:
  "rest_same w (snd (on_game f (Up w)))" "rest_same w (snd (on_game_outcome g (Up w)))"
  by (auto simp: rest_same_def split: prod.splits outcome.splits)

lemma game_entry_ok:
  assumes "(code, h) \<in> set (GamePacketHandler_entries Q C E session)" and w: "world_ok w"
  shows "while_up world_ok (snd (h body (Up w)))"
proof -
  let ?A = "\<lambda>p. while_up world_ok p \<or> rest_same w p"
  have lobby: "?A (snd (on_lobby C session f (Up w)))" if "db_ok (gw_db w) \<Longrightarrow> db_ok (snd (f (gw_db w)))" for f
    using world_ok_on_lobby [OF w] that w by (simp add: world_ok_def)
  have room: "?A (snd (on_room C f (Up w)))" if "\<And>r. room_inv r \<Longrightarrow> room_inv (snd (f r))" for f
    using world_ok_on_room [OF w] that by blast
  have same: "?A (Up w)" using w by simp
  have "list_all (\<lambda>(code, h). ?A (snd (h body (Up w)))) (GamePacketHandler_entries Q C E session)"
    unfolding GamePacketHandler_entries_def list.pred_inject(2) prod.case
    by (intro conjI; (rule dispatch_keeps [where A = ?A, OF same])?)
      (auto simp only: on_game_rest Handle_REQ_MOVE_def Handle_REQ_ATTACK_def snd_conv same list.pred_inject(1) simp_thms
        split: prod.split intro!: lobby room db_ok_reads db_ok_writes game_room.enter_effect [THEN conjunct1]
          game_room.leave_effect [THEN conjunct1])
  with assms(1) have "?A (snd (h body (Up w)))" by (auto simp: list_all_iff)
  moreover have "still table_and_cycle (table_and_cycle w) (snd (h body (Up w)))"
    by (rule game_entry_still [OF assms(1)]) simp
  ultimately show ?thesis
    using w by (cases "snd (h body (Up w))") (auto simp: world_ok_def table_and_cycle_def rest_same_def dest: cycle_snapshot)
qed

section \<open>The auction thread\<close>

lemma index_ok_make_snapshot: "index_ok (make_snapshot M now items)"
  using lookup_list_id_Some [of 0 items] by (fastforce simp: index_ok_def make_snapshot_fields)

definition cache_ok :: "auction_cache \<Rightarrow> bool" where
  "cache_ok c \<longleftrightarrow> pred_option index_ok (ca_snapshot c)"

lemma cache_ok_response: "cache_ok c \<Longrightarrow> cache_ok (OnRefreshResponse M now pkt c)"
  by (simp add: cache_ok_def snapshot_OnRefreshResponse index_ok_make_snapshot)

lemma cache_ok_tick: "cache_ok c \<Longrightarrow> cache_ok (tick t now b c)"
  by (cases t) (auto simp: cache_ok_def split: option.splits nat.splits list.splits)

lemma world_ok_game_only: "world_ok w \<Longrightarrow> cache_ok (gs_cache s) \<Longrightarrow> world_ok (w\<lparr>gw_game := s\<rparr>)"
  by (simp add: world_ok_def cache_ok_def)

lemma reply_entry_ok:
  assumes "(code, h) \<in> set (AuctionServerPacketHandler_entries R C now)" and w: "world_ok w"
  shows "while_up world_ok (snd (h body (Up w)))"
proof -
  have "cache_ok (gs_cache (gw_game w))" using w by (simp add: world_ok_def cache_ok_def)
  with assms show ?thesis
    by (auto simp: AuctionServerPacketHandler_entries_def Handle_RES_AUCTION_LIST_def Handle_RES_RECEIPT_LIST_def
        Handle_RES_REGIST_ITEM_def Handle_RES_PURCHASE_ITEM_def Handle_RES_RECEIPT_ITEM_def Let_def cache_ok_response
        intro!: dispatch_keeps [where A = "while_up world_ok"] world_ok_game_only split: prod.splits)
qed

section \<open>Every reachable state\<close>

interpretation state: timeless_game_invariant Q C R world_ok for Q C R
proof
  show "world_ok (with_cache w (tick t now b (gs_cache (gw_game w))))" if "world_ok w" for w t now b
    using that cache_ok_tick [of "gs_cache (gw_game w)" t now b] by (simp add: world_ok_def cache_ok_def)
qed (simp_all add: game_entry_ok reply_entry_ok, simp_all add: world_ok_def)

lemma game_start_ok:
  assumes "Init create 10 = Inr p" and "\<forall>i. cn_autocommit (ds_conns db i)"
    and "key_in_int32 db \<longrightarrow> character_inv (ds_autoinc db) (ds_tables db)"
  shows "while_up world_ok (io_world (gm_io (game_start db p)))"
proof -
  have "server_inv (db\<lparr>ds_pool := p\<rparr>)"
    using Init_full [OF assms(1)] assms(2) by (simp add: server_inv_def)
  with assms(3) show ?thesis
    by (simp add: game_start_def io_init_def StartAccept_def world_ok_def db_ok_def key_in_int32_def room_inv_init
        cache_Init_def AuctionCache_def Let_def)
qed

text \<open>
  C9: the game server's state is always well formed.  Started on connections with autocommit on and on
  consistent character tables, the server keeps, whatever its clients and the auction thread do and
  whatever calls to the database fail: every connection it can lend has autocommit on and belongs
  to the pool; each character has exactly one row in each table (as long as the generated keys fit an
  \<open>int\<close>); the room's members are exactly the players that believe they are in it; and the index the
  purchase check reads never points outside the cached list.
\<close>

theorem game_state_well_formed:
  assumes "GameServer_main Q C E R db evs = Inr s" and "io_world (gm_io s) = Up w"
    and "\<forall>i. cn_autocommit (ds_conns db i)"
    and "key_in_int32 db \<longrightarrow> character_inv (ds_autoinc db) (ds_tables db)"
  shows "server_inv (gw_db w)
    \<and> (key_in_int32 (gw_db w) \<longrightarrow> character_inv (ds_autoinc (gw_db w)) (ds_tables (gw_db w)))
    \<and> room_inv (gw_room w)
    \<and> (\<forall>sn lid i. snapshot w = Some sn \<and> sn_index sn lid = Some i \<longrightarrow> i < length (sn_items sn) \<and> ai_list_id (sn_items sn ! i) = lid)"
proof -
  obtain p where p: "Init (ge_create E) 10 = Inr p" and s: "s = fold (game_step Q C E R) evs (game_start db p)"
    using assms(1) by (auto simp: GameServer_main_def split: sum.splits)
  from state.run_always [OF game_start_ok [OF p assms(3,4)], of Q C E R evs] assms(2) have "world_ok w" by (simp add: s)
  then show ?thesis by (auto simp: world_ok_def db_ok_def index_ok_def)
qed

theorem game_state_well_formed_witness:
  "\<exists>s w. GameServer_main demo_game_requests demo_classes demo_game_env demo_ss_replies (lobby_demo (\<lambda>_ _. None))
       [Client 0 (Accepted False), AuctionConnected 1 False, Client 2 (Lost 0)] = Inr s
    \<and> io_world (gm_io s) = Up w
    \<and> server_inv (gw_db w) \<and> character_inv (ds_autoinc (gw_db w)) (ds_tables (gw_db w)) \<and> room_inv (gw_room w)"
proof -
  let ?evs = "[Client 0 (Accepted False), AuctionConnected 1 False, Client 2 (Lost 0)]"
  let ?db = "lobby_demo (\<lambda>_ _. None)"
  obtain p where p: "Init (\<lambda>_. None) 10 = Inr p" using Init_all by blast
  define s where "s = fold (game_step demo_game_requests demo_classes demo_game_env demo_ss_replies) ?evs (game_start ?db p)"
  have main: "GameServer_main demo_game_requests demo_classes demo_game_env demo_ss_replies ?db ?evs = Inr s"
    using p by (simp add: GameServer_main_def s_def demo_game_env_def)
  have db: "\<forall>i. cn_autocommit (ds_conns ?db i)" "character_inv (ds_autoinc ?db) (ds_tables ?db)"
    using lobby_demo_inv(1) [of "\<lambda>_ _. None"] by (simp_all add: lobby_inv_def) (simp add: lobby_demo_def)
  obtain w where w: "io_world (gm_io s) = Up w" "ds_tables (gw_db w) = ds_tables ?db" "ds_autoinc (gw_db w) = ds_autoinc ?db"
    by (simp add: s_def game_start_def io_init_def StartAccept_def OnAccept_def OnLost_def game_ops_def Let_def
        rx_init_def OnHeaderRead_def rx_Close_def on_auction_def AuctionSession_Connect_def AuctionSession_def
        AuctionSession_OnConnect_def AsyncHeaderRead_def)
  from game_state_well_formed [OF main w(1) db(1)] db(2) main w show ?thesis by auto
qed

end
