(* ===== verification/GameCache.thy ===== *)
theory GameCache
  imports GameInvariant
begin

text \<open>
  The cache's refresh cycle inside the game server: what \<open>Cache\<close> shows of the timed steps holds of the
  running server, whose clients and auction thread share the cache.
\<close>

section \<open>One event\<close>

definition cycle_ok :: "int \<Rightarrow> game_world \<Rightarrow> bool" where
  "cycle_ok now w \<longleftrightarrow> cache_inv now (gs_cache (gw_game w)) \<and> \<not> ca_dirty (gs_cache (gw_game w))"

lemma cycle_ok_cycle: "cycle (gs_cache (gw_game w')) = cycle (gs_cache (gw_game w)) \<Longrightarrow> cycle_ok now w' = cycle_ok now w"
proof -
  have "cycle_ok now w \<longleftrightarrow> cache_inv now (cycle (gs_cache (gw_game w))) \<and> \<not> ca_dirty (cycle (gs_cache (gw_game w)))" for w
    by (simp add: cycle_ok_def cycle_def cache_inv_defs)
  then show "cycle (gs_cache (gw_game w')) = cycle (gs_cache (gw_game w)) \<Longrightarrow> cycle_ok now w' = cycle_ok now w" by simp
qed

text \<open>The clients' handlers change only the counters.\<close>

lemma client_entry_cycle:
  assumes "(code, h) \<in> set (GamePacketHandler_entries Q C E session)" and "cycle_ok now w"
  shows "while_up (cycle_ok now) (snd (h body (Up w)))"
proof -
  have "still table_and_cycle (table_and_cycle w) (snd (h body (Up w)))"
    by (rule game_entry_still [OF assms(1)]) simp
  then show ?thesis
  proof (cases "snd (h body (Up w))")
    case (Up w')
    then have "cycle (gs_cache (gw_game w')) = cycle (gs_cache (gw_game w))"
      using \<open>still table_and_cycle _ _\<close> by (simp add: table_and_cycle_def)
    from cycle_ok_cycle [OF this] assms(2) Up show ?thesis by simp
  qed simp_all
qed

lemma tick_inv:
  assumes "cache_inv now c"
  shows "cache_inv now (tick t now b c)"
proof (cases t)
  case TimerDue
  then show ?thesis using assms cache_step_inv [OF cache_step.timer_due] by (auto split: option.splits)
next
  case TimerRun
  then show ?thesis using assms cache_step_inv [OF cache_step.timer_run] by (auto split: nat.splits)
next
  case TimeoutDue
  then show ?thesis using assms cache_step_inv [OF cache_step.timeout_due] by (auto split: option.splits)
next
  case TimeoutRun
  then show ?thesis using assms cache_step_inv [OF cache_step.timeout_run] by (auto split: list.splits)
qed

text \<open>Nothing on the server calls \<open>MarkDirty\<close>.\<close>

lemma dirty_kept:
  "\<not> ca_dirty c \<Longrightarrow> \<not> ca_dirty (tick t now b c)" "\<not> ca_dirty c \<Longrightarrow> \<not> ca_dirty (RequestRefresh b now c)"
  "\<not> ca_dirty c \<Longrightarrow> \<not> ca_dirty (OnRefreshResponse M now pkt c)"
  by (cases t) (auto simp: OnTimer_def on_timeout_wait_def OnRequestTimeout_def RequestRefresh_def ArmTimer_def
      OnRefreshResponse_def FinishRefresh_def StoreSnapshot_def Let_def split: option.splits nat.splits list.splits)

lemma reply_entry_cycle:
  assumes "(code, h) \<in> set (AuctionServerPacketHandler_entries R C now)" and w: "cycle_ok now w"
  shows "while_up (cycle_ok now) (snd (h body (Up w)))"
proof -
  have "cache_inv now (OnRefreshResponse (gc_auction_list C) now pkt (gs_cache (gw_game w)))" for pkt
    using w cache_step_inv [OF cache_step.response] by (auto simp: cycle_ok_def)
  with assms show ?thesis
    by (auto simp: AuctionServerPacketHandler_entries_def Handle_RES_AUCTION_LIST_def Handle_RES_RECEIPT_LIST_def
        Handle_RES_REGIST_ITEM_def Handle_RES_PURCHASE_ITEM_def Handle_RES_RECEIPT_ITEM_def Let_def dirty_kept
        cycle_ok_def intro!: dispatch_keeps [where A = "while_up (cycle_ok now)"] split: prod.splits)
qed

section \<open>Every run\<close>

interpretation cycle: game_invariant Q C R cycle_ok for Q C R
proof
  show "cycle_ok now' w" if "cycle_ok now w" "now \<le> now'" for now now' w
    using that cache_step_inv [OF cache_step.time] by (auto simp: cycle_ok_def)
qed (simp_all add: client_entry_cycle reply_entry_cycle, simp_all add: cycle_ok_def RequestRefresh_inv tick_inv dirty_kept)




end
