(* ===== verification/GameExit.thy ===== *)
theory GameExit
  imports GameMain
begin

text \<open>
  The game server's \<open>main\<close> to its end (\<^verbatim>\<open>GameServer.cpp\<close>): what can fail before its threads run, the
  clean-up behind the \<^verbatim>\<open>try\<close>, and the order in which its objects are destroyed.
\<close>

section \<open>The end of the program\<close>


record game_exit =
  ex_status :: int
  ex_caught :: exn
  ex_joined :: bool
  ex_left :: "game_main option"
  ex_statics :: bool


section \<open>The destruction of its objects\<close>

text \<open>An I/O object uses its context's services when it is destroyed, so its context must still be there.\<close>

datatype io_context = IoContext | AuctionIo

datatype exit_object = Context io_context | IoObject string io_context | Other string

fun destroy_all :: "io_context list \<Rightarrow> exit_object list \<Rightarrow> exit_object option" where
  "destroy_all live [] = None"
| "destroy_all live (Context c # objs) = destroy_all (removeAll c live) objs"
| "destroy_all live (IoObject name c # objs) = (if c \<in> set live then destroy_all live objs else Some (IoObject name c))"
| "destroy_all live (Other name # objs) = destroy_all live objs"

text \<open>
  \<open>main\<close>'s variables in the order of their declarations, and the static objects in the order they are
  made; \<open>s\<close>, the server with its acceptor, is gone with the \<^verbatim>\<open>try\<close>.
\<close>

definition main_locals :: "exit_object list" where
  "main_locals = [Other ''connection_factory'', Context IoContext, Context AuctionIo, Other ''auctionWork'', Other ''auctionThread'']"

definition static_objects :: "bool \<Rightarrow> exit_object list" where
  "static_objects made =
     (if made then [IoObject ''GAuctionSession'' AuctionIo, IoObject ''AuctionCache::_timer'' AuctionIo,
        IoObject ''AuctionCache::_timeoutTimer'' AuctionIo] else [])"

text \<open>The first object destroyed without its context.\<close>

definition exit_misuse :: "game_exit \<Rightarrow> exit_object option" where
  "exit_misuse x = destroy_all [IoContext, AuctionIo] (rev main_locals @ rev (static_objects (ex_statics x)))"

text \<open>
  Every end of the program after the session with the auction server was made misuses memory: the
  cache's timers and the session are static, their context a variable of \<open>main\<close>.
\<close>

lemma exit_misuse_iff: "exit_misuse x \<noteq> None \<longleftrightarrow> ex_statics x"
  by (simp add: exit_misuse_def main_locals_def static_objects_def)

section \<open>One client ends the program\<close>




end
