(* ===== verification/EndToEnd.thy ===== *)
theory EndToEnd
  imports GameServer
begin

text \<open>
  A purchase across the servers: the client's bytes at the game server, the forwarded request at the
  auction server, the worker's transaction, and the reply on its way back to the client.
\<close>

section \<open>The worker\<close>

text \<open>A worker with nothing to do gets a task and runs it on its own connection.\<close>

lemma post_and_run:
  assumes "0 < length (wp_writers srv)" and "i = unat key mod length (wp_writers srv)"
    and "w_queue (wp_writers srv ! i) = []" and "w_conn (wp_writers srv ! i) = Some c"
  shows "wp_conns (run_writer exec i (PostWrite key t srv)) c = run_task exec t (wp_conns srv c)"
proof -
  have "i < length (wp_writers srv)" using assms(1,2) by simp
  with assms show ?thesis by (auto simp: PostWrite_def run_writer_def run_next_def Post_def run_on_def Let_def)
qed

text \<open>The answer and the tables a purchase request must get at time \<open>t\<close>.\<close>

definition as_specified :: "int \<Rightarrow> AuctionItemInfo \<Rightarrow> conn \<Rightarrow> bool \<Rightarrow> int64 \<Rightarrow> conn \<Rightarrow> bool" where
  "as_specified t info c ok cost c' \<longleftrightarrow>
     (case purchase_spec (cn_found_rows c) t (sint (ai_player_id info)) (sint (ai_list_id info))
         (sint (ai_count info)) (next_receipt_id (cn_autoinc c)) (cn_committed c) of
       None \<Rightarrow> \<not> ok \<and> cn_committed c' = cn_committed c
     | Some (price, d) \<Rightarrow> ok \<and> sint cost = price \<and> cn_committed c' = d)"

text \<open>The task of a purchase sends one reply, as specified.\<close>

lemma purchase_task:
  assumes "srpi_purchaseinfo req = [info]" and "idle (wio_conn io)" and "no_fault (wio_conn io)"
    and "cn_clock (wio_conn io) = (\<lambda>_. t)" and "fits (cn_committed (wio_conn io))"
  obtains ok cost c' where "as_specified t info (wio_conn io) ok cost c'"
    and "run_task (run_request datetime list_id) (conn, PKT_SS_REQ_PURCHASE_ITEM req) io =
      \<lparr>wio_conn = c', wio_replies = wio_replies io @ [(conn, PKT_SS_RES_PURCHASE_ITEM
         \<lparr>sspi_session_id = srpi_session_id req, sspi_result = ok, sspi_gold = cost\<rparr>)]\<rparr>"
proof -
  from Purchase_meets_spec [OF assms(2-5), of info] obtain res c' where
    run: "Purchase info (wio_conn io) = (Inr res, c')" and
    spec: "as_specified t info (wio_conn io) (pr_success res) (pr_totalPrice res) c'"
    by (auto simp: as_specified_def)
  show ?thesis
    by (rule that [OF spec]) (cases io, use run assms(1) in \<open>simp add: run_task_def run_request_def on_conn_def
         bindM_def catchM_def returnM_def ProcessPurchaseItem_def first_info_def ReplyPacket_def\<close>)
qed

section \<open>From the client and back\<close>

text \<open>
  C4: a purchase from end to end.  A registered client's request that the cache does not reject,
  however its bytes are cut, makes the game server hand the auction connection one request under the
  client's session id; the bytes of that request make the auction server post it to the writer of the
  listing; the writer's transaction is the specification's purchase, and it sends one reply on the
  connection the request came from; and the bytes of that reply make the game server send exactly one
  \<open>RES_PURCHASE_ITEM\<close>, with the specification's result and price, to that client and to no other.
\<close>

theorem purchase_end_to_end:
  assumes "sendable (gq_purchase_item Q) (info # infos)"
    and "concat chunks = SendPacket (gq_purchase_item Q) (info # infos) 4006"
    and "gs_auction (gw_game w) = Some sent" and "Find sid (gs_manager (gw_game w)) = Some obj"
    and "GetSessionId obj (gw_game w) = sid" and "0 \<le> sint sid \<and> sint sid < 2 ^ 31"
    and "ValidatePurchase (ge_now E) (ai_list_id info) (ai_count info) (ai_player_id info)
          (gs_cache (gw_game w)) = (verdict, cache)" and "verdict \<in> {Pass, Unknown}"
    and "req = \<lparr>srpi_session_id = sid, srpi_purchaseinfo = [info]\<rparr>" and "sendable (ssc_purchase_item S) req"
    and "concat chunks' = SendPacket (ssc_purchase_item S) req 6"
    and "0 < length (wp_writers srv)" and "i = unat (ai_list_id info) mod length (wp_writers srv)"
    and "w_queue (wp_writers srv ! i) = []" and "w_conn (wp_writers srv ! i) = Some c"
    and io: "io = wp_conns srv c" "idle (wio_conn io)" "no_fault (wio_conn io)" "cn_clock (wio_conn io) = (\<lambda>_. t)"
      "fits (cn_committed (wio_conn io))"
    and "\<And>ok cost. sendable (ssr_purchase_item R) \<lparr>sspi_session_id = sid, sspi_result = ok, sspi_gold = cost\<rparr>"
  shows "\<exists>w1 srv1 ok cost io'.
      rx_world (fold (rx_receive (GameSession_HandlePacket Q C E obj)) chunks (rx_init (Up w))) = Up w1
    \<and> gs_auction (gw_game w1) = Some (sent @ [PKT_SS_REQ_PURCHASE_ITEM req])
    \<and> rx_world (fold (rx_receive (AuctionSession_HandlePacket S conn)) chunks' (rx_init (Up srv))) = Up srv1
    \<and> wp_conns (run_writer (run_request datetime list_id) i srv1) c = io'
    \<and> as_specified t info (wio_conn io) ok cost (wio_conn io')
    \<and> wio_replies io' = wio_replies io @ [(conn, PKT_SS_RES_PURCHASE_ITEM
        \<lparr>sspi_session_id = sid, sspi_result = ok, sspi_gold = cost\<rparr>)]
    \<and> (\<forall>bytes. concat bytes = SendPacket (ssr_purchase_item R)
          \<lparr>sspi_session_id = sid, sspi_result = ok, sspi_gold = cost\<rparr> 7 \<longrightarrow>
        (\<exists>w2. rx_world (fold (rx_receive (Game_AuctionSession_HandlePacket R C now)) bytes (rx_init (Up w1))) = Up w2
          \<and> gs_tx (gw_game w2) = (gs_tx (gw_game w))(obj :=
              Send (SendPacket (gc_purchase_item C) (ok, cost) 4007) (gs_tx (gw_game w) obj))))"
proof -
  note fw = purchase_forwarded [OF assms(1-3,7,8), of C obj, unfolded assms(5), folded assms(9)]
  have info: "srpi_purchaseinfo req = [info]" "srpi_session_id req = sid" by (simp_all add: assms(9))
  note po = purchase_posted [OF assms(10,11) info(1), of conn srv]
  from purchase_task [OF info(1) io(2-5), of datetime list_id conn] obtain ok cost c' where
    spec: "as_specified t info (wio_conn io) ok cost c'" and
    task: "run_task (run_request datetime list_id) (conn, PKT_SS_REQ_PURCHASE_ITEM req) io =
      \<lparr>wio_conn = c', wio_replies = wio_replies io @ [(conn, PKT_SS_RES_PURCHASE_ITEM
         \<lparr>sspi_session_id = sid, sspi_result = ok, sspi_gold = cost\<rparr>)]\<rparr>"
    unfolding info(2) by blast
  note run = post_and_run [OF assms(12-15), of "run_request datetime list_id" "(conn, PKT_SS_REQ_PURCHASE_ITEM req)",
      folded io(1), unfolded task]
  let ?r = "\<lparr>sspi_session_id = sid, sspi_result = ok, sspi_gold = cost\<rparr>"
  let ?w1 = "w\<lparr>gw_game := (gw_game w)\<lparr>gs_cache := cache, gs_auction := Some (sent @ [PKT_SS_REQ_PURCHASE_ITEM req])\<rparr>\<rparr>"
  have returns: "\<exists>w2. rx_world (fold (rx_receive (Game_AuctionSession_HandlePacket R C now)) bytes (rx_init (Up ?w1))) = Up w2
      \<and> gs_tx (gw_game w2) = (gs_tx (gw_game w))(obj :=
          Send (SendPacket (gc_purchase_item C) (ok, cost) 4007) (gs_tx (gw_game w) obj))"
    if "concat bytes = SendPacket (ssr_purchase_item R) ?r 7" for bytes
    using results_delivered [of "[?r]" R bytes, OF _ _ _ refl, of C now ?w1] that assms(4,6,21) by auto
  show ?thesis
    by (rule exI [of _ ?w1], rule exI, rule exI [of _ ok], rule exI [of _ cost], rule exI,
        intro conjI allI impI, rule fw, simp, rule po, rule run) (simp add: spec, simp, erule returns)
qed

section \<open>Witness\<close>

lemma demo_result_sendable:
  "sendable (ssr_purchase_item demo_ss_replies) \<lparr>sspi_session_id = 1, sspi_result = ok, sspi_gold = cost\<rparr>"
proof -
  have "Int64Size base128 v \<le> 10" for v using base128.put_max by (simp add: Int64Size_def)
  then have "RES_PURCHASE_ITEM_ByteSizeLong base128 \<lparr>sspi_session_id = 1, sspi_result = ok, sspi_gold = cost\<rparr> \<le> 24"
    using add_mono [of "Int64Size base128 1" 10 "Int64Size base128 cost" 10]
    by (simp add: RES_PURCHASE_ITEM_ByteSizeLong_def trans_le_add1)
  then show ?thesis
    using purchase_result_codec.message_codec_axioms
    by (auto simp: sendable_def demo_ss_replies_def RES_PURCHASE_ITEM_class_def message_class_def SHRT_MAX_def)
qed

definition demo_shop :: "unit auction_server" where
  "demo_shop = demo_server\<lparr>wp_conns := (\<lambda>_. \<lparr>wio_conn = demo_conn (\<lambda>_ _. None), wio_replies = []\<rparr>)\<rparr>"

theorem purchase_end_to_end_witness:
  "\<exists>w1 w2. rx_world (fold (rx_receive (GameSession_HandlePacket demo_game_requests demo_classes demo_game_env 5))
        (map (\<lambda>b. [b]) (SendPacket (Game_REQ_PURCHASE_ITEM_class base128) [demo_info] 4006))
        (rx_init (Up demo_game_world))) = Up w1
    \<and> rx_world (fold (rx_receive (Game_AuctionSession_HandlePacket demo_ss_replies demo_classes 0))
        [SendPacket (RES_PURCHASE_ITEM_class base128) \<lparr>sspi_session_id = 1, sspi_result = True, sspi_gold = 300\<rparr> 7]
        (rx_init (Up w1))) = Up w2
    \<and> gs_tx (gw_game w2) = (\<lambda>_. tx_init)(5 := Send (SendPacket (gc_purchase_item demo_classes) (True, 300) 4007) tx_init)"
proof -
  obtain verdict cache where v: "ValidatePurchase (ge_now demo_game_env) (ai_list_id demo_info) (ai_count demo_info)
      (ai_player_id demo_info) (gs_cache (gw_game demo_game_world)) = (verdict, cache)" "verdict \<in> {Pass, Unknown}"
    by (simp add: demo_game_world_def demo_game_def ValidatePurchase_def AuctionCache_def Let_def)
  have g: "gs_auction (gw_game demo_game_world) = Some []" "Find 1 (gs_manager (gw_game demo_game_world)) = Some 5"
    "GetSessionId 5 (gw_game demo_game_world) = 1" "gs_tx (gw_game demo_game_world) = (\<lambda>_. tx_init)"
    "0 \<le> sint (1 :: int64) \<and> sint (1 :: int64) < 2 ^ 31"
    by (simp_all add: demo_game_world_def demo_session) (simp_all add: demo_game_def)
  have c: "concat (map (\<lambda>b. [b]) bs) = bs" for bs :: "byte list" by (induction bs) simp_all
  have s: "0 < length (wp_writers demo_shop)" "w_queue (wp_writers demo_shop ! 1) = []"
    "w_conn (wp_writers demo_shop ! 1) = Some 1" "1 = unat (ai_list_id demo_info) mod length (wp_writers demo_shop)"
    and io: "\<And>i. wp_conns demo_shop i = \<lparr>wio_conn = demo_conn (\<lambda>_ _. None), wio_replies = []\<rparr>"
    by (simp_all add: demo_shop_def demo_server_def demo_worker_def demo_info_def)
  have spec: "\<exists>d. purchase_spec False 500 10 1 3 1 demo_db = Some (300, d)"
    by (simp add: purchase_spec_def find_listing_def purchasable_def demo_db_def)
  have paid: "ok \<and> cost = 300" if "as_specified 500 demo_info (demo_conn (\<lambda>_ _. None)) ok cost c'" for ok cost c'
  proof -
    have "ok \<and> sint cost = sint (300 :: int64)" using that spec by (auto simp: as_specified_def demo_facts demo_info_def)
    then show ?thesis by (blast intro: signed_word_eqI)
  qed
  let ?chunks = "map (\<lambda>b. [b]) (SendPacket (Game_REQ_PURCHASE_ITEM_class base128) [demo_info] 4006)"
  have wire: "concat ?chunks = SendPacket (gq_purchase_item demo_game_requests) [demo_info] 4006"
    "concat [SendPacket (ssc_purchase_item demo_ss_requests) demo_forward 6] = SendPacket (ssc_purchase_item demo_ss_requests) demo_forward 6"
    by (simp_all add: c demo_game_requests_def)
  have conn: "idle (wio_conn (wp_conns demo_shop 1))" "no_fault (wio_conn (wp_conns demo_shop 1))"
    "cn_clock (wio_conn (wp_conns demo_shop 1)) = (\<lambda>_. 500)" "fits (cn_committed (wio_conn (wp_conns demo_shop 1)))"
    by (simp_all add: io demo_facts demo_no_fault demo_fits)
  from purchase_end_to_end [where R = demo_ss_replies and C = demo_classes and now = 0,
      OF demo_sendable(1) wire(1) g(1-3,5) v demo_forward_def demo_sendable(2) wire(2) s(1,4,2,3) refl conn
        demo_result_sendable]
  obtain w1 ok cost c' where
    w1: "rx_world (fold (rx_receive (GameSession_HandlePacket demo_game_requests demo_classes demo_game_env 5))
        ?chunks (rx_init (Up demo_game_world))) = Up w1"
    and paid1: "as_specified 500 demo_info (wio_conn (wp_conns demo_shop 1)) ok cost c'"
    and ret: "\<And>bytes. concat bytes = SendPacket (ssr_purchase_item demo_ss_replies)
          \<lparr>sspi_session_id = 1, sspi_result = ok, sspi_gold = cost\<rparr> 7 \<Longrightarrow>
        \<exists>w2. rx_world (fold (rx_receive (Game_AuctionSession_HandlePacket demo_ss_replies demo_classes 0)) bytes (rx_init (Up w1))) = Up w2
          \<and> gs_tx (gw_game w2) = (gs_tx (gw_game demo_game_world))(5 :=
              Send (SendPacket (gc_purchase_item demo_classes) (ok, cost) 4007) (gs_tx (gw_game demo_game_world) 5))"
    by blast
  from paid [of ok cost c'] paid1 have "ok" "cost = 300" by (simp_all add: io)
  with w1 ret [of "[SendPacket (RES_PURCHASE_ITEM_class base128) \<lparr>sspi_session_id = 1, sspi_result = True, sspi_gold = 300\<rparr> 7]"]
  show ?thesis by (simp add: demo_ss_replies_def g(4))
qed

end
