(* ===== verification/PacketGen.thy ===== *)
theory PacketGen
  imports Dispatch GameServer "HOL-Library.List_Lexorder" "HOL-Library.Char_ord"
begin

text \<open>
  The generator of the packet handler headers (\<^verbatim>\<open>Tools/GamePacketGenerator\<close>): \<open>GameProtoParser\<close> reads
  the packet codes from \<^verbatim>\<open>GameEnum.proto\<close> and the messages from every \<^verbatim>\<open>*Protocol.proto\<close> of a directory;
  \<open>main\<close> sorts the requests by category and renders the headers, whose \<open>Init\<close> fills the table of
  \<open>Dispatch\<close>.  A directory is the list of its files, a file its lines; the text is ASCII.
\<close>

section \<open>Python's strings\<close>

definition ord :: "char \<Rightarrow> int" where
  "ord c = of_char c"

definition space :: "char \<Rightarrow> bool" where
  "space c \<longleftrightarrow> 9 \<le> ord c \<and> ord c \<le> 13 \<or> 28 \<le> ord c \<and> ord c \<le> 32"

definition digit :: "char \<Rightarrow> bool" where
  "digit c \<longleftrightarrow> 48 \<le> ord c \<and> ord c \<le> 57"

definition lower :: "char \<Rightarrow> bool" where
  "lower c \<longleftrightarrow> 97 \<le> ord c \<and> ord c \<le> 122"

definition word_char :: "char \<Rightarrow> bool" where
  "word_char c \<longleftrightarrow> digit c \<or> lower c \<or> 65 \<le> ord c \<and> ord c \<le> 90 \<or> c = CHR ''_''"

definition startswith :: "string \<Rightarrow> string \<Rightarrow> bool" where
  "startswith s p \<longleftrightarrow> take (length p) s = p"

definition endswith :: "string \<Rightarrow> string \<Rightarrow> bool" where
  "endswith s p \<longleftrightarrow> startswith (rev s) (rev p)"

definition strip :: "(char \<Rightarrow> bool) \<Rightarrow> string \<Rightarrow> string" where
  "strip out s = rev (dropWhile out (rev (dropWhile out s)))"

function split_words :: "string \<Rightarrow> string list" where
  "split_words s = (let s' = dropWhile space s in
     if s' = [] then []
     else takeWhile (\<lambda>c. \<not> space c) s' # split_words (dropWhile (\<lambda>c. \<not> space c) s'))"
  by auto
termination
proof (relation "measure length", simp)
  fix s s' :: string
  assume s': "s' = dropWhile space s" "s' \<noteq> []"
  then have "\<not> space (hd s')" using hd_dropWhile by blast
  with s'(2) have "length (dropWhile (\<lambda>c. \<not> space c) s') < length s'"
    by (cases s') (auto simp: length_dropWhile_le le_imp_less_Suc)
  also have "length s' \<le> length s" by (simp add: s'(1) length_dropWhile_le)
  finally show "(dropWhile (\<lambda>c. \<not> space c) s', s) \<in> measure length" by simp
qed

definition upper_char :: "char \<Rightarrow> char" where
  "upper_char c = (if lower c then char_of (ord c - 32) else c)"

definition upper :: "string \<Rightarrow> string" where
  "upper = map upper_char"

text \<open>\<open>replace(p, "")\<close> for a non-empty \<open>p\<close>.\<close>

function remove_all :: "string \<Rightarrow> string \<Rightarrow> string" where
  "remove_all p s =
     (if s = [] then []
      else if p \<noteq> [] \<and> startswith s p then remove_all p (drop (length p) s)
      else hd s # remove_all p (tl s))"
  by auto
termination by (relation "measure (length \<circ> snd)") auto

text \<open>The root of \<open>os.path.splitext\<close>: up to the last dot, unless only dots precede it.\<close>

definition splitext_root :: "string \<Rightarrow> string" where
  "splitext_root s =
     (let root = rev (drop 1 (dropWhile (\<lambda>c. c \<noteq> CHR ''.'') (rev s)))
      in if CHR ''.'' \<in> set s \<and> list_ex (\<lambda>c. c \<noteq> CHR ''.'') root then root else s)"

definition int_of_digits :: "string \<Rightarrow> int" where
  "int_of_digits ds = foldl (\<lambda>n d. 10 * n + (ord d - 48)) 0 ds"

declare split_words.simps [simp del] remove_all.simps [simp del]

section \<open>GameProtoParser\<close>

datatype gen_error =
    FileNotFoundError string
  | ValueError string string
  | IndexError

type_synonym proto_dir = "(string \<times> string list) list"

record gen_packet =
  pk_name :: string
  pk_id :: int
  pk_category :: string

record proto_parser =
  pp_recv_prefix :: string
  pp_send_prefix :: string
  pp_recv_pkt :: "gen_packet list"
  pp_send_pkt :: "gen_packet list"
  pp_total_pkt :: "gen_packet list"
  pp_includes :: "string list"
  pp_enum_map :: "string \<Rightarrow> int option"

text \<open>\<open>re.match(r'\s*PKT_(\w+)\s*=\s*(\d+)\s*;', line)\<close>; its greedy repetitions never need to give anything back.\<close>

definition match_enum :: "string \<Rightarrow> (string \<times> int) option" where
  "match_enum line =
     (let s0 = dropWhile space line;
          name = takeWhile word_char (drop 4 s0);
          s1 = dropWhile space (dropWhile word_char (drop 4 s0));
          s2 = dropWhile space (drop 1 s1);
          ds = takeWhile digit s2;
          s3 = dropWhile space (dropWhile digit s2)
      in if startswith s0 ''PKT_'' \<and> name \<noteq> [] \<and> startswith s1 ''='' \<and> ds \<noteq> [] \<and> startswith s3 '';''
         then Some (name, int_of_digits ds) else None)"

definition parse_enum :: "string list \<Rightarrow> string \<Rightarrow> int option" where
  "parse_enum lines =
     fold (\<lambda>line m. case match_enum line of None \<Rightarrow> m | Some (name, code) \<Rightarrow> m(name \<mapsto> code)) lines Map.empty"

definition ProtoParser :: "string \<Rightarrow> string \<Rightarrow> string \<Rightarrow> proto_dir \<Rightarrow> gen_error + proto_parser" where
  "ProtoParser recv_prefix send_prefix enum_path dir =
     (case map_of dir enum_path of
        None \<Rightarrow> Inl (FileNotFoundError enum_path)
      | Some lines \<Rightarrow> Inr \<lparr>pp_recv_prefix = recv_prefix, pp_send_prefix = send_prefix, pp_recv_pkt = [], pp_send_pkt = [],
          pp_total_pkt = [], pp_includes = [], pp_enum_map = parse_enum lines\<rparr>)"

text \<open>The name of the message a line declares: \<open>Some None\<close> when \<open>split()[1]\<close> raises.\<close>

definition message_name :: "string \<Rightarrow> string option option" where
  "message_name line =
     (if \<not> startswith (strip space line) ''message'' then None
      else (case split_words (strip space line) of
              _ # w # _ \<Rightarrow> Some (Some (upper (strip (\<lambda>c. c = CHR ''{'') w)))
            | _ \<Rightarrow> Some None))"

definition parse_line :: "string \<Rightarrow> string \<Rightarrow> string \<Rightarrow> proto_parser \<Rightarrow> gen_error + proto_parser" where
  "parse_line filename category line P =
     (case message_name line of
        None \<Rightarrow> Inr P
      | Some None \<Rightarrow> Inl IndexError
      | Some (Some pkt_name) \<Rightarrow>
          (case pp_enum_map P pkt_name of
             None \<Rightarrow> Inl (ValueError filename pkt_name)
           | Some code \<Rightarrow>
               (let pkt = \<lparr>pk_name = pkt_name, pk_id = code, pk_category = category\<rparr>;
                    total = pp_total_pkt P @ [pkt]
                in if startswith pkt_name (pp_recv_prefix P)
                   then Inr (P\<lparr>pp_recv_pkt := pp_recv_pkt P @ [pkt], pp_total_pkt := total\<rparr>)
                   else if startswith pkt_name (pp_send_prefix P)
                   then Inr (P\<lparr>pp_send_pkt := pp_send_pkt P @ [pkt], pp_total_pkt := total\<rparr>)
                   else Inr P)))"

text \<open>A loop whose body may raise.\<close>

fun try_each :: "('a \<Rightarrow> 's \<Rightarrow> 'e + 's) \<Rightarrow> 'a list \<Rightarrow> 's \<Rightarrow> 'e + 's" where
  "try_each f [] s = Inr s"
| "try_each f (x # xs) s = (case f x s of Inl e \<Rightarrow> Inl e | Inr s' \<Rightarrow> try_each f xs s')"

definition category_of :: "string \<Rightarrow> string" where
  "category_of filename = remove_all ''Protocol'' (splitext_root filename)"

definition parse_proto :: "string \<times> string list \<Rightarrow> proto_parser \<Rightarrow> gen_error + proto_parser" where
  "parse_proto file P = (case file of (filename, lines) \<Rightarrow>
     try_each (parse_line filename (category_of filename)) lines
       (P\<lparr>pp_includes := pp_includes P @ [splitext_root filename]\<rparr>))"

text \<open>\<open>sorted(glob.glob('*Protocol.proto'))\<close>; a pattern does not match a leading dot.\<close>

definition is_protocol :: "string \<Rightarrow> bool" where
  "is_protocol filename \<longleftrightarrow> endswith filename ''Protocol.proto'' \<and> \<not> startswith filename ''.''"

definition proto_files :: "proto_dir \<Rightarrow> proto_dir" where
  "proto_files dir = sort_key fst (filter (\<lambda>file. is_protocol (fst file)) dir)"

definition parse_all :: "proto_dir \<Rightarrow> proto_parser \<Rightarrow> gen_error + proto_parser" where
  "parse_all dir P =
     (if proto_files dir = [] then Inl (FileNotFoundError ''*Protocol.proto'')
      else try_each parse_proto (proto_files dir) P)"

section \<open>The generator\<close>

text \<open>What \<open>main\<close> writes: the arguments of the two templates it renders.\<close>

datatype rendered =
    GamePacketHandler_h proto_parser string "string list" string
  | CategoryPacketHandler_h string "gen_packet list"

definition by_category :: "proto_parser \<Rightarrow> string \<Rightarrow> gen_packet list" where
  "by_category P category = filter (\<lambda>pkt. pk_category pkt = category) (pp_recv_pkt P)"

definition categories :: "proto_parser \<Rightarrow> string list" where
  "categories P = sort (remdups (map pk_category (pp_recv_pkt P)))"

definition generator_main ::
  "string \<Rightarrow> string \<Rightarrow> string \<Rightarrow> string \<Rightarrow> string \<Rightarrow> proto_dir \<Rightarrow> gen_error + (string \<times> rendered) list" where
  "generator_main game_prefix recv send enum output dir =
     (case ProtoParser recv send enum dir of
        Inl e \<Rightarrow> Inl e
      | Inr P0 \<Rightarrow>
          (case parse_all dir P0 of
             Inl e \<Rightarrow> Inl e
           | Inr P \<Rightarrow>
               (let suffix = (if startswith output game_prefix then drop (length game_prefix) output else output)
                in Inr ((output @ ''.h'', GamePacketHandler_h P output (categories P) suffix)
                     # map (\<lambda>c. (c @ suffix @ ''.h'', CategoryPacketHandler_h c (by_category P c))) (categories P)))))"



section \<open>What the parser finds\<close>




text \<open>A line the parser accepts, and the packet of a request it declares.\<close>

definition known_line :: "proto_parser \<Rightarrow> string \<Rightarrow> bool" where
  "known_line P line = (case message_name line of None \<Rightarrow> True | Some None \<Rightarrow> False | Some (Some name) \<Rightarrow> pp_enum_map P name \<noteq> None)"

definition declares :: "proto_parser \<Rightarrow> string \<Rightarrow> string \<Rightarrow> gen_packet \<Rightarrow> bool" where
  "declares P category line pkt \<longleftrightarrow> message_name line = Some (Some (pk_name pkt)) \<and> pp_enum_map P (pk_name pkt) = Some (pk_id pkt)
     \<and> pk_category pkt = category \<and> startswith (pk_name pkt) (pp_recv_prefix P)"

definition same_setup :: "proto_parser \<Rightarrow> proto_parser \<Rightarrow> bool" where
  "same_setup P P' \<longleftrightarrow> pp_recv_prefix P' = pp_recv_prefix P \<and> pp_enum_map P' = pp_enum_map P"

text \<open>\<open>adds f pkts ok\<close>: when it returns, \<open>f\<close> has added the requests \<open>pkts\<close>; it returns exactly if \<open>ok\<close>.\<close>

definition adds :: "(proto_parser \<Rightarrow> gen_error + proto_parser) \<Rightarrow> (proto_parser \<Rightarrow> gen_packet \<Rightarrow> bool) \<Rightarrow> (proto_parser \<Rightarrow> bool) \<Rightarrow> bool" where
  "adds f new ok \<longleftrightarrow> (\<forall>P. (if ok P then \<exists>P'. f P = Inr P' \<and> same_setup P P'
       \<and> set (pp_recv_pkt P') = set (pp_recv_pkt P) \<union> Collect (new P) else isl (f P)))"

lemma adds_line: "adds (parse_line file category line) (\<lambda>P. declares P category line) (\<lambda>P. known_line P line)"
  by (auto simp: adds_def parse_line_def known_line_def declares_def same_setup_def Let_def split: option.splits)

lemma adds_each:
  assumes "\<And>x. x \<in> set xs \<Longrightarrow> adds (f x) (new x) (ok x)"
    and "\<And>x P P'. same_setup P P' \<Longrightarrow> new x P' = new x P \<and> ok x P' = ok x P"
  shows "adds (try_each f xs) (\<lambda>P pkt. \<exists>x \<in> set xs. new x P pkt) (\<lambda>P. \<forall>x \<in> set xs. ok x P)"
  using assms(1)
proof (induction xs)
  case Nil
  show ?case by (simp add: adds_def same_setup_def)
next
  case (Cons x xs)
  have x: "adds (f x) (new x) (ok x)" and xs: "adds (try_each f xs) (\<lambda>P pkt. \<exists>x \<in> set xs. new x P pkt) (\<lambda>P. \<forall>x \<in> set xs. ok x P)"
    using Cons by simp_all
  show ?case unfolding adds_def
  proof
    fix P
    show "if \<forall>x \<in> set (x # xs). ok x P then \<exists>P'. try_each f (x # xs) P = Inr P' \<and> same_setup P P'
         \<and> set (pp_recv_pkt P') = set (pp_recv_pkt P) \<union> {pkt. \<exists>x \<in> set (x # xs). new x P pkt}
       else isl (try_each f (x # xs) P)"
    proof (cases "ok x P")
      case False
      with x have "isl (f x P)" by (auto simp: adds_def)
      with False show ?thesis by (cases "f x P") auto
    next
      case True
      with x obtain P1 where P1: "f x P = Inr P1" "same_setup P P1"
        "set (pp_recv_pkt P1) = set (pp_recv_pkt P) \<union> Collect (new x P)" unfolding adds_def by meson
      have same: "ok y P1 = ok y P" "new y P1 = new y P" for y using assms(2) [OF P1(2)] by simp_all
      from xs have "if \<forall>x \<in> set xs. ok x P then \<exists>P'. try_each f xs P1 = Inr P' \<and> same_setup P1 P'
          \<and> set (pp_recv_pkt P') = set (pp_recv_pkt P1) \<union> {pkt. \<exists>x \<in> set xs. new x P pkt} else isl (try_each f xs P1)"
        unfolding adds_def by (auto simp: same dest: spec [of _ P1])
      with P1 True show ?thesis by (auto simp: same_setup_def split: if_splits)
    qed
  qed
qed

lemma same_setup_simps:
  assumes "same_setup P P'"
  shows "declares P' category line pkt = declares P category line pkt" and "known_line P' line = known_line P line"
  using assms by (simp_all add: same_setup_def declares_def known_line_def cong: option.case_cong)

lemma includes_simps [simp]:
  "declares (P\<lparr>pp_includes := i\<rparr>) = declares P" "known_line (P\<lparr>pp_includes := i\<rparr>) = known_line P"
  "same_setup (P\<lparr>pp_includes := i\<rparr>) P' = same_setup P P'"
  by (simp_all add: declares_def known_line_def same_setup_def fun_eq_iff split: option.split)

lemma adds_proto:
  "adds (parse_proto file) (\<lambda>P pkt. \<exists>line \<in> set (snd file). declares P (category_of (fst file)) line pkt)
     (\<lambda>P. \<forall>line \<in> set (snd file). known_line P line)"
proof -
  obtain name lines where nl: "file = (name, lines)" by force
  have "adds (try_each (parse_line name (category_of name)) lines)
      (\<lambda>P pkt. \<exists>line \<in> set lines. declares P (category_of name) line pkt) (\<lambda>P. \<forall>line \<in> set lines. known_line P line)"
    by (rule adds_each [OF adds_line]) (simp add: same_setup_simps fun_eq_iff)
  note each = this [unfolded adds_def, THEN spec]
  show ?thesis unfolding adds_def
  proof
    fix P
    from each [of "P\<lparr>pp_includes := pp_includes P @ [splitext_root name]\<rparr>"]
    show "if \<forall>line \<in> set (snd file). known_line P line
      then \<exists>P'. parse_proto file P = Inr P' \<and> same_setup P P' \<and> set (pp_recv_pkt P') = set (pp_recv_pkt P)
        \<union> {pkt. \<exists>line \<in> set (snd file). declares P (category_of (fst file)) line pkt}
      else isl (parse_proto file P)"
      by (simp add: nl parse_proto_def cong: if_cong)
  qed
qed

lemma adds_all:
  "proto_files dir \<noteq> [] \<Longrightarrow> adds (parse_all dir)
     (\<lambda>P pkt. \<exists>file \<in> set (proto_files dir). \<exists>line \<in> set (snd file). declares P (category_of (fst file)) line pkt)
     (\<lambda>P. \<forall>file \<in> set (proto_files dir). \<forall>line \<in> set (snd file). known_line P line)"
proof -
  assume "proto_files dir \<noteq> []"
  then have "parse_all dir = try_each parse_proto (proto_files dir)" by (simp add: parse_all_def fun_eq_iff)
  moreover have "adds (try_each parse_proto (proto_files dir))
     (\<lambda>P pkt. \<exists>file \<in> set (proto_files dir). \<exists>line \<in> set (snd file). declares P (category_of (fst file)) line pkt)
     (\<lambda>P. \<forall>file \<in> set (proto_files dir). \<forall>line \<in> set (snd file). known_line P line)"
    by (rule adds_each [OF adds_proto]) (simp add: same_setup_simps fun_eq_iff)
  ultimately show ?thesis by simp
qed


section \<open>The generated table\<close>









lemma known_line_iff:
  "known_line P line \<longleftrightarrow> message_name line \<noteq> Some None
     \<and> (\<forall>name. message_name line = Some (Some name) \<longrightarrow> pp_enum_map P name \<noteq> None)"
  by (cases "message_name line") (auto simp: known_line_def split: option.split)

text \<open>The generator writes nothing unless every message of every protocol file has its code.\<close>

lemma generator_writes_iff:
  "(\<exists>out. generator_main game_prefix recv send enum output dir = Inr out) \<longleftrightarrow>
     proto_files dir \<noteq> [] \<and> (\<exists>lines. map_of dir enum = Some lines
       \<and> (\<forall>p \<in> set (proto_files dir). \<forall>line \<in> set (snd p). message_name line \<noteq> Some None
            \<and> (\<forall>name. message_name line = Some (Some name) \<longrightarrow> parse_enum lines name \<noteq> None)))"
proof (cases "map_of dir enum")
  case None
  then show ?thesis by (simp add: generator_main_def ProtoParser_def)
next
  case (Some lines)
  then obtain P0 where P0: "ProtoParser recv send enum dir = Inr P0" "pp_enum_map P0 = parse_enum lines"
    by (simp add: ProtoParser_def)
  have "(\<exists>out. generator_main game_prefix recv send enum output dir = Inr out) \<longleftrightarrow> \<not> isl (parse_all dir P0)"
    using P0(1) by (auto simp: generator_main_def Let_def split: sum.splits)
  also have "\<dots> \<longleftrightarrow> proto_files dir \<noteq> [] \<and> (\<forall>p \<in> set (proto_files dir). \<forall>line \<in> set (snd p). known_line P0 line)"
  proof (cases "proto_files dir = []")
    case False
    from adds_all [OF this, unfolded adds_def, THEN spec, of P0] False show ?thesis by (auto split: if_splits)
  qed (simp add: parse_all_def)
  also have "\<dots> \<longleftrightarrow> proto_files dir \<noteq> [] \<and> (\<forall>p \<in> set (proto_files dir). \<forall>line \<in> set (snd p).
      message_name line \<noteq> Some None \<and> (\<forall>name. message_name line = Some (Some name) \<longrightarrow> parse_enum lines name \<noteq> None))"
    by (simp add: known_line_iff P0(2))
  finally show ?thesis using Some by simp
qed

section \<open>The older generator\<close>

text \<open>
  \<^verbatim>\<open>Tools/PacketGenerator/ProtoParser.py\<close>: one file, and codes counted up from \<open>start_id\<close> over the
  messages with either prefix.
\<close>

record counting_parser =
  cp_recv_pkt :: "(string \<times> int) list"
  cp_send_pkt :: "(string \<times> int) list"
  cp_total_pkt :: "(string \<times> int) list"
  cp_id :: int

definition counting_line :: "string \<Rightarrow> string \<Rightarrow> string \<Rightarrow> counting_parser \<Rightarrow> gen_error + counting_parser" where
  "counting_line recv_prefix send_prefix line P =
     (if \<not> startswith line ''message'' then Inr P
      else (case split_words line of
              _ # w # _ \<Rightarrow>
                (let pkt = (upper w, cp_id P);
                     total = cp_total_pkt P @ [pkt]
                 in if startswith (upper w) recv_prefix
                    then Inr (P\<lparr>cp_recv_pkt := cp_recv_pkt P @ [pkt], cp_total_pkt := total, cp_id := cp_id P + 1\<rparr>)
                    else if startswith (upper w) send_prefix
                    then Inr (P\<lparr>cp_send_pkt := cp_send_pkt P @ [pkt], cp_total_pkt := total, cp_id := cp_id P + 1\<rparr>)
                    else Inr P)
            | _ \<Rightarrow> Inl IndexError))"

definition counting_parse :: "string \<Rightarrow> string \<Rightarrow> int \<Rightarrow> string list \<Rightarrow> gen_error + counting_parser" where
  "counting_parse recv_prefix send_prefix start_id lines =
     try_each (counting_line recv_prefix send_prefix) lines
       \<lparr>cp_recv_pkt = [], cp_send_pkt = [], cp_total_pkt = [], cp_id = start_id\<rparr>"

lemma try_each_keeps:
  assumes "\<And>x s s'. I s \<Longrightarrow> f x s = Inr s' \<Longrightarrow> I s'"
  shows "I s \<Longrightarrow> try_each f xs s = Inr s' \<Longrightarrow> I s'"
  by (induction xs arbitrary: s) (auto dest: assms split: sum.splits)

text \<open>Every packet has a code of its own, the next one from \<open>start_id\<close>.\<close>

lemma counting_codes:
  assumes "counting_parse recv_prefix send_prefix start_id lines = Inr P"
  shows "map snd (cp_total_pkt P) = map (\<lambda>k. start_id + int k) [0..<length (cp_total_pkt P)]"
proof -
  let ?I = "\<lambda>P. map snd (cp_total_pkt P) = map (\<lambda>k. start_id + int k) [0..<length (cp_total_pkt P)]
    \<and> cp_id P = start_id + int (length (cp_total_pkt P))"
  have "?I P"
    by (rule try_each_keeps [where I = ?I and f = "counting_line recv_prefix send_prefix", OF _ _ assms [unfolded counting_parse_def]])
      (auto simp: counting_line_def Let_def split: if_splits list.splits)
  then show ?thesis by simp
qed

text \<open>
  The default prefixes of \<^verbatim>\<open>PacketGenerator.py\<close>, \<open>Req_\<close> and \<open>Res_\<close>, have lower-case letters, and names are
  compared in upper case: by default the generator finds no packet at all.
\<close>

lemma of_char_upper: "ord (upper_char c) = (if lower c then ord c - 32 else ord c)"
  by (auto simp: upper_char_def lower_def ord_def of_char_of)

lemma upper_prefix: "startswith (upper w) p \<Longrightarrow> c \<in> set p \<Longrightarrow> \<not> lower c"
proof -
  assume "startswith (upper w) p" "c \<in> set p"
  then have "c \<in> set (upper w)" by (metis startswith_def in_set_takeD)
  then obtain d where "c = upper_char d" by (auto simp: upper_def)
  then show "\<not> lower c" using of_char_upper [of d] by (auto simp: lower_def split: if_splits)
qed

lemma default_prefixes_find_nothing:
  assumes "counting_parse ''Req_'' ''Res_'' start_id lines = Inr P"
  shows "cp_total_pkt P = []"
proof -
  have "lower (CHR ''e'')" by code_simp
  then have "\<not> startswith (upper w) ''Req_''" "\<not> startswith (upper w) ''Res_''" for w
    using upper_prefix [of w "''Req_''" "CHR ''e''"] upper_prefix [of w "''Res_''" "CHR ''e''"] by auto
  then show ?thesis
    by (intro try_each_keeps [where I = "\<lambda>P. cp_total_pkt P = []", OF _ _ assms [unfolded counting_parse_def]])
      (auto simp: counting_line_def Let_def split: if_splits list.splits)
qed

section \<open>The game server's messages\<close>

text \<open>The declarations its generated protobuf headers were made from: the enumeration and the messages of each file.\<close>

definition proto_text :: "string list \<Rightarrow> string list" where
  "proto_text names = map (\<lambda>n. ''message '' @ n @ '' {'') names"

definition game_protos :: proto_dir where
  "game_protos =
     [(''LobbyProtocol.proto'', proto_text [''REQ_CHECK_TOKENVALID'', ''RES_CHECK_TOKENVALID'', ''REQ_CHARACTER_LIST'',
         ''RES_CHARACTER_LIST'', ''REQ_CHECK_NICKNAME'', ''RES_CHECK_NICKNAME'', ''REQ_CREATE_CHARACTER'',
         ''RES_CREATE_CHARACTER'', ''REQ_DELETE_CHARACTER'', ''RES_DELETE_CHARACTER'', ''REQ_ENTER_GAME'',
         ''RES_ENTER_GAME'', ''REQ_LEAVE_GAME'', ''RES_LEAVE_GAME'']),
      (''GameEnum.proto'', [''enum PacketType'', ''{'', ''PKT_REQ_CHECK_TOKENVALID = 1000;'', ''PKT_RES_CHECK_TOKENVALID = 1001;'',
         ''PKT_REQ_CHARACTER_LIST = 1002;'', ''PKT_RES_CHARACTER_LIST = 1003;'', ''PKT_REQ_CHECK_NICKNAME = 1004;'',
         ''PKT_RES_CHECK_NICKNAME = 1005;'', ''PKT_REQ_CREATE_CHARACTER = 1006;'', ''PKT_RES_CREATE_CHARACTER = 1007;'',
         ''PKT_REQ_DELETE_CHARACTER = 1008;'', ''PKT_RES_DELETE_CHARACTER = 1009;'', ''PKT_REQ_ENTER_GAME = 1010;'',
         ''PKT_RES_ENTER_GAME = 1011;'', ''PKT_REQ_LEAVE_GAME = 1012;'', ''PKT_RES_LEAVE_GAME = 1013;'',
         ''PKT_REQ_SPAWN = 2000;'', ''PKT_RES_SPAWN = 2001;'', ''PKT_REQ_DESPAWN = 2002;'', ''PKT_RES_DESPAWN = 2003;'',
         ''PKT_REQ_MOVE = 2004;'', ''PKT_RES_MOVE = 2005;'', ''PKT_REQ_ATTACK = 3000;'', ''PKT_RES_ATTACK = 3001;'',
         ''PKT_REQ_AUCTION_LIST = 4000;'', ''PKT_RES_AUCTION_LIST = 4001;'', ''PKT_REQ_RECEIPT_LIST = 4002;'',
         ''PKT_RES_RECEIPT_LIST = 4003;'', ''PKT_REQ_REGIST_ITEM = 4004;'', ''PKT_RES_REGIST_ITEM = 4005;'',
         ''PKT_REQ_PURCHASE_ITEM = 4006;'', ''PKT_RES_PURCHASE_ITEM = 4007;'', ''PKT_REQ_RECEIPT_ITEM = 4008;'',
         ''PKT_RES_RECEIPT_ITEM = 4009;'', ''}'']),
      (''BattleProtocol.proto'', proto_text [''REQ_ATTACK'', ''RES_ATTACK'']),
      (''AuctionProtocol.proto'', proto_text [''REQ_AUCTION_LIST'', ''RES_AUCTION_LIST'', ''REQ_RECEIPT_LIST'',
         ''RES_RECEIPT_LIST'', ''REQ_REGIST_ITEM'', ''RES_REGIST_ITEM'', ''REQ_PURCHASE_ITEM'', ''RES_PURCHASE_ITEM'',
         ''REQ_RECEIPT_ITEM'', ''RES_RECEIPT_ITEM'']),
      (''GameStruct.proto'', proto_text [''AuctionItemInfo'']),
      (''BasicProtocol.proto'', proto_text [''RES_SPAWN'', ''RES_DESPAWN'', ''REQ_MOVE'', ''RES_MOVE''])]"


definition declared_requests :: "(string \<times> int) list" where
  "declared_requests =
     [(''REQ_AUCTION_LIST'', 4000), (''REQ_RECEIPT_LIST'', 4002), (''REQ_REGIST_ITEM'', 4004), (''REQ_PURCHASE_ITEM'', 4006),
      (''REQ_RECEIPT_ITEM'', 4008), (''REQ_MOVE'', 2004), (''REQ_ATTACK'', 3000), (''REQ_CHECK_TOKENVALID'', 1000),
      (''REQ_CHARACTER_LIST'', 1002), (''REQ_CHECK_NICKNAME'', 1004), (''REQ_CREATE_CHARACTER'', 1006),
      (''REQ_DELETE_CHARACTER'', 1008), (''REQ_ENTER_GAME'', 1010), (''REQ_LEAVE_GAME'', 1012)]"

abbreviation game_headers :: "gen_error + (string \<times> rendered) list" where
  "game_headers \<equiv> generator_main ''Game'' ''REQ_'' ''RES_'' ''GameEnum.proto'' ''GamePacketHandler'' game_protos"

lemma game_generated:
  "case game_headers of
     Inr ((f, GamePacketHandler_h P out cs sfx) # rest) \<Rightarrow>
       map (\<lambda>pkt. (pk_name pkt, pk_id pkt)) (concat (map (by_category P) (categories P))) = declared_requests
       \<and> map fst rest = [''AuctionPacketHandler.h'', ''BasicPacketHandler.h'', ''BattlePacketHandler.h'', ''LobbyPacketHandler.h'']
   | _ \<Rightarrow> False"
  by code_simp

lemma game_parsed:
  obtains f P out cs sfx rest where "game_headers = Inr ((f, GamePacketHandler_h P out cs sfx) # rest)"
    and "map (\<lambda>pkt. (pk_name pkt, pk_id pkt)) (concat (map (by_category P) (categories P))) = declared_requests"
proof (cases game_headers)
  case (Inr files)
  note G = game_generated [unfolded Inr sum.case]
  then obtain f r rest where files: "files = (f, r) # rest" by (cases files) auto
  with G obtain P out cs sfx where "r = GamePacketHandler_h P out cs sfx" by (cases r) auto
  with that files Inr G show ?thesis by simp
qed (use game_generated in simp)

text \<open>The table of the checked-in header is the generated one: the same codes, in the same order.\<close>

lemma checked_in_table:
  "\<exists>f P out cs sfx rest. game_headers = Inr ((f, GamePacketHandler_h P out cs sfx) # rest)
     \<and> map (\<lambda>pkt. nat (pk_id pkt)) (concat (map (by_category P) (categories P)))
         = map fst (GamePacketHandler_entries Q C E session)"
proof (rule game_parsed)
  fix f P out cs sfx rest
  assume main: "game_headers = Inr ((f, GamePacketHandler_h P out cs sfx) # rest)"
    and pkts: "map (\<lambda>pkt. (pk_name pkt, pk_id pkt)) (concat (map (by_category P) (categories P))) = declared_requests"
  have "map (\<lambda>pkt. nat (pk_id pkt)) (concat (map (by_category P) (categories P))) = map (nat \<circ> snd) declared_requests"
    unfolding pkts [symmetric] by (simp add: comp_def)
  with main show ?thesis by (simp add: declared_requests_def GamePacketHandler_entries_def)
qed



end
