(* ===== verification/Spec2Isabelle.thy ===== *)
theory Spec2Isabelle
  imports SessionRecv SessionSend Codec ClientList ListRefresh AuctionHandlers GameAuction LobbySpec
    LoginSpec LoginState ChatMain Rooms Server AuctionLink AuctionMain GameState GameCache GameExit EndToEnd
    PacketGen
begin

text \<open>
  The J1 servers: a login server, a game server, a chat server and an auction server in C++, over a
  shared \<^verbatim>\<open>ServerCore\<close>.  Clients and servers exchange protobuf messages in packets with a four-byte
  header; every server runs one thread over \<^verbatim>\<open>boost::asio\<close>, the auction server also a pool of
  database workers.  This is the root of a model of them: it imports every theory and holds the map.

  \<^bold>\<open>The parts and how they interact\<close>

  \<^item> A client's bytes reach a \<open>Session\<close>, which cuts them into packets and hands each body to the
    server's \<open>HandlePacket\<close>.  That looks the packet's code up in a table of handlers; the handler
    parses the message, works on the server's state and answers through the session's send queue.
  \<^item> Login and lobby handlers run SQL on a connection borrowed from the connection pool.  The login
    server writes the token of a sign-in into a table; the game server checks it there.
  \<^item> The game server forwards auction requests to the auction server and routes the replies back by
    session id.  It keeps a cache of the auction's list, from which it answers list requests and
    rejects hopeless purchases.
  \<^item> The auction server posts each request to a worker with its own connection: requests on one
    listing always to the same one, so that its purchases run in order.

  \<^bold>\<open>Theories\<close>

  \<^item> \<open>J1_Prelude\<close>: the integer widths of \<^verbatim>\<open>Types.h\<close> as words, the C++ exceptions, the
    exception-state monad \<open>xm\<close> the database code is written in, lemma collections.
  \<^item> \<open>Packet\<close> (\<^verbatim>\<open>Packet.h\<close>): header bytes, \<open>PacketUtil\<close>.  A protobuf class is a parameter, with the
    laws of the locale \<open>message_codec\<close>.
  \<^item> \<open>SessionRecv\<close>, \<open>SessionSend\<close> (\<^verbatim>\<open>Session.cpp\<close>): the two halves of a session.  Lemmas: what is
    received does not depend on the cutting of the stream; send/receive round trip; the queue's bound
    and order; the ways a packet ends its receiver.
  \<^item> \<open>Dispatch\<close>, \<open>Wire\<close>: the handler tables, and a server process whose sessions serve packets from
    its table.  \<open>serve_one\<close> and \<open>serve_many\<close> carry a handler's behaviour over to bytes.
  \<^item> \<open>ProtoWire\<close>, \<open>Codec\<close>: the generated \<^verbatim>\<open>.pb.cc\<close> code of the messages of a purchase, of the list and
    of a login, over the runtime's primitives (locale \<open>wire\<close>), and that each class is a \<open>message_codec\<close>.
  \<^item> \<open>ConnPool\<close> (\<^verbatim>\<open>ConnectionPool.h\<close>): the pool; locales \<open>lender\<close> and \<open>connection_pool\<close> are what its
    clients rely on.  \<open>SqlDb\<close> (\<^verbatim>\<open>SqlUtils.h\<close>, \<^verbatim>\<open>MySQLConnection.h\<close>): tables, connections, binding and
    execution of statements, with a fault oracle: any call to the connector may throw.
    \<open>Transactions\<close>: what holds inside a transaction.  \<open>PooledDb\<close>: handlers on pooled connections.
  \<^item> \<open>Messages\<close>: the fields of the protobuf messages.
  \<^item> \<open>AuctionService\<close>, \<open>AuctionPurchase\<close>, \<open>AuctionSpec\<close> (\<^verbatim>\<open>AuctionService.cpp\<close>): every statement and
    function; the purchase is atomic and refines a purchase on integers that conserves items.
  \<^item> \<open>WorkerPool\<close> (\<^verbatim>\<open>AuctionWorkerPool.cpp\<close>), \<open>AuctionHandlers\<close> (\<^verbatim>\<open>AuctionPacketHandler.cpp\<close>): posting,
    running and draining tasks, the requests' handlers, the order of purchases, the replies.
  \<^item> \<open>Cache\<close>, \<open>CacheSound\<close>, \<open>ClientList\<close> (\<^verbatim>\<open>AuctionCache.cpp\<close>): the refresh cycle as a timed step
    relation; that a rejection is sound; that the client's list is right and always fits.
  \<^item> \<open>SessionManager\<close> (\<^verbatim>\<open>GameSessionManager.cpp\<close>), \<open>GameAuction\<close> (the game server's auction handlers),
    \<open>AuctionLink\<close> (\<^verbatim>\<open>AuctionSession.cpp\<close>: the connection to the auction server).
  \<^item> \<open>Lobby\<close>, \<open>LobbySpec\<close> (\<^verbatim>\<open>LobbyPacketHandler.cpp\<close>); \<open>Login\<close>, \<open>LoginSpec\<close> (\<^verbatim>\<open>SignManager.cpp\<close>):
    the database handlers, and their atomicity, soundness and agreement with one another.
  \<^item> \<open>Rooms\<close> (\<^verbatim>\<open>GameRoom.cpp\<close>, \<^verbatim>\<open>ChatRoom.cpp\<close>): both room classes and their handlers; the locale
    \<open>room_handlers\<close> is what they share.
  \<^item> \<open>LoginServer\<close>, \<open>ChatServer\<close>, \<open>GameServer\<close>: each server's table with all its handlers over the
    server's state, and the theorems from the client's bytes to the reply in the send queue.
  \<^item> \<open>Server\<close>: accepting and the event loop over all sessions of a server, and the programs of the
    login and chat server.  Lemmas: sessions do not mix; what one bad header does.
  \<^item> \<open>ServerInvariant\<close>: the locale of a property that registering, closing and the handlers keep, which
    so holds in every state the event loop reaches.  \<open>LoginState\<close>: the login server's accounts and
    tokens stay consistent and are never lost.  \<open>ChatMain\<close>: the chat room and the connections belong
    together, so that a message reaches the members whose connections are open and nobody else.
  \<^item> \<open>AuctionMain\<close>, \<open>GameMain\<close>: the programs of the auction server (loop, workers, clean-up) and of
    the game server (its network thread and its auction thread), over everything above.
    \<open>GameExit\<close>: the game server's \<open>main\<close> to its end: a start that fails, the joining of the auction
    thread, and the order in which the program's objects are destroyed.
  \<^item> \<open>GameInvariant\<close>: the locale of the properties that every handler keeps, and that so hold in every
    state the game server reaches.  \<open>GameState\<close>, \<open>GameCache\<close>: its two instances: the connections, tables,
    room and snapshot are well formed, and the refresh cycle is alive.
  \<^item> \<open>ListRefresh\<close>: a refresh of the cache across both servers, and that what it rejects is hopeless.
  \<^item> \<open>EndToEnd\<close>: a purchase from the client's bytes through both servers, the worker's transaction and
    back, against the specification of \<open>AuctionSpec\<close>.
  \<^item> \<open>PacketGen\<close> (\<^verbatim>\<open>Tools\<close>): the scripts that generate the packet handler headers, from the lines of
    the protocol files to the table that the generated \<open>Init\<close> fills; that it serves exactly the declared
    requests, and that the checked-in header's table is the generated one.

  \<^bold>\<open>How the model corresponds to the code\<close>

  Machine integers are words; \<open>sint\<close> reads them, and each narrowing cast is written out.  A dictionary
  is a map or an association list where its order is visible.  A function that can throw returns
  \<open>Inl\<close> of the exception.  Shared pointers to sessions are numbers with an explicit heap where weak
  pointers matter.  Locks guard single operations, which are therefore atomic steps; threads are
  interleavings of them.  A database server's faults are an oracle over the call number, universally
  quantified in the theorems.  An \<open>async\<close> operation is a pending completion in the state.

  \<^bold>\<open>Bounds and termination\<close>

  \<open>Purchase_loop\<close> recurses over the three attempts of the code.  \<open>rx_run\<close> terminates because any two
  completed reads use up at least a header.  The token loop of \<open>TrySignIn\<close> has no bound in the code; it
  is a \<open>partial_function (option)\<close>, and a theorem says when it returns and when it never does.  No
  definition uses fuel.

  \<^bold>\<open>Parameters\<close>

  Outside the repository, and so parameters with laws where the code relies on them: the protobuf
  runtime (\<open>message_codec\<close>, \<open>wire\<close>), MySQL (its tables follow the statements' documented meaning; its
  collation, clock, date formats and generated defaults are arguments), BCrypt (a check that accepts
  what its hash made), \<open>random_device\<close> (a list of words).

  \<^bold>\<open>Not modelled\<close>

  Data races: each completion handler is one step of its thread; logging; sockets below completed
  reads and writes; the unknown fields a parsed protobuf message keeps; the generated code of the other
  messages, and its copying, merging and reflection code; Jinja's rendering of the generators'
  templates, and protocol files that are not ASCII.
\<close>

end
